(* ===== verification/Prelude.thy ===== *)
theory Prelude
  imports Main "HOL-Library.Char_ord" "HOL-Library.Multiset" "HOL-Library.Sublist"
begin

text \<open>
  The prelude: the model of the parts of the Go language and of its standard library that
  every component uses, and the generic lemmas the component proofs share.

  A Go \<open>string\<close> or \<open>[]byte\<close> is a sequence of bytes; it is modelled by HOL's
  \<open>string\<close>, a list of \<open>char\<close>, which are exactly the 256 bytes. Go's \<open>int\<close> and
  \<open>int64\<close> are 64-bit: they are modelled by \<open>int\<close> with the wrap-around written out
  (\<open>wrap64\<close>) where the code does arithmetic on values that come from outside. An
  \<open>error\<close> result is a value of the sum type \<open>error + 'a\<close>; a run-time panic of the
  code (nil dereference, slice out of range) is the value \<open>None\<close> of an option type.
\<close>

named_theorems go_simps \<open>unfolding rules of the standard-library functions\<close>

section \<open>Results and errors\<close>

text \<open>An error carries the text of the Go error.\<close>

datatype error = Error string

type_synonym 'a result = "error + 'a"

text \<open>\<open>if err != nil { return err }; rest\<close>.\<close>

definition result_bind :: "'a result \<Rightarrow> ('a \<Rightarrow> 'b result) \<Rightarrow> 'b result" where
  "result_bind r k = (case r of Inl e \<Rightarrow> Inl e | Inr a \<Rightarrow> k a)"

lemma result_bind_simps [simp]:
  "result_bind (Inl e) k = Inl e"
  "result_bind (Inr a) k = k a"
  by (simp_all add: result_bind_def)

lemma result_bind_eq_Inr: "result_bind r k = Inr b \<longleftrightarrow> (\<exists>a. r = Inr a \<and> k a = Inr b)"
  by (cases r) auto

section \<open>Bytes\<close>

abbreviation byte :: "char \<Rightarrow> nat" where
  "byte c \<equiv> of_char c"

text \<open>The conversion \<open>byte(x)\<close> keeps the low eight bits.\<close>

abbreviation to_byte :: "nat \<Rightarrow> char" where
  "to_byte n \<equiv> char_of n"

definition is_digit :: "char \<Rightarrow> bool" where
  "is_digit c = (CHR ''0'' \<le> c \<and> c \<le> CHR ''9'')"

definition is_upper :: "char \<Rightarrow> bool" where
  "is_upper c = (CHR ''A'' \<le> c \<and> c \<le> CHR ''Z'')"

definition is_lower :: "char \<Rightarrow> bool" where
  "is_lower c = (CHR ''a'' \<le> c \<and> c \<le> CHR ''z'')"

text \<open>\<open>c += 'a' - 'A'\<close> for an upper-case letter, and its converse.\<close>

definition lower_byte :: "char \<Rightarrow> char" where
  "lower_byte c = (if is_upper c then to_byte (byte c + 32) else c)"

definition upper_byte :: "char \<Rightarrow> char" where
  "upper_byte c = (if is_lower c then to_byte (byte c - 32) else c)"

definition is_ascii :: "char \<Rightarrow> bool" where
  "is_ascii c = (byte c < 128)"

lemma char_le_byte: "c \<le> d \<longleftrightarrow> byte c \<le> byte d"
  by (simp add: less_eq_char_def)

lemma char_less_byte: "c < d \<longleftrightarrow> byte c < byte d"
  by (simp add: less_char_def)

lemma byte_less_256 [simp]: "byte c < 256"
  by (rule nat_of_char_less_256)

lemma byte_to_byte: "n < 256 \<Longrightarrow> byte (to_byte n) = n"
  by simp

lemmas byte_class_defs = is_digit_def is_upper_def is_lower_def char_le_byte

text \<open>Rules that evaluate conversions between concrete bytes and numbers.\<close>

lemmas byte_eval = char_of_def bit_Suc_0_iff

lemma byte_is_digit: "is_digit c \<longleftrightarrow> 48 \<le> byte c \<and> byte c \<le> 57"
  by (simp add: byte_class_defs)

lemma byte_is_upper: "is_upper c \<longleftrightarrow> 65 \<le> byte c \<and> byte c \<le> 90"
  by (simp add: byte_class_defs)

lemma byte_is_lower: "is_lower c \<longleftrightarrow> 97 \<le> byte c \<and> byte c \<le> 122"
  by (simp add: byte_class_defs)

lemma byte_lower_byte: "byte (lower_byte c) = (if is_upper c then byte c + 32 else byte c)"
  by (simp add: lower_byte_def byte_is_upper)

lemma not_upper_lower_byte [simp]: "\<not> is_upper (lower_byte c)"
  by (simp add: byte_is_upper byte_lower_byte)

lemma lower_byte_idem [simp]: "lower_byte (lower_byte c) = lower_byte c"
  by (subst lower_byte_def) simp

lemma is_ascii_lower_byte [simp]: "is_ascii (lower_byte c) \<longleftrightarrow> is_ascii c"
  by (simp add: is_ascii_def byte_lower_byte byte_is_upper)

section \<open>Package strings\<close>

text \<open>\<open>strings.IndexByte\<close>, \<open>strings.LastIndexByte\<close>: the index, or none for \<open>-1\<close>.\<close>

fun index_byte :: "string \<Rightarrow> char \<Rightarrow> nat option" where
  "index_byte [] c = None"
| "index_byte (x # xs) c = (if x = c then Some 0 else map_option Suc (index_byte xs c))"

fun last_index_byte :: "string \<Rightarrow> char \<Rightarrow> nat option" where
  "last_index_byte [] c = None"
| "last_index_byte (x # xs) c =
     (case last_index_byte xs c of
        Some i \<Rightarrow> Some (Suc i)
      | None \<Rightarrow> (if x = c then Some 0 else None))"

text \<open>\<open>strings.Cut\<close> with a one-byte separator: before, after, found.\<close>

definition cut :: "string \<Rightarrow> char \<Rightarrow> string \<times> string \<times> bool" where
  "cut s c = (case index_byte s c of
      None \<Rightarrow> (s, [], False)
    | Some i \<Rightarrow> (take i s, drop (Suc i) s, True))"

definition has_prefix :: "string \<Rightarrow> string \<Rightarrow> bool" where
  "has_prefix s p = (take (length p) s = p)"

definition has_suffix :: "string \<Rightarrow> string \<Rightarrow> bool" where
  "has_suffix s p = (length p \<le> length s \<and> drop (length s - length p) s = p)"

fun contains_str :: "string \<Rightarrow> string \<Rightarrow> bool" where
  "contains_str [] p = (p = [])"
| "contains_str (x # xs) p = (has_prefix (x # xs) p \<or> contains_str xs p)"

text \<open>\<open>strings.Split\<close> with a one-byte separator.\<close>

fun split_byte :: "string \<Rightarrow> char \<Rightarrow> string list" where
  "split_byte [] c = [[]]"
| "split_byte (x # xs) c =
     (if x = c then [] # split_byte xs c
      else (case split_byte xs c of [] \<Rightarrow> [[x]] | y # ys \<Rightarrow> (x # y) # ys))"

text \<open>\<open>strings.TrimLeft\<close>, \<open>TrimRight\<close>, \<open>Trim\<close> with an ASCII cutset.\<close>

definition trim_left_set :: "char list \<Rightarrow> string \<Rightarrow> string" where
  "trim_left_set cs s = dropWhile (\<lambda>c. c \<in> set cs) s"

definition trim_right_set :: "char list \<Rightarrow> string \<Rightarrow> string" where
  "trim_right_set cs s = rev (dropWhile (\<lambda>c. c \<in> set cs) (rev s))"

definition trim_set :: "char list \<Rightarrow> string \<Rightarrow> string" where
  "trim_set cs s = trim_right_set cs (trim_left_set cs s)"

text \<open>\<open>strings.Join\<close>.\<close>

fun join_str :: "string \<Rightarrow> string list \<Rightarrow> string" where
  "join_str sep [] = []"
| "join_str sep [x] = x"
| "join_str sep (x # y # ys) = x @ sep @ join_str sep (y # ys)"

lemma index_byte_Some:
  "index_byte s c = Some i \<Longrightarrow> i < length s \<and> s ! i = c \<and> c \<notin> set (take i s)"
  by (induction s arbitrary: i) (auto split: if_splits)

lemma index_byte_None: "index_byte s c = None \<longleftrightarrow> c \<notin> set s"
  by (induction s) auto

lemma index_byte_append: "c \<notin> set xs \<Longrightarrow> index_byte (xs @ c # ys) c = Some (length xs)"
  by (induction xs) auto

lemma cut_append [simp]: "c \<notin> set xs \<Longrightarrow> cut (xs @ c # ys) c = (xs, ys, True)"
  by (simp add: cut_def index_byte_append)

lemma cut_not_found: "c \<notin> set s \<Longrightarrow> cut s c = (s, [], False)"
  by (simp add: cut_def index_byte_None [THEN iffD2])

text \<open>What \<open>cut\<close> returns, whichever case applies.\<close>

lemma cut_found:
  assumes "cut s c = (a, b, True)"
  shows "s = a @ c # b" and "c \<notin> set a"
proof -
  from assms obtain i where i: "index_byte s c = Some i" and "a = take i s" "b = drop (Suc i) s"
    by (auto simp: cut_def split: option.splits)
  with index_byte_Some [OF i] show "s = a @ c # b" "c \<notin> set a"
    by (auto simp: id_take_nth_drop)
qed

lemma cut_missing:
  assumes "cut s c = (a, b, False)"
  shows "a = s" and "b = []" and "c \<notin> set s"
  using assms by (auto simp: cut_def index_byte_None split: option.splits)

lemma length_cut_after:
  "cut s c = (a, b, f) \<Longrightarrow> s \<noteq> [] \<Longrightarrow> length b < length s"
  by (cases f) (auto dest: cut_found cut_missing)

lemma has_prefix_iff: "has_prefix s p \<longleftrightarrow> (\<exists>t. s = p @ t)"
  by (metis has_prefix_def append_take_drop_id append_eq_conv_conj)

lemma has_suffix_iff: "has_suffix s p \<longleftrightarrow> (\<exists>t. s = t @ p)"
proof
  assume "has_suffix s p"
  then have "s = take (length s - length p) s @ p"
    by (metis has_suffix_def append_take_drop_id)
  then show "\<exists>t. s = t @ p" by blast
qed (auto simp: has_suffix_def)

lemma contains_str_iff: "contains_str s p \<longleftrightarrow> (\<exists>a b. s = a @ p @ b)"
proof (induction s)
  case (Cons x xs)
  show ?case
  proof
    assume "contains_str (x # xs) p"
    then consider t where "x # xs = p @ t" | a b where "xs = a @ p @ b"
      using Cons.IH by (auto simp: has_prefix_iff)
    then show "\<exists>a b. x # xs = a @ p @ b"
      by cases (metis append_Nil, metis append_Cons)
  next
    assume "\<exists>a b. x # xs = a @ p @ b"
    then obtain a b where ab: "x # xs = a @ p @ b" by blast
    show "contains_str (x # xs) p"
    proof (cases a)
      case Nil
      with ab have "has_prefix (x # xs) p" by (auto simp: has_prefix_iff)
      then show ?thesis by simp
    next
      case (Cons a' as)
      with ab Cons.IH show ?thesis by auto
    qed
  qed
qed auto

lemma split_byte_nonempty [simp]: "split_byte s c \<noteq> []"
  by (cases s) (auto split: list.splits)

lemma join_split_byte: "join_str [c] (split_byte s c) = s"
proof (induction s)
  case (Cons x xs)
  obtain y ys where "split_byte xs c = y # ys"
    by (cases "split_byte xs c") auto
  with Cons show ?case by (cases ys) auto
qed simp

section \<open>Package strconv\<close>

definition max_int64 :: int where "max_int64 = 9223372036854775807"
definition min_int64 :: int where "min_int64 = - 9223372036854775808"

text \<open>Two's complement wrap-around of 64-bit arithmetic.\<close>

definition wrap64 :: "int \<Rightarrow> int" where
  "wrap64 i = (i + 9223372036854775808) mod 18446744073709551616 - 9223372036854775808"

lemma wrap64_range: "min_int64 \<le> wrap64 i \<and> wrap64 i \<le> max_int64"
  using pos_mod_bound [of 18446744073709551616 "i + 9223372036854775808"]
    pos_mod_sign [of 18446744073709551616 "i + 9223372036854775808"]
  by (simp add: wrap64_def min_int64_def max_int64_def)

lemma wrap64_id: "min_int64 \<le> i \<Longrightarrow> i \<le> max_int64 \<Longrightarrow> wrap64 i = i"
  by (simp add: wrap64_def min_int64_def max_int64_def)

fun digits_val :: "nat \<Rightarrow> string \<Rightarrow> nat" where
  "digits_val acc [] = acc"
| "digits_val acc (c # cs) = digits_val (10 * acc + (byte c - 48)) cs"

text \<open>
  The loop of \<open>strconv.ParseUint\<close>: it stops at the first byte that is not a digit, with 0,
  and as soon as the value exceeds the maximum, with the maximum; an overlong number is thus
  out of range even when a later byte is not a digit.
\<close>

datatype num_error = ErrSyntax | ErrRange

fun parse_uint_loop :: "nat \<Rightarrow> nat \<Rightarrow> string \<Rightarrow> nat \<times> num_error option" where
  "parse_uint_loop m n [] = (n, None)"
| "parse_uint_loop m n (c # cs) =
     (if \<not> is_digit c then (0, Some ErrSyntax)
      else if m < 10 * n + (byte c - 48) then (m, Some ErrRange)
      else parse_uint_loop m (10 * n + (byte c - 48)) cs)"

text \<open>
  \<open>strconv.ParseInt(s, 10, bits)\<close>: an optional sign, then at least one decimal digit and
  nothing else. A syntax error returns 0; a value out of range returns the nearest bound.
  The flag says whether an error was returned. \<open>strconv.Atoi\<close> is the 64-bit case.
\<close>

definition clamp_int :: "nat \<Rightarrow> bool \<Rightarrow> int \<Rightarrow> int \<times> bool" where
  "clamp_int bits neg n =
     (let cutoff = 2 ^ (bits - 1) in
      if \<not> neg \<and> cutoff \<le> n then (cutoff - 1, True)
      else if neg \<and> cutoff < n then (- cutoff, True)
      else (if neg then - n else n, False))"

definition parse_int :: "nat \<Rightarrow> string \<Rightarrow> int \<times> bool" where
  "parse_int bits s =
     (let neg = (s \<noteq> [] \<and> hd s = CHR ''-'');
          ds = (if s \<noteq> [] \<and> (hd s = CHR ''-'' \<or> hd s = CHR ''+'') then tl s else s)
      in if ds = [] then (0, True)
         else (case parse_uint_loop (2 ^ bits - 1) 0 ds of
             (n, Some ErrSyntax) \<Rightarrow> (0, True)
           | (n, _) \<Rightarrow> clamp_int bits neg (int n)))"

definition atoi :: "string \<Rightarrow> int \<times> bool" where
  "atoi s = parse_int 64 s"

definition atoi_result :: "string \<Rightarrow> int result" where
  "atoi_result s = (case atoi s of (i, err) \<Rightarrow> if err then Inl (Error ''strconv.Atoi'') else Inr i)"

fun itoa_nat :: "nat \<Rightarrow> string" where
  "itoa_nat n = (if n < 10 then [to_byte (48 + n)]
                 else itoa_nat (n div 10) @ [to_byte (48 + n mod 10)])"

declare itoa_nat.simps [simp del]

definition itoa :: "int \<Rightarrow> string" where
  "itoa i = (if i < 0 then CHR ''-'' # itoa_nat (nat (- i)) else itoa_nat (nat i))"

lemma digits_val_append: "digits_val a (xs @ ys) = digits_val (digits_val a xs) ys"
  by (induction xs arbitrary: a) auto

lemma digits_val_ge: "acc \<le> digits_val acc cs"
  by (induction acc cs rule: digits_val.induct) (auto intro: order_trans [rotated])

text \<open>On digits the loop computes the value they denote, up to the maximum.\<close>

lemma parse_uint_loop_digits:
  "list_all is_digit cs \<Longrightarrow> n \<le> m \<Longrightarrow>
     parse_uint_loop m n cs =
       (if digits_val n cs \<le> m then (digits_val n cs, None) else (m, Some ErrRange))"
proof (induction m n cs rule: parse_uint_loop.induct)
  case (2 m n c cs)
  then show ?case
    using digits_val_ge [of "10 * n + (byte c - 48)" cs] by auto
qed auto

lemma is_digit_to_byte [simp]: "n < 10 \<Longrightarrow> is_digit (to_byte (48 + n))"
  by (simp add: byte_is_digit)

lemma itoa_nat_digits: "list_all is_digit (itoa_nat n)"
proof (induction n rule: itoa_nat.induct)
  case (1 n)
  then show ?case
    by (subst itoa_nat.simps) auto
qed

lemma digits_val_itoa_nat [simp]: "digits_val 0 (itoa_nat n) = n"
proof (induction n rule: itoa_nat.induct)
  case (1 n)
  then show ?case
    by (subst itoa_nat.simps) (auto simp: digits_val_append)
qed

lemma itoa_nat_nonempty [simp]: "itoa_nat n \<noteq> []"
  by (subst itoa_nat.simps) simp

lemma itoa_nonempty [simp]: "itoa i \<noteq> []"
  by (simp add: itoa_def)

lemma hd_itoa_nat: "is_digit (hd (itoa_nat n))"
  by (metis itoa_nat_digits itoa_nat_nonempty hd_in_set list.pred_set)

lemma clamp_int_range:
  assumes "0 \<le> n"
  shows "- (2 ^ (bits - 1)) \<le> fst (clamp_int bits neg n) \<and> fst (clamp_int bits neg n) < 2 ^ (bits - 1)"
proof -
  define c :: int where "c = 2 ^ (bits - 1)"
  then have "0 < c" by simp
  with assms show ?thesis
    unfolding clamp_int_def Let_def c_def [symmetric] by auto
qed

lemma parse_int_range:
  "- (2 ^ (bits - 1)) \<le> fst (parse_int bits s) \<and> fst (parse_int bits s) < 2 ^ (bits - 1)"
  using clamp_int_range [of "int n" bits neg for n neg]
  by (auto simp: parse_int_def Let_def split: prod.splits option.splits num_error.splits)

lemma parse_int_digits:
  assumes "list_all is_digit ds" "ds \<noteq> []" "int (digits_val 0 ds) < 2 ^ bits"
  shows "parse_int bits ds = clamp_int bits False (int (digits_val 0 ds))"
    and "parse_int bits (CHR ''-'' # ds) = clamp_int bits True (int (digits_val 0 ds))"
proof -
  have "is_digit (hd ds)" using assms by (cases ds) auto
  then have "hd ds \<noteq> CHR ''-''" "hd ds \<noteq> CHR ''+''" by (auto simp: byte_is_digit)
  moreover have "digits_val 0 ds < 2 ^ bits" using assms(3) by (simp flip: of_nat_less_iff)
  then have "digits_val 0 ds \<le> 2 ^ bits - 1" by simp
  ultimately show "parse_int bits ds = clamp_int bits False (int (digits_val 0 ds))"
    "parse_int bits (CHR ''-'' # ds) = clamp_int bits True (int (digits_val 0 ds))"
    using assms by (simp_all add: parse_int_def parse_uint_loop_digits)
qed

lemma atoi_range: "min_int64 \<le> fst (atoi s) \<and> fst (atoi s) \<le> max_int64"
  using parse_int_range [of 64 s] by (simp add: atoi_def min_int64_def max_int64_def)

text \<open>Printing and reading back a 64-bit integer is the identity.\<close>

lemma atoi_itoa:
  assumes "min_int64 \<le> i" "i \<le> max_int64"
  shows "atoi (itoa i) = (i, False)"
  using assms
  by (auto simp: atoi_def clamp_int_def itoa_def itoa_nat_digits min_int64_def max_int64_def
      parse_int_digits)

text \<open>For evaluation: a number of at most eighteen bytes is in range and is read as an integer.\<close>

fun int_digits :: "int \<Rightarrow> string \<Rightarrow> int" where
  "int_digits acc [] = acc"
| "int_digits acc (c # cs) = int_digits (10 * acc + (int (byte c) - 48)) cs"

lemma int_digits_val: "list_all is_digit cs \<Longrightarrow> int_digits (int acc) cs = int (digits_val acc cs)"
proof (induction cs arbitrary: acc)
  case (Cons c cs)
  then have "10 * int acc + (int (byte c) - 48) = int (10 * acc + (byte c - 48))"
    by (simp add: byte_is_digit of_nat_diff)
  with Cons show ?case by (simp only: int_digits.simps digits_val.simps list.pred_inject)
qed simp

lemma digit_step: "is_digit c \<Longrightarrow> Suc (10 * n + (byte c - 48)) \<le> 10 * Suc n"
  unfolding byte_is_digit by presburger

lemma parse_uint_loop_short:
  "Suc n * 10 ^ length cs \<le> Suc m \<Longrightarrow>
     parse_uint_loop m n cs = (if list_all is_digit cs then (digits_val n cs, None) else (0, Some ErrSyntax))"
proof (induction cs arbitrary: n)
  case (Cons c cs)
  show ?case
  proof (cases "is_digit c")
    case True
    let ?n = "10 * n + (byte c - 48)"
    have "Suc ?n * 10 ^ length cs \<le> 10 * Suc n * 10 ^ length cs"
      by (rule mult_right_mono [OF digit_step [OF True]]) simp
    also have "\<dots> \<le> Suc m" using Cons.prems by (simp add: algebra_simps)
    finally have b: "Suc ?n * 10 ^ length cs \<le> Suc m" .
    moreover have "Suc ?n * 1 \<le> Suc ?n * 10 ^ length cs" by (rule mult_left_mono) simp_all
    ultimately have "?n \<le> m" by simp
    with True Cons.IH [OF b] show ?thesis by simp
  qed simp
qed simp

definition atoi_short :: "string \<Rightarrow> int \<times> bool" where
  "atoi_short s =
     (let neg = (s \<noteq> [] \<and> hd s = CHR ''-'');
          ds = (if s \<noteq> [] \<and> (hd s = CHR ''-'' \<or> hd s = CHR ''+'') then tl s else s)
      in if ds = [] \<or> \<not> list_all is_digit ds then (0, True)
         else (if neg then - int_digits 0 ds else int_digits 0 ds, False))"

lemma digits_val_less: "list_all is_digit cs \<Longrightarrow> digits_val n cs < Suc n * 10 ^ length cs"
proof (induction cs arbitrary: n)
  case (Cons c cs)
  then have "Suc (10 * n + (byte c - 48)) * 10 ^ length cs \<le> 10 * Suc n * 10 ^ length cs"
    by (intro mult_right_mono [OF digit_step]) simp_all
  with Cons show ?case by (fastforce simp: algebra_simps intro: less_le_trans)
qed simp

lemma atoi_code [code]: "atoi s = (if length s \<le> 18 then atoi_short s else parse_int 64 s)"
proof (cases "length s \<le> 18")
  case True
  define ds where "ds = (if s \<noteq> [] \<and> (hd s = CHR ''-'' \<or> hd s = CHR ''+'') then tl s else s)"
  have len: "length ds \<le> 18" using True by (auto simp: ds_def)
  have p: "(10 :: nat) ^ length ds \<le> 10 ^ 18" by (rule power_increasing [OF len]) simp
  then have "Suc 0 * 10 ^ length ds \<le> Suc (2 ^ 64 - 1)" by simp
  note l = parse_uint_loop_short [OF this]
  have v: "int (digits_val 0 ds) < 10 ^ 18" if "list_all is_digit ds"
    using digits_val_less [OF that, of 0] p by (simp flip: of_nat_less_iff)
  show ?thesis
    unfolding atoi_def parse_int_def atoi_short_def ds_def [symmetric] Let_def l
    using True v int_digits_val [of ds 0] by (auto simp: clamp_int_def)
qed (simp add: atoi_def)

section \<open>Maps as association lists\<close>

text \<open>
  A Go map is an association list with distinct keys. The order of the list stands for the
  iteration order the runtime happens to choose, which Go leaves open: what is proved about
  an iteration is therefore stated on multisets or sets.
\<close>

fun alist_get :: "('k \<times> 'v) list \<Rightarrow> 'k \<Rightarrow> 'v option" where
  "alist_get [] k = None"
| "alist_get ((k', v) # ps) k = (if k' = k then Some v else alist_get ps k)"

fun alist_put :: "'k \<Rightarrow> 'v \<Rightarrow> ('k \<times> 'v) list \<Rightarrow> ('k \<times> 'v) list" where
  "alist_put k v [] = [(k, v)]"
| "alist_put k v ((k', v') # ps) = (if k' = k then (k, v) # ps else (k', v') # alist_put k v ps)"

definition alist_del :: "'k \<Rightarrow> ('k \<times> 'v) list \<Rightarrow> ('k \<times> 'v) list" where
  "alist_del k ps = filter (\<lambda>p. fst p \<noteq> k) ps"

definition alist_ok :: "('k \<times> 'v) list \<Rightarrow> bool" where
  "alist_ok ps = distinct (map fst ps)"

lemma alist_get_put [simp]:
  "alist_get (alist_put k v ps) k' = (if k' = k then Some v else alist_get ps k')"
  by (induction ps rule: alist_put.induct) auto

lemma alist_get_del [simp]:
  "alist_get (alist_del k ps) k' = (if k' = k then None else alist_get ps k')"
  by (induction ps) (auto simp: alist_del_def)

lemma keys_alist_put [simp]: "fst ` set (alist_put k v ps) = insert k (fst ` set ps)"
  by (induction ps rule: alist_put.induct) auto

lemma alist_ok_Nil [simp]: "alist_ok []"
  by (simp add: alist_ok_def)

lemma alist_ok_put [simp]: "alist_ok ps \<Longrightarrow> alist_ok (alist_put k v ps)"
proof (induction ps)
  case (Cons p ps)
  then show ?case
    by (cases p) (auto simp: alist_ok_def)
qed (simp add: alist_ok_def)

lemma alist_ok_del [simp]: "alist_ok ps \<Longrightarrow> alist_ok (alist_del k ps)"
  by (simp add: alist_ok_def alist_del_def distinct_map_filter)

lemma alist_get_None: "alist_get ps k = None \<longleftrightarrow> k \<notin> fst ` set ps"
  by (induction ps) (auto split: if_splits)

lemma alist_get_SomeD: "alist_get ps k = Some v \<Longrightarrow> (k, v) \<in> set ps"
  by (induction ps) (auto split: if_splits)

lemma alist_get_mem: "alist_ok ps \<Longrightarrow> (k, v) \<in> set ps \<Longrightarrow> alist_get ps k = Some v"
  by (induction ps) (auto simp: alist_ok_def image_iff)

lemma length_alist_put:
  "length (alist_put k v ps) = (if alist_get ps k = None then Suc (length ps) else length ps)"
  by (induction ps rule: alist_put.induct) auto

section \<open>Positional arithmetic\<close>

lemma radix_split: "b < k \<Longrightarrow> (a * k + b) div k = a \<and> (a * k + b) mod k = (b :: nat)"
  by simp

lemma radix_join: "a div k * k + a mod k = (a :: nat)"
  by simp

section \<open>Lists\<close>

text \<open>The scan \<open>for i := 0; i < len(s); i++ { if p(s[i]) { ... i ... } }\<close>.\<close>

fun first_index :: "(char \<Rightarrow> bool) \<Rightarrow> string \<Rightarrow> nat option" where
  "first_index p [] = None"
| "first_index p (c # s) = (if p c then Some 0 else map_option Suc (first_index p s))"

lemma first_index_None: "first_index p s = None \<longleftrightarrow> (\<forall>c \<in> set s. \<not> p c)"
  by (induction s) auto

lemma first_index_Some:
  "first_index p s = Some i \<Longrightarrow> i < length s \<and> p (s ! i) \<and> (\<forall>c \<in> set (take i s). \<not> p c)"
  by (induction s arbitrary: i) (auto split: if_splits)

text \<open>
  A loop that starts at the first interesting byte does the same as the loop over the whole
  string, when the loop copies uninteresting bytes.
\<close>

lemma first_index_shortcut:
  assumes copy: "\<And>a b. \<forall>c \<in> set a. \<not> p c \<Longrightarrow> loop (a @ b) = a @ loop b" and nil: "loop [] = []"
  shows "(case first_index p s of None \<Rightarrow> s | Some i \<Rightarrow> take i s @ loop (drop i s)) = loop s"
proof (cases "first_index p s")
  case None
  then have "\<forall>c \<in> set s. \<not> p c" by (simp add: first_index_None)
  with copy [of s "[]"] nil None show ?thesis by simp
next
  case (Some i)
  with copy [of "take i s" "drop i s"] show ?thesis by (auto dest: first_index_Some)
qed

lemma dropWhile_length_le: "length (dropWhile P xs) \<le> length xs"
  by (induction xs) auto

lemma drop_Suc_nth: "i < length xs \<Longrightarrow> drop i xs = xs ! i # drop (Suc i) xs"
  by (rule Cons_nth_drop_Suc [symmetric])

end
