(* ===== verification/Body_Buffer.thy ===== *)
theory Body_Buffer
  imports Prelude
begin

text \<open>
  The body buffer of \<open>internal/corazawaf/body_buffer.go\<close>: bytes are kept in memory up to
  \<open>MemoryLimit\<close> and then in a temporary file, and at most \<open>Limit\<close> bytes are accepted.
  A file is its contents and its read/write offset; whether the operating system can create
  the file and write to it is an argument of \<open>Write\<close> (\<open>io_env\<close>). The readers handed out
  live in a store, and the buffer keeps the addresses of the open ones.
\<close>

record bb_options =
  TmpPath :: string
  MemoryLimit :: int
  Limit :: int

record body_file =
  f_content :: string
  f_offset :: nat

record body_buffer =
  bb_options :: bb_options
  bb_buffer :: string
  bb_writer :: "body_file option"
  bb_length :: int
  bb_readers :: "nat list"

record body_reader =
  r_pos :: nat
  r_open :: bool

record bb_state =
  the_buffer :: body_buffer
  reader_store :: "body_reader list"

text \<open>
  The behaviour of the file system during one call: \<open>HasAccessToFS\<close> of the build, whether
  \<open>os.CreateTemp\<close> and the dump of the memory buffer succeed, and after how many bytes the
  write of the new data fails, if it does.
\<close>

record io_env =
  HasAccessToFS :: bool
  create_ok :: bool
  dump_ok :: bool
  write_fails_after :: "nat option"

definition NewBodyBuffer :: "bb_options \<Rightarrow> body_buffer" where
  "NewBodyBuffer options =
     \<lparr>bb_options = options, bb_buffer = [], bb_writer = None, bb_length = 0, bb_readers = []\<rparr>"

definition file_write :: "body_file \<Rightarrow> string \<Rightarrow> body_file" where
  "file_write f data =
     \<lparr>f_content = take (f_offset f) (f_content f) @ data @ drop (f_offset f + length data) (f_content f),
      f_offset = f_offset f + length data\<rparr>"

text \<open>\<open>Write\<close>: the number of bytes written, the error, and the buffer afterwards.\<close>

definition Write :: "io_env \<Rightarrow> body_buffer \<Rightarrow> string \<Rightarrow> int \<times> error option \<times> body_buffer" where
  "Write env br data =
     (if data = [] then (0, None, br)
      else if wrap64 (Limit (bb_options br) - int (length data)) < bb_length br then
        (0, Some (Error ''limit reached while writing''), br)
      else let targetLen = wrap64 (bb_length br + int (length data)) in
        if MemoryLimit (bb_options br) < targetLen then
          (if \<not> HasAccessToFS env then (0, Some (Error ''memoryLimit reached while writing''), br)
           else if bb_writer br = None \<and> \<not> create_ok env then (0, Some (Error ''open''), br)
           else if bb_writer br = None \<and> \<not> dump_ok env then
             (0, Some (Error ''write''), br\<lparr>bb_writer := Some \<lparr>f_content = [], f_offset = 0\<rparr>\<rparr>)
           else let br1 = (case bb_writer br of
                      None \<Rightarrow> br\<lparr>bb_writer := Some (file_write \<lparr>f_content = [], f_offset = 0\<rparr> (bb_buffer br)),
                                 bb_buffer := []\<rparr>
                    | Some f \<Rightarrow> br);
                    n = (case write_fails_after env of None \<Rightarrow> length data | Some k \<Rightarrow> min k (length data))
                in (int n,
                    if write_fails_after env = None then None else Some (Error ''write''),
                    br1\<lparr>bb_length := targetLen,
                        bb_writer := map_option (\<lambda>f. file_write f (take n data)) (bb_writer br1)\<rparr>))
        else (int (length data), None, br\<lparr>bb_length := targetLen, bb_buffer := bb_buffer br @ data\<rparr>))"

text \<open>\<open>WriteTo\<close>: the bytes handed to the writer, or an error.\<close>

definition WriteTo :: "body_buffer \<Rightarrow> string result \<times> body_buffer" where
  "WriteTo br = (case bb_writer br of
      None \<Rightarrow> (Inr (bb_buffer br), br\<lparr>bb_buffer := []\<rparr>)
    | Some f \<Rightarrow>
        let b = take (nat (bb_length br)) (drop (f_offset f) (f_content f))
        in if b = [] \<and> 0 < bb_length br then (Inl (Error ''EOF''), br)
           else (Inr b, br\<lparr>bb_writer := Some (f\<lparr>f_offset := f_offset f + length b\<rparr>)\<rparr>))"

definition Reader :: "bb_state \<Rightarrow> nat \<times> bb_state" where
  "Reader st =
     (let a = length (reader_store st) in
      (a, st\<lparr>reader_store := reader_store st @ [\<lparr>r_pos = 0, r_open = True\<rparr>],
             the_buffer := (the_buffer st)\<lparr>bb_readers := bb_readers (the_buffer st) @ [a]\<rparr>\<rparr>))"

text \<open>
  \<open>Read\<close> of a reader into a slice of length \<open>p\<close>: the bytes, whether \<open>io.EOF\<close> is
  returned, and the reader afterwards. A position beyond the memory buffer makes the slice
  expression panic.
\<close>

definition Read :: "bool \<Rightarrow> body_buffer \<Rightarrow> body_reader \<Rightarrow> nat \<Rightarrow> (string \<times> bool \<times> body_reader) option" where
  "Read fs br b p =
     (if \<not> r_open b then Some ([], True, b)
      else case (if fs then bb_writer br else None) of
        None \<Rightarrow>
          (let buf = bb_buffer br;
               n = (if length buf < r_pos b + p then int (length buf) - int (r_pos b) else int p)
           in if n = 0 then Some ([], True, b)
              else if n < 0 then None
              else let out = take (nat n) (drop (r_pos b) buf)
                   in Some (out, False, b\<lparr>r_pos := r_pos b + length out\<rparr>))
      | Some f \<Rightarrow>
          (let out = take p (drop (r_pos b) (f_content f))
           in Some (out, length out < p, b\<lparr>r_pos := r_pos b + length out\<rparr>)))"

definition Close :: "body_reader \<Rightarrow> body_reader" where
  "Close b = b\<lparr>r_open := False, r_pos := 0\<rparr>"

definition Size :: "body_buffer \<Rightarrow> int" where
  "Size br = bb_length br"

text \<open>\<open>Reset\<close>; the removal of the temporary file can only fail after the state is reset.\<close>

definition Reset :: "bool \<Rightarrow> bb_state \<Rightarrow> bb_state" where
  "Reset fs st =
     (let br = the_buffer st in
      st\<lparr>the_buffer := br\<lparr>bb_buffer := [], bb_length := 0, bb_readers := [],
                          bb_writer := (if fs then None else bb_writer br)\<rparr>,
         reader_store := fold (\<lambda>a rs. if a < length rs then rs[a := Close (rs ! a)] else rs)
           (bb_readers br) (reader_store st)\<rparr>)"

section \<open>The invariant and the contents\<close>

text \<open>What the buffer holds, wherever it is stored.\<close>

definition contents :: "body_buffer \<Rightarrow> string" where
  "contents br = (case bb_writer br of None \<Rightarrow> bb_buffer br | Some f \<Rightarrow> f_content f)"

definition bb_inv :: "body_buffer \<Rightarrow> bool" where
  "bb_inv br =
     (bb_length br = int (length (contents br))
      \<and> 0 \<le> Limit (bb_options br) \<and> Limit (bb_options br) \<le> max_int64
      \<and> bb_length br \<le> Limit (bb_options br)
      \<and> (case bb_writer br of
           None \<Rightarrow> bb_length br = 0 \<or> bb_length br \<le> MemoryLimit (bb_options br)
         | Some f \<Rightarrow> bb_buffer br = [] \<and> MemoryLimit (bb_options br) < bb_length br
             \<and> f_offset f = length (f_content f)))"

text \<open>A data slice fits in memory, so its length is an \<open>int\<close>.\<close>

definition small :: "string \<Rightarrow> bool" where
  "small data = (int (length data) \<le> max_int64)"

definition io_ok :: "io_env \<Rightarrow> bool" where
  "io_ok env = (HasAccessToFS env \<and> create_ok env \<and> dump_ok env \<and> write_fails_after env = None)"

lemma bb_inv_New:
  "0 \<le> Limit opt \<Longrightarrow> Limit opt \<le> max_int64 \<Longrightarrow> bb_inv (NewBodyBuffer opt)"
  by (simp add: bb_inv_def NewBodyBuffer_def contents_def)

lemma file_write_end:
  "f_offset f = length (f_content f) \<Longrightarrow>
     file_write f data = \<lparr>f_content = f_content f @ data, f_offset = length (f_content f) + length data\<rparr>"
  by (simp add: file_write_def)

lemma Write_limit_check:
  assumes "bb_inv br" "small data"
  shows "wrap64 (Limit (bb_options br) - int (length data)) = Limit (bb_options br) - int (length data)"
  using assms by (intro wrap64_id) (auto simp: bb_inv_def small_def min_int64_def max_int64_def)

lemma Write_target:
  assumes "bb_inv br" "bb_length br + int (length data) \<le> Limit (bb_options br)"
  shows "wrap64 (bb_length br + int (length data)) = bb_length br + int (length data)"
  using assms by (intro wrap64_id) (auto simp: bb_inv_def min_int64_def max_int64_def)

lemma Write_reject:
  assumes "bb_inv br" "small data" "data \<noteq> []" "Limit (bb_options br) < bb_length br + int (length data)"
  shows "Write env br data = (0, Some (Error ''limit reached while writing''), br)"
  using assms by (simp add: Write_def Write_limit_check)

lemma Write_accept:
  assumes inv: "bb_inv br" and sm: "small data" and io: "io_ok env"
    and fit: "bb_length br + int (length data) \<le> Limit (bb_options br)"
  shows "\<exists>br'. Write env br data = (int (length data), None, br')
    \<and> contents br' = contents br @ data \<and> bb_inv br' \<and> bb_options br' = bb_options br"
proof (cases "data = []")
  case True
  with inv show ?thesis by (simp add: Write_def)
next
  case False
  note w = Write_limit_check [OF inv sm] Write_target [OF inv fit]
  have len: "bb_length br = int (length (contents br))" using inv by (simp add: bb_inv_def)
  have w0: "wrap64 (int (length data)) = int (length data)"
    using sm by (intro wrap64_id) (simp_all add: small_def min_int64_def)
  show ?thesis
  proof (cases "bb_writer br")
    case None
    then have "wrap64 (int (length (bb_buffer br)) + int (length data)) = int (length (bb_buffer br)) + int (length data)"
      using w(2) len by (simp add: contents_def)
    then show ?thesis
      using inv False fit io len None
      by (auto simp: Write_def w w0 bb_inv_def contents_def io_ok_def file_write_def Let_def)
  next
    case (Some f)
    then have "wrap64 (int (length (f_content f)) + int (length data)) = int (length (f_content f)) + int (length data)"
      using w(2) len by (simp add: contents_def)
    then show ?thesis
      using inv False fit io len Some
      by (auto simp: Write_def w bb_inv_def contents_def io_ok_def file_write_def Let_def)
  qed
qed


section \<open>Reading back\<close>

text \<open>
  A connector reads until \<open>io.EOF\<close>, each time into a slice of its choice; \<open>None\<close> is a
  panic or a list of slice sizes that ends before \<open>io.EOF\<close>.
\<close>

fun read_all :: "bool \<Rightarrow> body_buffer \<Rightarrow> body_reader \<Rightarrow> nat list \<Rightarrow> string option" where
  "read_all fs br b [] = None"
| "read_all fs br b (p # ps) = (case Read fs br b p of
      None \<Rightarrow> None
    | Some (out, eof, b') \<Rightarrow>
        if eof then Some out else map_option (\<lambda>rest. out @ rest) (read_all fs br b' ps))"

lemma Read_step:
  assumes "bb_inv br" "r_open b" "r_pos b \<le> length (contents br)" "0 < p"
  shows "\<exists>eof. Read True br b p = Some (take p (drop (r_pos b) (contents br)), eof,
      b\<lparr>r_pos := r_pos b + length (take p (drop (r_pos b) (contents br)))\<rparr>)
    \<and> (eof \<longrightarrow> length (contents br) \<le> r_pos b + p)
    \<and> (\<not> eof \<longrightarrow> r_pos b < length (contents br))"
proof (cases "bb_writer br")
  case None
  with assms show ?thesis
    by (auto simp: Read_def contents_def Let_def nat_diff_distrib' min_def)
next
  case (Some f)
  with assms show ?thesis
    by (auto simp: Read_def contents_def Let_def min_def)
qed

text \<open>Every read makes progress, so a sequence of one more slice than there are bytes is enough.\<close>

lemma read_all_contents:
  assumes "bb_inv br" "list_all (\<lambda>p. 0 < p) ps"
  shows "r_open b \<Longrightarrow> r_pos b \<le> length (contents br) \<Longrightarrow> length (contents br) - r_pos b < length ps \<Longrightarrow>
    read_all True br b ps = Some (drop (r_pos b) (contents br))"
  using assms(2)
proof (induction ps arbitrary: b)
  case (Cons p ps)
  let ?out = "take p (drop (r_pos b) (contents br))"
  let ?b = "b\<lparr>r_pos := r_pos b + length ?out\<rparr>"
  obtain eof where e: "Read True br b p = Some (?out, eof, ?b)"
      "eof \<longrightarrow> length (contents br) \<le> r_pos b + p" "\<not> eof \<longrightarrow> r_pos b < length (contents br)"
    using Read_step [of br b p] assms(1) Cons.prems by auto
  show ?case
  proof (cases eof)
    case True
    with e show ?thesis by simp
  next
    case False
    then have "read_all True br ?b ps = Some (drop (r_pos ?b) (contents br))"
      using e Cons.prems by (intro Cons.IH) auto
    with False e show ?thesis by (simp add: min_def) (metis append_take_drop_id drop_drop add.commute)
  qed
qed simp

section \<open>Sequences of writes\<close>

fun write_all :: "io_env list \<Rightarrow> body_buffer \<Rightarrow> string list \<Rightarrow> body_buffer" where
  "write_all (e # es) br (d # ds) = (case Write e br d of (_, _, br') \<Rightarrow> write_all es br' ds)"
| "write_all _ br _ = br"

lemma write_all_contents:
  "bb_inv br \<Longrightarrow> list_all io_ok es \<Longrightarrow> length es = length ds \<Longrightarrow> list_all small ds \<Longrightarrow>
     bb_length br + int (length (concat ds)) \<le> Limit (bb_options br) \<Longrightarrow>
     contents (write_all es br ds) = contents br @ concat ds \<and> bb_inv (write_all es br ds)"
proof (induction es br ds rule: write_all.induct)
  case (1 e es br d ds)
  obtain br' where w: "Write e br d = (int (length d), None, br')" and c: "contents br' = contents br @ d"
    and i: "bb_inv br'" and o: "bb_options br' = bb_options br"
    using Write_accept [of br d e] "1.prems" by auto
  have "bb_length br' = bb_length br + int (length d)"
    using i c "1.prems"(1) by (simp add: bb_inv_def)
  with w c i o 1 show ?case by simp
qed auto

text \<open>Whatever the file system does, the accepted length never exceeds the limit.\<close>

lemma Write_length_bound:
  assumes "0 \<le> bb_length br" "bb_length br \<le> Limit (bb_options br)" "Limit (bb_options br) \<le> max_int64" "small data"
  shows "bb_length (snd (snd (Write env br data))) \<le> Limit (bb_options br)
    \<and> 0 \<le> bb_length (snd (snd (Write env br data)))
    \<and> bb_options (snd (snd (Write env br data))) = bb_options br"
proof -
  have w: "wrap64 (Limit (bb_options br) - int (length data)) = Limit (bb_options br) - int (length data)"
    using assms by (intro wrap64_id) (auto simp: small_def min_int64_def max_int64_def)
  have "wrap64 (bb_length br + int (length data)) = bb_length br + int (length data)"
    if "bb_length br + int (length data) \<le> Limit (bb_options br)"
    using that assms by (intro wrap64_id) (auto simp: min_int64_def max_int64_def)
  then show ?thesis
    using assms by (auto simp: Write_def w Let_def split: option.splits)
qed

section \<open>Readers after a reset\<close>

lemma fold_Close:
  assumes "a < length rs"
  shows "length (fold (\<lambda>a rs. if a < length rs then rs[a := Close (rs ! a)] else rs) as rs) = length rs
    \<and> (a \<in> set as \<or> \<not> r_open (rs ! a) \<longrightarrow>
       \<not> r_open (fold (\<lambda>a rs. if a < length rs then rs[a := Close (rs ! a)] else rs) as rs ! a))"
  using assms
proof (induction as arbitrary: rs)
  case (Cons x as)
  let ?rs = "if x < length rs then rs[x := Close (rs ! x)] else rs"
  have "a < length ?rs" using Cons.prems by simp
  moreover have "a = x \<or> \<not> r_open (rs ! a) \<Longrightarrow> \<not> r_open (?rs ! a)"
    using Cons.prems by (auto simp: Close_def nth_list_update)
  ultimately show ?case
    using Cons.IH [of ?rs] by (auto split: if_splits)
qed simp

lemma Reset_closes:
  assumes "a \<in> set (bb_readers (the_buffer st))" "a < length (reader_store st)"
  shows "Read fs br (reader_store (Reset fs' st) ! a) p = Some ([], True, reader_store (Reset fs' st) ! a)"
  using fold_Close [OF assms(2), of "bb_readers (the_buffer st)"] assms(1)
  by (simp add: Reset_def Let_def Read_def)


section \<open>Dumping the buffer\<close>

text \<open>
  \<open>WriteTo\<close> reads a spilled body from the file's own offset, which every write leaves at the
  end: nothing is dumped and the call fails, while a reader of the same buffer returns it all.
\<close>

lemma WriteTo_memory: "bb_writer br = None \<Longrightarrow> fst (WriteTo br) = Inr (contents br)"
  by (simp add: WriteTo_def contents_def)

lemma WriteTo_spilled_EOF:
  "bb_inv br \<Longrightarrow> bb_writer br \<noteq> None \<Longrightarrow> contents br \<noteq> [] \<Longrightarrow> WriteTo br = (Inl (Error ''EOF''), br)"
  by (auto simp: WriteTo_def bb_inv_def contents_def)

section \<open>Properties\<close>

text \<open>
  C29: chunks written within the limit, with a working file system, are read back in full by a
  fresh reader, whatever the sizes of the chunks and of the reads and wherever the memory
  limit falls; a sequence of one more read than there are bytes always reaches the end.
\<close>

theorem body_write_read:
  assumes "0 \<le> Limit opt" "Limit opt \<le> max_int64" "list_all io_ok es" "length es = length ds"
    "list_all small ds" "int (length (concat ds)) \<le> Limit opt"
    "list_all (\<lambda>p. 0 < p) ps" "length (concat ds) < length ps"
  shows "read_all True (write_all es (NewBodyBuffer opt) ds) \<lparr>r_pos = 0, r_open = True\<rparr> ps = Some (concat ds)
    \<and> Size (write_all es (NewBodyBuffer opt) ds) = int (length (concat ds))"
proof -
  have i: "bb_inv (NewBodyBuffer opt)" using assms by (intro bb_inv_New)
  have n: "bb_length (NewBodyBuffer opt) = 0" "bb_options (NewBodyBuffer opt) = opt" "contents (NewBodyBuffer opt) = []"
    by (simp_all add: NewBodyBuffer_def contents_def)
  have w: "contents (write_all es (NewBodyBuffer opt) ds) = concat ds \<and> bb_inv (write_all es (NewBodyBuffer opt) ds)"
    using write_all_contents [of "NewBodyBuffer opt" es ds] i n assms by simp
  moreover have "bb_length br = int (length (contents br))" if "bb_inv br" for br
    using that by (simp add: bb_inv_def)
  moreover note read_all_contents [of "write_all es (NewBodyBuffer opt) ds" ps "\<lparr>r_pos = 0, r_open = True\<rparr>"]
  ultimately show ?thesis using assms by (simp add: Size_def)
qed

theorem body_write_read_witness:
  "read_all True (write_all
      [\<lparr>HasAccessToFS = True, create_ok = True, dump_ok = True, write_fails_after = None\<rparr>,
       \<lparr>HasAccessToFS = True, create_ok = True, dump_ok = True, write_fails_after = None\<rparr>]
      (NewBodyBuffer \<lparr>TmpPath = [], MemoryLimit = 2, Limit = 10\<rparr>) [''ab'', ''cd''])
      \<lparr>r_pos = 0, r_open = True\<rparr> [3, 3, 3, 3, 3] = Some ''abcd''"
  using body_write_read [of "\<lparr>TmpPath = [], MemoryLimit = 2, Limit = 10\<rparr>"
      "[\<lparr>HasAccessToFS = True, create_ok = True, dump_ok = True, write_fails_after = None\<rparr>,
        \<lparr>HasAccessToFS = True, create_ok = True, dump_ok = True, write_fails_after = None\<rparr>]"
      "[''ab'', ''cd'']" "[3, 3, 3, 3, 3]"]
  by (simp add: io_ok_def small_def max_int64_def)

text \<open>
  \<open>WriteTo\<close> on a body that has spilled to its temporary file hands over nothing and
  fails with \<open>EOF\<close>, because it reads from the offset the writes left at the end of the file.
\<close>

theorem WriteTo_spilled:
  "bb_inv br \<Longrightarrow> bb_writer br \<noteq> None \<Longrightarrow> contents br \<noteq> [] \<Longrightarrow> fst (WriteTo br) = Inl (Error ''EOF'')"
  by (simp add: WriteTo_spilled_EOF)

theorem WriteTo_spilled_witness:
  "fst (WriteTo \<lparr>bb_options = \<lparr>TmpPath = [], MemoryLimit = 1, Limit = 10\<rparr>, bb_buffer = [],
     bb_writer = Some \<lparr>f_content = ''ab'', f_offset = 2\<rparr>, bb_length = 2, bb_readers = []\<rparr>) = Inl (Error ''EOF'')"
  using WriteTo_spilled [of "\<lparr>bb_options = \<lparr>TmpPath = [], MemoryLimit = 1, Limit = 10\<rparr>, bb_buffer = [],
     bb_writer = Some \<lparr>f_content = ''ab'', f_offset = 2\<rparr>, bb_length = 2, bb_readers = []\<rparr>"]
  by (simp add: bb_inv_def contents_def max_int64_def)

end
