(* ===== verification/Utf8.thy ===== *)
theory Utf8
  imports Prelude
begin

text \<open>
  Package \<open>unicode/utf8\<close> and the parts of package \<open>unicode\<close> the code uses. A rune is
  a natural number. Decoding follows Go: a malformed byte is the rune \<open>RuneError\<close> with
  width 1. The Unicode case tables are a parameter of the functions that need them, given by
  their action on the code points from 128 on (the tables are data of the Go release, not of
  this repository).
\<close>

definition RuneError :: nat where "RuneError = 65533"

definition in_range :: "nat \<Rightarrow> nat \<Rightarrow> char \<Rightarrow> bool" where
  "in_range lo hi c = (lo \<le> byte c \<and> byte c \<le> hi)"

text \<open>
  The acceptance range of the second byte and the width of the sequence, by the first byte;
  none for a byte that cannot start a multi-byte sequence.
\<close>

definition lead_info :: "nat \<Rightarrow> (nat \<times> nat \<times> nat) option" where
  "lead_info b =
     (if b < 194 then None
      else if b < 224 then Some (2, 128, 191)
      else if b = 224 then Some (3, 160, 191)
      else if b = 237 then Some (3, 128, 159)
      else if b < 240 then Some (3, 128, 191)
      else if b = 240 then Some (4, 144, 191)
      else if b < 244 then Some (4, 128, 191)
      else if b = 244 then Some (4, 128, 143)
      else None)"

text \<open>\<open>utf8.DecodeRuneInString\<close>: the rune and its width in bytes.\<close>

definition decode_rune :: "string \<Rightarrow> nat \<times> nat" where
  "decode_rune s = (case s of
      [] \<Rightarrow> (RuneError, 0)
    | b0 # rest \<Rightarrow>
        if byte b0 < 128 then (byte b0, 1)
        else (case lead_info (byte b0) of
            None \<Rightarrow> (RuneError, 1)
          | Some (sz, lo, hi) \<Rightarrow>
              if length s < sz \<or> \<not> in_range lo hi (s ! 1) then (RuneError, 1)
              else if sz = 2 then (byte b0 mod 32 * 64 + byte (s ! 1) mod 64, 2)
              else if \<not> in_range 128 191 (s ! 2) then (RuneError, 1)
              else if sz = 3 then
                (byte b0 mod 16 * 4096 + byte (s ! 1) mod 64 * 64 + byte (s ! 2) mod 64, 3)
              else if \<not> in_range 128 191 (s ! 3) then (RuneError, 1)
              else (byte b0 mod 8 * 262144 + byte (s ! 1) mod 64 * 4096
                     + byte (s ! 2) mod 64 * 64 + byte (s ! 3) mod 64, 4)))"

text \<open>\<open>utf8.AppendRune\<close> / \<open>utf8.EncodeRune\<close>: surrogates and out-of-range values encode
  \<open>RuneError\<close>.\<close>

definition valid_rune :: "nat \<Rightarrow> bool" where
  "valid_rune r = (r < 55296 \<or> 57343 < r \<and> r \<le> 1114111)"

definition encode_valid :: "nat \<Rightarrow> string" where
  "encode_valid r =
     (if r < 128 then [to_byte r]
      else if r < 2048 then [to_byte (192 + r div 64), to_byte (128 + r mod 64)]
      else if r < 65536 then
        [to_byte (224 + r div 4096), to_byte (128 + r div 64 mod 64), to_byte (128 + r mod 64)]
      else
        [to_byte (240 + r div 262144), to_byte (128 + r div 4096 mod 64),
         to_byte (128 + r div 64 mod 64), to_byte (128 + r mod 64)])"

definition encode_rune :: "nat \<Rightarrow> string" where
  "encode_rune r = encode_valid (if valid_rune r then r else RuneError)"

lemma decode_rune_Nil [simp]: "decode_rune [] = (RuneError, 0)"
  by (simp add: decode_rune_def)

lemma decode_rune_ascii [simp]: "byte b < 128 \<Longrightarrow> decode_rune (b # s) = (byte b, 1)"
  by (simp add: decode_rune_def)

lemma lead_info_Some:
  assumes "lead_info x = Some (sz, lo, hi)"
  shows "sz = 2 \<and> 194 \<le> x \<and> x < 224 \<and> lo = 128 \<and> hi = 191
    \<or> sz = 3 \<and> 224 \<le> x \<and> x < 240 \<and> lo = (if x = 224 then 160 else 128) \<and> hi = (if x = 237 then 159 else 191)
    \<or> sz = 4 \<and> 240 \<le> x \<and> x < 245 \<and> lo = (if x = 240 then 144 else 128) \<and> hi = (if x = 244 then 143 else 191)"
  using assms by (auto simp: lead_info_def split: if_splits)

lemma decode_rune_width:
  assumes "s \<noteq> []"
  shows "1 \<le> snd (decode_rune s) \<and> snd (decode_rune s) \<le> length s \<and> snd (decode_rune s) \<le> 4"
proof (cases s)
  case (Cons b0 rest)
  show ?thesis
  proof (cases "byte b0 < 128 \<or> lead_info (byte b0) = None")
    case True
    with Cons show ?thesis by (auto simp: decode_rune_def)
  next
    case False
    then obtain sz lo hi where li: "lead_info (byte b0) = Some (sz, lo, hi)" by auto
    then have "sz = 2 \<or> sz = 3 \<or> sz = 4" by (auto dest: lead_info_Some)
    with False Cons li show ?thesis
      by (cases "in_range lo hi (s ! 1)"; cases "in_range 128 191 (s ! 2)";
          cases "in_range 128 191 (s ! 3)") (elim disjE; simp add: decode_rune_def Suc_le_eq)+
  qed
qed (use assms in simp)

lemma decode_rune_drop_less: "s \<noteq> [] \<Longrightarrow> length (drop (snd (decode_rune s)) s) < length s"
  using decode_rune_width [of s] by (cases s) auto

text \<open>The runes of a \<open>for range\<close> loop over a string, each with its bytes.\<close>

function rune_chunks :: "string \<Rightarrow> (nat \<times> string) list" where
  "rune_chunks s =
     (if s = [] then []
      else (let (r, n) = decode_rune s in (r, take n s) # rune_chunks (drop n s)))"
  by pat_completeness auto
termination
proof (relation "measure length")
  fix s :: string and x r n
  assume "s \<noteq> []" "x = decode_rune s" "(r, n) = x"
  then have "decode_rune s = (r, n)" by simp
  then have "n = snd (decode_rune s)" by simp
  with \<open>s \<noteq> []\<close> decode_rune_drop_less [of s] show "(drop n s, s) \<in> measure length"
    by simp
qed simp

declare rune_chunks.simps [simp del]

lemma rune_chunks_Nil [simp]: "rune_chunks [] = []"
  by (simp add: rune_chunks.simps)

lemma rune_chunks_step:
  "s \<noteq> [] \<Longrightarrow> rune_chunks s =
     (fst (decode_rune s), take (snd (decode_rune s)) s) # rune_chunks (drop (snd (decode_rune s)) s)"
  by (simp add: rune_chunks.simps [of s] split: prod.splits)

text \<open>The chunks partition the string.\<close>

lemma concat_rune_chunks: "concat (map snd (rune_chunks s)) = s"
proof (induction s rule: rune_chunks.induct)
  case (1 s)
  show ?case
  proof (cases "s = []")
    case False
    have "concat (map snd (rune_chunks (drop (snd (decode_rune s)) s))) = drop (snd (decode_rune s)) s"
      by (rule "1.IH" [OF False refl prod.collapse])
    with False show ?thesis by (simp add: rune_chunks_step [of s])
  qed simp
qed

lemma rune_chunks_ascii_Cons:
  "byte b < 128 \<Longrightarrow> rune_chunks (b # s) = (byte b, [b]) # rune_chunks s"
  by (simp add: rune_chunks_step)

definition runes :: "string \<Rightarrow> nat list" where
  "runes s = map fst (rune_chunks s)"

lemma rune_chunks_ascii:
  "list_all is_ascii s \<Longrightarrow> rune_chunks s = map (\<lambda>b. (byte b, [b])) s"
  by (induction s) (simp_all add: rune_chunks_ascii_Cons is_ascii_def)

section \<open>Round trip\<close>

lemma encode_ascii [simp]: "encode_rune (byte b) = [b]" if "byte b < 128"
  using that by (simp add: encode_rune_def valid_rune_def encode_valid_def)

text \<open>The payload bits of lead and continuation bytes.\<close>

lemma offset_mod:
  assumes "base mod k = 0" "base \<le> x" "x < base + k"
  shows "x mod k = x - (base :: nat)"
proof -
  from assms(1) obtain q where q: "base = k * q" by auto
  obtain y where y: "x = base + y" using assms(2) le_Suc_ex by blast
  with q assms(3) show ?thesis by simp
qed

lemma lead_mod:
  "194 \<le> x \<Longrightarrow> x < 224 \<Longrightarrow> x mod 32 = x - (192 :: nat)"
  "224 \<le> x \<Longrightarrow> x < 240 \<Longrightarrow> x mod 16 = x - (224 :: nat)"
  "240 \<le> x \<Longrightarrow> x < 248 \<Longrightarrow> x mod 8 = x - (240 :: nat)"
  "128 \<le> x \<Longrightarrow> x \<le> 191 \<Longrightarrow> x mod 64 = x - (128 :: nat)"
  by (rule offset_mod; simp)+

lemma decode_encode2:
  assumes "128 \<le> r" "r < 2048"
  shows "decode_rune (encode_rune r @ s) = (r, 2)"
proof -
  define a b where "a = r div 64" and "b = r mod 64"
  have r: "r = a * 64 + b" by (simp add: a_def b_def)
  have bd: "2 \<le> a" "a < 32" "b < 64"
    using assms by (simp_all add: a_def b_def less_mult_imp_div_less less_eq_div_iff_mult_less_eq)
  have m: "(192 + a) mod 32 = a" "(128 + b) mod 64 = b"
    using bd lead_mod(1) [of "192 + a"] lead_mod(4) [of "128 + b"] by simp_all
  have e: "encode_rune r = [to_byte (192 + a), to_byte (128 + b)]"
    using assms by (simp add: encode_rune_def encode_valid_def valid_rune_def a_def b_def)
  have li: "lead_info (192 + a) = Some (2, 128, 191)" using bd by (simp add: lead_info_def)
  show ?thesis
    using bd m by (auto simp: e decode_rune_def li in_range_def r [symmetric])
qed

lemma decode_encode3:
  assumes "2048 \<le> r" "r < 65536" "valid_rune r"
  shows "decode_rune (encode_rune r @ s) = (r, 3)"
proof -
  define a b c where "a = r div 4096" and "b = r div 64 mod 64" and "c = r mod 64"
  have "r div 64 div 64 = a" by (simp add: a_def div_mult2_eq [symmetric])
  with radix_join [of r 64] radix_join [of "r div 64" 64] have r: "r = a * 4096 + b * 64 + c"
    unfolding b_def c_def by linarith
  have bd: "a < 16" "b < 64" "c < 64"
    using assms by (simp_all add: a_def b_def c_def less_mult_imp_div_less)
  have lo: "a = 0 \<longrightarrow> 32 \<le> b" using assms r bd by auto
  have hi: "a = 13 \<longrightarrow> b < 32" using assms r bd by (auto simp: valid_rune_def)
  have m: "(224 + a) mod 16 = a" "(128 + b) mod 64 = b" "(128 + c) mod 64 = c"
    using bd lead_mod(2) [of "224 + a"] lead_mod(4) [of "128 + b"] lead_mod(4) [of "128 + c"] by simp_all
  have e: "encode_rune r = [to_byte (224 + a), to_byte (128 + b), to_byte (128 + c)]"
    using assms by (simp add: encode_rune_def encode_valid_def a_def b_def c_def)
  have li: "lead_info (224 + a) = Some (3, if a = 0 then 160 else 128, if a = 13 then 159 else 191)"
    using bd by (auto simp: lead_info_def)
  show ?thesis
    using bd lo hi m by (auto simp: e decode_rune_def li in_range_def r [symmetric])
qed

lemma decode_encode4:
  assumes "65536 \<le> r" "r \<le> 1114111"
  shows "decode_rune (encode_rune r @ s) = (r, 4)"
proof -
  define a b c d where "a = r div 262144" and "b = r div 4096 mod 64" and "c = r div 64 mod 64"
    and "d = r mod 64"
  have "r div 64 div 64 = r div 4096" "r div 4096 div 64 = a"
    by (simp_all add: a_def div_mult2_eq [symmetric])
  with radix_join [of r 64] radix_join [of "r div 64" 64] radix_join [of "r div 4096" 64]
  have r: "r = a * 262144 + b * 4096 + c * 64 + d"
    unfolding b_def c_def d_def by linarith
  have bd: "a < 5" "b < 64" "c < 64" "d < 64"
    using assms by (simp_all add: a_def b_def c_def d_def less_mult_imp_div_less)
  have lo: "a = 0 \<longrightarrow> 16 \<le> b" using assms r bd by auto
  have hi: "a = 4 \<longrightarrow> b < 16" using assms r bd by auto
  have m: "(240 + a) mod 8 = a" "(128 + b) mod 64 = b" "(128 + c) mod 64 = c" "(128 + d) mod 64 = d"
    using bd lead_mod(3) [of "240 + a"] lead_mod(4) [of "128 + b"] lead_mod(4) [of "128 + c"]
      lead_mod(4) [of "128 + d"] by simp_all
  have e: "encode_rune r = [to_byte (240 + a), to_byte (128 + b), to_byte (128 + c), to_byte (128 + d)]"
    using assms by (simp add: encode_rune_def encode_valid_def valid_rune_def a_def b_def c_def d_def)
  have li: "lead_info (240 + a) = Some (4, if a = 0 then 144 else 128, if a = 4 then 143 else 191)"
    using bd by (auto simp: lead_info_def)
  show ?thesis
    using bd lo hi m by (auto simp: e decode_rune_def li in_range_def r [symmetric])
qed

text \<open>Decoding undoes encoding, whatever follows.\<close>

lemma length_encode_rune:
  "length (encode_rune r) = (if r < 128 then 1 else if r < 2048 then 2
     else if r < 65536 \<or> \<not> valid_rune r then 3 else 4)"
  by (auto simp: encode_rune_def encode_valid_def valid_rune_def RuneError_def)

lemma decode_encode:
  assumes "valid_rune r"
  shows "decode_rune (encode_rune r @ s) = (r, length (encode_rune r))"
proof -
  consider "r < 128" | "128 \<le> r" "r < 2048" | "2048 \<le> r" "r < 65536" | "65536 \<le> r" "r \<le> 1114111"
    using assms unfolding valid_rune_def by linarith
  then show ?thesis
  proof cases
    case 1
    then show ?thesis
      by (simp add: encode_rune_def valid_rune_def encode_valid_def)
  qed (use assms in \<open>auto simp: decode_encode2 decode_encode3 decode_encode4 length_encode_rune\<close>)
qed

text \<open>
  The three multi-byte shapes, with the ranges the acceptance table guarantees: a well-formed
  chunk is the encoding of its rune.
\<close>

lemma encode_shape2:
  assumes "2 \<le> a" "a < 32" "b < 64"
  shows "encode_rune (a * 64 + b) = [to_byte (192 + a), to_byte (128 + b)]"
proof -
  have "128 \<le> a * 64 + b" "a * 64 + b < 2048" using assms by auto
  then show ?thesis using assms by (simp add: encode_rune_def valid_rune_def encode_valid_def)
qed

lemma encode_shape3:
  assumes "a < 16" "b < 64" "c < 64" "a = 0 \<longrightarrow> 32 \<le> b" "a = 13 \<longrightarrow> b < 32"
  shows "encode_rune (a * 4096 + b * 64 + c) = [to_byte (224 + a), to_byte (128 + b), to_byte (128 + c)]"
proof -
  let ?r = "a * 4096 + b * 64 + c"
  have lt: "2048 \<le> ?r" "?r < 65536" using assms by (cases "a = 0"; auto)+
  have v: "valid_rune ?r"
    using assms by (cases "a < 13"; cases "a = 13") (auto simp: valid_rune_def)
  have d: "?r div 4096 = a" "?r div 64 mod 64 = b" "?r mod 64 = c"
    using assms radix_split [of "b * 64 + c" 4096 a] radix_split [of c 64 "a * 64 + b"]
      radix_split [of b 64 a] by (simp_all add: algebra_simps)
  from lt v d show ?thesis by (simp add: encode_rune_def encode_valid_def)
qed

lemma encode_shape4:
  assumes "a < 5" "b < 64" "c < 64" "d < 64" "a = 0 \<longrightarrow> 16 \<le> b" "a = 4 \<longrightarrow> b < 16"
  shows "encode_rune (a * 262144 + b * 4096 + c * 64 + d)
      = [to_byte (240 + a), to_byte (128 + b), to_byte (128 + c), to_byte (128 + d)]"
proof -
  let ?r = "a * 262144 + b * 4096 + c * 64 + d"
  have lt: "65536 \<le> ?r" "?r \<le> 1114111" using assms by (cases "a = 0"; cases "a = 4"; auto)+
  then have v: "valid_rune ?r" by (simp add: valid_rune_def)
  have e: "?r div 262144 = a" "?r div 4096 mod 64 = b" "?r div 64 mod 64 = c" "?r mod 64 = d"
    using assms radix_split [of "b * 4096 + c * 64 + d" 262144 a]
      radix_split [of "c * 64 + d" 4096 "a * 64 + b"] radix_split [of d 64 "a * 4096 + b * 64 + c"]
      radix_split [of b 64 a] radix_split [of c 64 "a * 64 + b"] by (simp_all add: algebra_simps)
  from lt v e show ?thesis by (simp add: encode_rune_def encode_valid_def)
qed

lemma take_bytes:
  "2 \<le> length s \<Longrightarrow> take 2 s = [s ! 0, s ! 1]"
  "3 \<le> length s \<Longrightarrow> take 3 s = [s ! 0, s ! 1, s ! 2]"
  "4 \<le> length s \<Longrightarrow> take 4 s = [s ! 0, s ! 1, s ! 2, s ! 3]"
  by (auto simp: list_eq_iff_nth_eq less_Suc_eq numeral_eq_Suc)

lemma cont_byte: "in_range 128 191 c \<Longrightarrow> byte c mod 64 < 64 \<and> to_byte (128 + byte c mod 64) = c"
  using lead_mod(4) [of "byte c"] by (auto simp: in_range_def)

text \<open>What a well-formed first chunk looks like.\<close>

lemma decode_rune_multi:
  assumes "decode_rune s = (r, n)" "1 < n"
  obtains sz lo hi where "lead_info (byte (s ! 0)) = Some (sz, lo, hi)" "n = sz" "n \<le> length s"
    "in_range lo hi (s ! 1)" "2 < n \<longrightarrow> in_range 128 191 (s ! 2)" "3 < n \<longrightarrow> in_range 128 191 (s ! 3)"
proof -
  obtain b t where s: "s = b # t" using assms by (cases s) auto
  have "\<not> byte b < 128" using assms s by auto
  moreover obtain sz lo hi where li: "lead_info (byte b) = Some (sz, lo, hi)"
    using assms s calculation by (cases "lead_info (byte b)") (auto simp: decode_rune_def)
  moreover have sz: "sz = 2 \<or> sz = 3 \<or> sz = 4" using lead_info_Some [OF li] by auto
  moreover have "in_range lo hi (s ! 1)" "sz \<le> length s"
    using assms s calculation by (auto simp: decode_rune_def split: if_splits)
  ultimately show thesis
    using assms s by (intro that [of sz lo hi]) (auto simp: decode_rune_def split: if_splits)
qed

lemma cont_range: "in_range lo hi c \<Longrightarrow> 128 \<le> lo \<Longrightarrow> hi \<le> 191 \<Longrightarrow> in_range 128 191 c"
  by (auto simp: in_range_def)

lemma encode_decode:
  assumes d: "decode_rune s = (r, n)" and n: "1 < n"
  shows "encode_rune r = take n s"
  using d n
proof (cases rule: decode_rune_multi)
  case (1 sz lo hi)
  obtain b t where s: "s = b # t" using d n by (cases s) auto
  note li = lead_info_Some [OF 1(1)]
  have nb: "\<not> byte b < 128" using d n s by auto
  have c1: "in_range 128 191 (s ! 1)" using cont_range [OF 1(4)] li by (auto split: if_splits)
  note k1 = cont_byte [OF c1] lead_mod(4) [of "byte (s ! 1)"] c1 [unfolded in_range_def]
  consider "sz = 2" | "sz = 3" | "sz = 4" using li by auto
  then show ?thesis
  proof cases
    case 1
    with \<open>n = sz\<close> d s nb \<open>n \<le> length s\<close> \<open>in_range lo hi (s ! 1)\<close> \<open>lead_info _ = _\<close>
    have r: "r = byte b mod 32 * 64 + byte (s ! 1) mod 64"
      by (auto simp: decode_rune_def split: if_splits)
    have "194 \<le> byte b" "byte b < 224" using li 1 s by auto
    then show ?thesis
      using encode_shape2 [of "byte b mod 32" "byte (s ! 1) mod 64"] k1 lead_mod(1) [of "byte b"]
        take_bytes(1) [of s] \<open>n = sz\<close> \<open>n \<le> length s\<close> 1 s r by simp
  next
    case 2
    then have c2: "in_range 128 191 (s ! 2)" using \<open>n = sz\<close> \<open>2 < n \<longrightarrow> in_range 128 191 (s ! 2)\<close> by simp
    with 2 \<open>n = sz\<close> d s nb \<open>n \<le> length s\<close> \<open>in_range lo hi (s ! 1)\<close> \<open>lead_info _ = _\<close>
    have r: "r = byte b mod 16 * 4096 + byte (s ! 1) mod 64 * 64 + byte (s ! 2) mod 64"
      by (simp add: decode_rune_def)
    have l: "224 \<le> byte b" "byte b < 240" "byte b = 224 \<longrightarrow> lo = 160" "byte b = 237 \<longrightarrow> hi = 159"
      using li 2 s by auto
    have m: "byte b mod 16 = byte b - 224" "byte (s ! 1) mod 64 = byte (s ! 1) - 128"
      using lead_mod(2) [of "byte b"] l k1 by auto
    have e: "byte b mod 16 = 0 \<longrightarrow> 32 \<le> byte (s ! 1) mod 64" "byte b mod 16 = 13 \<longrightarrow> byte (s ! 1) mod 64 < 32"
      using m l \<open>in_range lo hi (s ! 1)\<close> by (auto simp: in_range_def)
    have "encode_rune r = [to_byte (224 + byte b mod 16), s ! 1, s ! 2]"
      using encode_shape3 [OF _ _ _ e, of "byte (s ! 2) mod 64"] cont_byte [OF c1] cont_byte [OF c2] r by simp
    with m l take_bytes(2) [of s] \<open>n = sz\<close> \<open>n \<le> length s\<close> 2 s show ?thesis by simp
  next
    case 3
    then have c: "in_range 128 191 (s ! 2)" "in_range 128 191 (s ! 3)"
      using \<open>n = sz\<close> \<open>2 < n \<longrightarrow> in_range 128 191 (s ! 2)\<close> \<open>3 < n \<longrightarrow> in_range 128 191 (s ! 3)\<close> by simp_all
    with 3 \<open>n = sz\<close> d s nb \<open>n \<le> length s\<close> \<open>in_range lo hi (s ! 1)\<close> \<open>lead_info _ = _\<close>
    have r: "r = byte b mod 8 * 262144 + byte (s ! 1) mod 64 * 4096 + byte (s ! 2) mod 64 * 64 + byte (s ! 3) mod 64"
      by (simp add: decode_rune_def)
    have l: "240 \<le> byte b" "byte b < 245" "byte b = 240 \<longrightarrow> lo = 144" "byte b = 244 \<longrightarrow> hi = 143"
      using li 3 s by auto
    have m: "byte b mod 8 = byte b - 240" "byte (s ! 1) mod 64 = byte (s ! 1) - 128"
      using lead_mod(3) [of "byte b"] l k1 by auto
    have e: "byte b mod 8 = 0 \<longrightarrow> 16 \<le> byte (s ! 1) mod 64" "byte b mod 8 = 4 \<longrightarrow> byte (s ! 1) mod 64 < 16"
      using m l \<open>in_range lo hi (s ! 1)\<close> by (auto simp: in_range_def)
    have "encode_rune r = [to_byte (240 + byte b mod 8), s ! 1, s ! 2, s ! 3]"
      using encode_shape4 [OF _ _ _ _ e, of "byte (s ! 2) mod 64" "byte (s ! 3) mod 64"] m l
        cont_byte [OF c1] cont_byte [OF c(1)] cont_byte [OF c(2)] r by simp
    with m l take_bytes(3) [of s] \<open>n = sz\<close> \<open>n \<le> length s\<close> 3 s show ?thesis by simp
  qed
qed

section \<open>Validity\<close>

text \<open>\<open>utf8.ValidString\<close>: no malformed byte.\<close>

function valid_string :: "string \<Rightarrow> bool" where
  "valid_string s =
     (if s = [] then True
      else (let (r, n) = decode_rune s in
        if r = RuneError \<and> n = 1 then False else valid_string (drop n s)))"
  by pat_completeness auto
termination
proof (relation "measure length")
  fix s :: string and x r n
  assume "s \<noteq> []" "x = decode_rune s" "(r, n) = x"
  then have "decode_rune s = (r, n)" by simp
  then have "n = snd (decode_rune s)" by simp
  with \<open>s \<noteq> []\<close> decode_rune_drop_less [of s] show "(drop n s, s) \<in> measure length"
    by simp
qed simp

declare valid_string.simps [simp del]

section \<open>Package unicode\<close>

text \<open>\<open>unicode.IsSpace\<close>: the ASCII and Latin-1 spaces and the White\_Space property.\<close>

definition unicode_is_space :: "nat \<Rightarrow> bool" where
  "unicode_is_space r =
     (9 \<le> r \<and> r \<le> 13 \<or> r = 32 \<or> r = 133 \<or> r = 160 \<or> r = 5760 \<or> 8192 \<le> r \<and> r \<le> 8202
      \<or> r = 8232 \<or> r = 8233 \<or> r = 8239 \<or> r = 8287 \<or> r = 12288)"

text \<open>For evaluation: ASCII is decided without a look at the other ranges.\<close>

lemma unicode_is_space_code [code]:
  "unicode_is_space r =
     (if r < 128 then 9 \<le> r \<and> r \<le> 13 \<or> r = 32
      else r = 133 \<or> r = 160 \<or> r = 5760 \<or> 8192 \<le> r \<and> r \<le> 8202
        \<or> r = 8232 \<or> r = 8233 \<or> r = 8239 \<or> r = 8287 \<or> r = 12288)"
  by (auto simp: unicode_is_space_def)

lemma unicode_is_space_ascii: "r < 128 \<Longrightarrow> unicode_is_space r = (9 \<le> r \<and> r \<le> 13 \<or> r = 32)"
  by (simp add: unicode_is_space_code)

text \<open>
  \<open>strings.ToLower\<close> and \<open>strings.ToUpper\<close>. The parameter is the case table: the image of
  a code point from 128 on. ASCII strings do not consult it; other strings are mapped rune by
  rune, and every malformed byte becomes \<open>RuneError\<close>.
\<close>

type_synonym case_table = "nat \<Rightarrow> nat"

definition lower_rune :: "case_table \<Rightarrow> nat \<Rightarrow> nat" where
  "lower_rune ct r = (if r < 128 then byte (lower_byte (to_byte r)) else ct r)"

definition upper_rune :: "case_table \<Rightarrow> nat \<Rightarrow> nat" where
  "upper_rune ct r = (if r < 128 then byte (upper_byte (to_byte r)) else ct r)"

definition to_lower :: "case_table \<Rightarrow> string \<Rightarrow> string" where
  "to_lower ct s =
     (if list_all is_ascii s then map lower_byte s
      else concat (map (\<lambda>r. encode_rune (lower_rune ct r)) (runes s)))"

definition to_upper :: "case_table \<Rightarrow> string \<Rightarrow> string" where
  "to_upper ct s =
     (if list_all is_ascii s then map upper_byte s
      else concat (map (\<lambda>r. encode_rune (upper_rune ct r)) (runes s)))"

lemma to_lower_ascii: "list_all is_ascii s \<Longrightarrow> to_lower ct s = map lower_byte s"
  by (simp add: to_lower_def)

lemma to_lower_ascii_idem:
  "list_all is_ascii s \<Longrightarrow> to_lower ct (to_lower ct s) = to_lower ct s"
  by (simp add: to_lower_def list.pred_set comp_def)

lemma to_lower_Nil [simp]: "to_lower ct [] = []"
  by (simp add: to_lower_def)

text \<open>
  Both branches are the same rune-wise map: the ASCII branch is a shortcut.
\<close>

lemma to_lower_runes:
  "to_lower ct s = concat (map (\<lambda>r. encode_rune (lower_rune ct r)) (runes s))"
proof (cases "list_all is_ascii s")
  case True
  have "encode_rune (lower_rune ct (byte b)) = [lower_byte b]" if "is_ascii b" for b
    using that encode_ascii [of "lower_byte b"]
    by (simp add: lower_rune_def is_ascii_def byte_lower_byte byte_is_upper)
  with True show ?thesis
    by (induction s)
      (simp_all add: to_lower_def runes_def rune_chunks_ascii_Cons is_ascii_def)
qed (simp add: to_lower_def)

text \<open>\<open>strings.TrimSpace\<close>: leading and trailing runes that are white space.\<close>

definition trim_space_left :: "string \<Rightarrow> string" where
  "trim_space_left s =
     concat (map snd (dropWhile (\<lambda>p. unicode_is_space (fst p)) (rune_chunks s)))"

definition trim_space :: "string \<Rightarrow> string" where
  "trim_space s =
     concat (map snd (rev (dropWhile (\<lambda>p. unicode_is_space (fst p))
       (rev (dropWhile (\<lambda>p. unicode_is_space (fst p)) (rune_chunks s))))))"

lemma trim_space_Nil [simp]: "trim_space [] = []"
  by (simp add: trim_space_def)

end
