(* ===== verification/Strings_Util.thy ===== *)
theory Strings_Util
  imports Utf8
begin

text \<open>
  The string helpers the other components call: \<open>internal/strings/strings.go\<close>,
  \<open>internal/url/url.go\<close> (query strings) and \<open>internal/cookies/cookies.go\<close>. A
  \<open>map[string][]string\<close> is an association list; the lemmas describe it by what
  \<open>alist_get\<close> returns, so they do not depend on its order.
\<close>

unbundle bit_operations_syntax

section \<open>internal/strings\<close>

definition letterBytes :: string where
  "letterBytes = ''abcdefghijklmnopqrstuvwxyzABCDEFGHIJKLMNOPQRSTUVWXYZ''"

text \<open>
  \<open>RandomString\<close>: the letters come from six-bit groups of the draws of the random source;
  a group that is no letter index is skipped. The draws still to come are the list
  \<open>src\<close>; running out of them is \<open>None\<close>.
\<close>

function random_loop :: "nat \<Rightarrow> nat \<Rightarrow> nat \<Rightarrow> nat list \<Rightarrow> string option" where
  "random_loop i cache remain src =
     (if i = 0 then Some []
      else if remain = 0 then
        (case src of [] \<Rightarrow> None | c # cs \<Rightarrow> random_loop i c 10 cs)
      else if cache mod 64 < length letterBytes then
        map_option (\<lambda>s. letterBytes ! (cache mod 64) # s)
          (random_loop (i - 1) (cache div 64) (remain - 1) src)
      else random_loop i (cache div 64) (remain - 1) src)"
  by pat_completeness auto
termination
  by (relation "measures [\<lambda>(i, c, r, src). length src, \<lambda>(i, c, r, src). r]") auto

declare random_loop.simps [simp del]

definition RandomString :: "nat \<Rightarrow> nat list \<Rightarrow> string option" where
  "RandomString n src = (case src of [] \<Rightarrow> None | c # cs \<Rightarrow> random_loop n c 10 cs)"

definition ValidHex :: "char \<Rightarrow> bool" where
  "ValidHex x = ((CHR ''0'' \<le> x \<and> x \<le> CHR ''9'') \<or> (CHR ''a'' \<le> x \<and> x \<le> CHR ''f'')
                 \<or> (CHR ''A'' \<le> x \<and> x \<le> CHR ''F''))"

text \<open>\<open>X2c\<close> on the two bytes it reads; \<open>byte\<close> arithmetic wraps at 256.\<close>

definition x2c_digit :: "char \<Rightarrow> nat" where
  "x2c_digit c =
     (if CHR ''A'' \<le> c then ((byte c AND 223) + (256 - 65) + 10) mod 256
      else (byte c + (256 - 48)) mod 256)"

definition X2c :: "char \<Rightarrow> char \<Rightarrow> char" where
  "X2c c d = to_byte ((x2c_digit c * 16 + x2c_digit d) mod 256)"

definition MaybeRemoveQuotes :: "string \<Rightarrow> string" where
  "MaybeRemoveQuotes s =
     (if length s < 2 then s
      else if s ! 0 = CHR 34 then
        (if s ! (length s - 1) \<noteq> CHR 34 then s else take (length s - 2) (drop 1 s))
      else if s ! 0 = CHR 39 then
        (if s ! (length s - 1) \<noteq> CHR 39 then s else take (length s - 2) (drop 1 s))
      else s)"

fun unescape_loop :: "string \<Rightarrow> string" where
  "unescape_loop [] = []"
| "unescape_loop [c] = [c]"
| "unescape_loop (c # d # s) =
     (if c = CHR 92 \<and> d = CHR 34 then CHR 34 # unescape_loop s
      else c # unescape_loop (d # s))"

definition UnescapeQuotedString :: "string \<Rightarrow> string" where
  "UnescapeQuotedString s = (if CHR 92 \<notin> set s then s else unescape_loop s)"

definition InSlice :: "string \<Rightarrow> string list \<Rightarrow> bool" where
  "InSlice a xs = list_ex (\<lambda>b. b = a) xs"

definition HasRegex :: "string \<Rightarrow> bool \<times> string" where
  "HasRegex s =
     (if length s < 2 \<or> s ! 0 \<noteq> CHR ''/'' then (False, s)
      else let lastIdx = length s - 1 in
        if s ! lastIdx \<noteq> CHR ''/'' then (False, s)
        else if lastIdx = 1 then (True, [])
        else if length (takeWhile (\<lambda>c. c = CHR 92) (rev (take lastIdx s))) mod 2 = 0
        then (True, drop 1 (take lastIdx s))
        else (False, s))"

section \<open>internal/url\<close>

definition hexDigitToByte :: "char \<Rightarrow> nat \<times> bool" where
  "hexDigitToByte digit =
     (if CHR ''0'' \<le> digit \<and> digit \<le> CHR ''9'' then (byte digit - 48, True)
      else if CHR ''a'' \<le> digit \<and> digit \<le> CHR ''f'' then (byte digit - 97 + 10, True)
      else if CHR ''A'' \<le> digit \<and> digit \<le> CHR ''F'' then (byte digit - 65 + 10, True)
      else (0, False))"

text \<open>The loop of \<open>queryUnescape\<close> from an index on: the rest of the input.\<close>

fun query_unescape_loop :: "string \<Rightarrow> string" where
  "query_unescape_loop [] = []"
| "query_unescape_loop (c # s) =
     (if c = CHR ''+'' then CHR '' '' # query_unescape_loop s
      else if c = CHR ''%'' then
        (case s of
           h # l # s' \<Rightarrow>
             (case hexDigitToByte h of (hi, ok1) \<Rightarrow>
                if \<not> ok1 then c # query_unescape_loop s
                else (case hexDigitToByte l of (lo, ok2) \<Rightarrow>
                  if \<not> ok2 then c # query_unescape_loop s
                  else to_byte (hi * 16 + lo) # query_unescape_loop s'))
         | _ \<Rightarrow> c # query_unescape_loop s)
      else c # query_unescape_loop s)"

fun index_any :: "string \<Rightarrow> char list \<Rightarrow> nat option" where
  "index_any [] cs = None"
| "index_any (x # xs) cs = (if x \<in> set cs then Some 0 else map_option Suc (index_any xs cs))"

definition queryUnescape :: "string \<Rightarrow> string" where
  "queryUnescape input =
     (case index_any input ''%+'' of
        None \<Rightarrow> input
      | Some start \<Rightarrow> take start input @ query_unescape_loop (drop start input))"

type_synonym values_map = "(string \<times> string list) list"

text \<open>\<open>m[key] = append(m[key], value)\<close>; a missing key reads as the nil slice.\<close>

definition map_get_list :: "values_map \<Rightarrow> string \<Rightarrow> string list" where
  "map_get_list m k = (case alist_get m k of None \<Rightarrow> [] | Some vs \<Rightarrow> vs)"

definition map_append :: "string \<Rightarrow> string \<Rightarrow> values_map \<Rightarrow> values_map" where
  "map_append k v m = alist_put k (map_get_list m k @ [v]) m"

text \<open>One segment of a query: its key and its value, or none for an empty segment.\<close>

definition query_pair :: "bool \<Rightarrow> string \<Rightarrow> (string \<times> string) option" where
  "query_pair urlUnescape key =
     (if key = [] then None
      else let (k, v) = (case index_byte key (CHR ''='') of
                 Some i \<Rightarrow> (take i key, drop (Suc i) key) | None \<Rightarrow> (key, []))
           in if urlUnescape then Some (queryUnescape k, queryUnescape v) else Some (k, v))"

function parse_query_loop :: "string \<Rightarrow> char \<Rightarrow> bool \<Rightarrow> values_map \<Rightarrow> values_map" where
  "parse_query_loop query sep u m =
     (if query = [] then m
      else case index_byte query sep of
        Some i \<Rightarrow>
          parse_query_loop (drop (Suc i) query) sep u
            (case query_pair u (take i query) of None \<Rightarrow> m | Some (k, v) \<Rightarrow> map_append k v m)
      | None \<Rightarrow> (case query_pair u query of None \<Rightarrow> m | Some (k, v) \<Rightarrow> map_append k v m))"
  by pat_completeness auto
termination
  by (relation "measure (\<lambda>(q, _). length q)") auto

declare parse_query_loop.simps [simp del]

definition doParseQuery :: "string \<Rightarrow> char \<Rightarrow> bool \<Rightarrow> values_map" where
  "doParseQuery query separator urlUnescape = parse_query_loop query separator urlUnescape []"

definition ParseQuery :: "string \<Rightarrow> char \<Rightarrow> values_map" where
  "ParseQuery query separator = doParseQuery query separator True"

section \<open>internal/cookies\<close>

text \<open>\<open>textproto.TrimString\<close>: leading and trailing ASCII space.\<close>

definition trim_string :: "string \<Rightarrow> string" where
  "trim_string s = trim_set [CHR '' '', CHR 9, CHR 10, CHR 13] s"

definition cookie_pair :: "string \<Rightarrow> (string \<times> string) option" where
  "cookie_pair part0 =
     (let part = trim_string part0 in
      if part = [] then None
      else let (name0, val, _) = cut part (CHR ''='');
               name = trim_string name0
           in if name = [] then None else Some (name, val))"

function parse_cookies_loop :: "string \<Rightarrow> values_map \<Rightarrow> values_map" where
  "parse_cookies_loop raw m =
     (if raw = [] then m
      else case cut raw (CHR '';'') of (part, rest, _) \<Rightarrow>
        parse_cookies_loop rest
          (case cookie_pair part of None \<Rightarrow> m | Some (k, v) \<Rightarrow> map_append k v m))"
  by pat_completeness auto
termination
  by (relation "measure (\<lambda>(q, _). length q)") (simp, simp, metis length_cut_after)

declare parse_cookies_loop.simps [simp del]

definition ParseCookies :: "string \<Rightarrow> values_map" where
  "ParseCookies rawCookies =
     (let raw = trim_string rawCookies in if raw = [] then [] else parse_cookies_loop raw [])"


section \<open>Random identifiers\<close>

lemma random_loop_step:
  "random_loop 0 cache remain src = Some []"
  "i \<noteq> 0 \<Longrightarrow> random_loop i cache 0 [] = None"
  "i \<noteq> 0 \<Longrightarrow> random_loop i cache 0 (c # cs) = random_loop i c 10 cs"
  "i \<noteq> 0 \<Longrightarrow> remain \<noteq> 0 \<Longrightarrow> cache mod 64 < length letterBytes \<Longrightarrow>
     random_loop i cache remain src =
       map_option (\<lambda>s. letterBytes ! (cache mod 64) # s)
         (random_loop (i - 1) (cache div 64) (remain - 1) src)"
  "i \<noteq> 0 \<Longrightarrow> remain \<noteq> 0 \<Longrightarrow> \<not> cache mod 64 < length letterBytes \<Longrightarrow>
     random_loop i cache remain src = random_loop i (cache div 64) (remain - 1) src"
  using random_loop.simps [of 0 cache remain src] random_loop.simps [of i cache 0 "[]"]
    random_loop.simps [of i cache 0 "c # cs"] random_loop.simps [of i cache remain src]
  by simp_all

lemma random_loop_shape:
  "random_loop i cache remain src = Some s \<Longrightarrow> length s = i \<and> set s \<subseteq> set letterBytes"
proof (induction i cache remain src arbitrary: s rule: random_loop.induct)
  case (1 i cache remain src)
  consider "i = 0" | "i \<noteq> 0" "remain = 0"
    | "i \<noteq> 0" "remain \<noteq> 0" "cache mod 64 < length letterBytes"
    | "i \<noteq> 0" "remain \<noteq> 0" "\<not> cache mod 64 < length letterBytes" by blast
  then show ?case
  proof cases
    case 1
    with "1.prems" show ?thesis by (simp add: random_loop_step)
  next
    case 2
    then show ?thesis
      using "1.IH"(1) [OF 2] "1.prems" random_loop_step(2,3) [OF 2(1)]
      by (cases src) simp_all
  next
    case 3
    with "1.prems" obtain t where "random_loop (i - 1) (cache div 64) (remain - 1) src = Some t"
      and "s = letterBytes ! (cache mod 64) # t" unfolding random_loop_step(4) [OF 3] by auto
    with "1.IH"(2) [OF 3] 3 show ?thesis by auto
  next
    case 4
    then show ?thesis
      using "1.IH"(3) [OF 4] "1.prems" unfolding random_loop_step(5) [OF 4] by simp
  qed
qed

text \<open>A draw whose low six bits are a letter index gives at least one letter.\<close>

lemma random_loop_progress:
  "i \<le> length src + (if remain \<noteq> 0 \<and> cache mod 64 < length letterBytes then 1 else 0) \<Longrightarrow>
     list_all (\<lambda>c. c mod 64 < length letterBytes) src \<Longrightarrow>
     random_loop i cache remain src \<noteq> None"
proof (induction i cache remain src rule: random_loop.induct)
  case (1 i cache remain src)
  consider "i = 0" | "i \<noteq> 0" "remain = 0"
    | "i \<noteq> 0" "remain \<noteq> 0" "cache mod 64 < length letterBytes"
    | "i \<noteq> 0" "remain \<noteq> 0" "\<not> cache mod 64 < length letterBytes" by blast
  then show ?case
  proof cases
    case 1
    then show ?thesis by (simp add: random_loop_step)
  next
    case 2
    then show ?thesis
      using "1.IH"(1) [OF 2] "1.prems" random_loop_step(2,3) [OF 2(1)]
      by (cases src) simp_all
  next
    case 3
    then show ?thesis
      using "1.IH"(2) [OF 3] "1.prems" unfolding random_loop_step(4) [OF 3] by simp
  next
    case 4
    then show ?thesis
      using "1.IH"(3) [OF 4] "1.prems" unfolding random_loop_step(5) [OF 4] by simp
  qed
qed

section \<open>Hexadecimal digits\<close>

abbreviation hex_val :: "char \<Rightarrow> nat" where
  "hex_val c \<equiv> fst (hexDigitToByte c)"

lemma hexDigit_ok: "snd (hexDigitToByte c) \<longleftrightarrow> ValidHex c"
  by (auto simp: hexDigitToByte_def ValidHex_def)

lemma hex_val_less: "hex_val c < 16"
  by (auto simp: hexDigitToByte_def char_le_byte)

lemma ValidHex_byte:
  "ValidHex c \<longleftrightarrow> byte c \<in> {48..57} \<union> {65..70} \<union> {97..102}"
  by (auto simp: ValidHex_def char_le_byte)

lemma hex_letter_mask:
  "k < 6 \<Longrightarrow> (65 + k) AND 223 = (65 + k :: nat)"
  "k < 6 \<Longrightarrow> (97 + k) AND 223 = (65 + k :: nat)"
proof -
  have "\<forall>k \<in> set [0, 1, 2, 3, 4, 5]. (65 + k) AND 223 = (65 + k :: nat) \<and> (97 + k) AND 223 = (65 + k :: nat)"
    by simp
  moreover have "[0, 1, 2, 3, 4, 5] = [0..<6]" by (simp add: upt_rec)
  ultimately have "\<forall>k \<in> set [0..<6]. (65 + k) AND 223 = (65 + k :: nat) \<and> (97 + k) AND 223 = (65 + k :: nat)"
    by metis
  then show "k < 6 \<Longrightarrow> (65 + k) AND 223 = 65 + k" "k < 6 \<Longrightarrow> (97 + k) AND 223 = 65 + k"
    by simp_all
qed

lemma x2c_digit_hex_val:
  assumes "ValidHex c"
  shows "x2c_digit c = hex_val c"
proof -
  from assms consider k where "byte c = 48 + k" "k < 10"
    | k where "byte c = 65 + k" "k < 6" | k where "byte c = 97 + k" "k < 6"
    unfolding ValidHex_byte by (auto simp: nat_le_iff_add)
  moreover have "(266 + k) mod 256 = k + 10" if "k < 6" for k :: nat
    using that by (simp add: mod_if)
  ultimately show ?thesis
    by cases (auto simp: x2c_digit_def hexDigitToByte_def char_le_byte hex_letter_mask)
qed

text \<open>The two hexadecimal decoders of the code base agree on hexadecimal digits.\<close>

lemma X2c_hex:
  "ValidHex c \<Longrightarrow> ValidHex d \<Longrightarrow> X2c c d = to_byte (hex_val c * 16 + hex_val d)"
  using hex_val_less [of c] hex_val_less [of d] by (simp add: X2c_def x2c_digit_hex_val)

section \<open>Quoted strings\<close>

text \<open>The escaping that \<open>UnescapeQuotedString\<close> undoes.\<close>

fun escape_quotes :: "string \<Rightarrow> string" where
  "escape_quotes [] = []"
| "escape_quotes (c # s) = (if c = CHR 34 then CHR 92 # CHR 34 # escape_quotes s else c # escape_quotes s)"

lemma unescape_loop_Cons:
  "\<not> (c = CHR 92 \<and> s \<noteq> [] \<and> hd s = CHR 34) \<Longrightarrow> unescape_loop (c # s) = c # unescape_loop s"
  by (cases s) auto

lemma hd_escape_quotes: "escape_quotes s \<noteq> [] \<Longrightarrow> hd (escape_quotes s) \<noteq> CHR 34"
  by (cases s) auto

lemma unescape_escape_loop: "unescape_loop (escape_quotes s) = s"
proof (induction s)
  case (Cons c s)
  then show ?case
    using hd_escape_quotes [of s] by (cases "escape_quotes s = []") (auto simp: unescape_loop_Cons)
qed simp

lemma unescape_loop_no_backslash: "CHR 92 \<notin> set s \<Longrightarrow> unescape_loop s = s"
  by (induction s rule: unescape_loop.induct) auto

lemma UnescapeQuotedString_loop: "UnescapeQuotedString s = unescape_loop s"
  by (simp add: UnescapeQuotedString_def unescape_loop_no_backslash)

lemma HasRegex_True:
  assumes "HasRegex s = (True, p)"
  shows "s = CHR ''/'' # p @ [CHR ''/'']"
proof (cases s rule: rev_cases)
  case (snoc t c)
  then obtain d u where t: "t = d # u"
    using assms by (cases t) (auto simp: HasRegex_def)
  with snoc assms show ?thesis
    by (cases u) (auto simp: HasRegex_def Let_def nth_append split: if_splits)
qed (use assms in \<open>simp add: HasRegex_def\<close>)

section \<open>Grouping of pairs\<close>

text \<open>What both parsers promise: every pair is appended to the values of its key.\<close>

definition group_pairs :: "(string \<times> string) list \<Rightarrow> values_map \<Rightarrow> values_map" where
  "group_pairs ps m = fold (\<lambda>(k, v). map_append k v) ps m"

lemma map_get_list_append [simp]:
  "map_get_list (map_append k v m) k' = (if k' = k then map_get_list m k @ [v] else map_get_list m k')"
  by (simp add: map_append_def map_get_list_def)

lemma map_get_list_group:
  "map_get_list (group_pairs ps m) k = map_get_list m k @ map snd (filter (\<lambda>p. fst p = k) ps)"
  by (induction ps arbitrary: m) (auto simp: group_pairs_def)

lemma alist_ok_map_append [simp]: "alist_ok m \<Longrightarrow> alist_ok (map_append k v m)"
  by (simp add: map_append_def)

lemma alist_ok_group_pairs: "alist_ok m \<Longrightarrow> alist_ok (group_pairs ps m)"
  by (induction ps arbitrary: m) (auto simp: group_pairs_def)

section \<open>Query strings\<close>

lemma index_any_Some:
  "index_any s cs = Some i \<Longrightarrow> i < length s \<and> set (take i s) \<inter> set cs = {}"
  by (induction s arbitrary: i) (auto split: if_splits)

lemma index_any_None: "index_any s cs = None \<longleftrightarrow> set s \<inter> set cs = {}"
  by (induction s) auto

lemma query_unescape_plain:
  "set a \<inter> {CHR ''%'', CHR ''+''} = {} \<Longrightarrow> query_unescape_loop (a @ b) = a @ query_unescape_loop b"
  by (induction a) auto

text \<open>Skipping the plain prefix is only a shortcut.\<close>

lemma queryUnescape_loop: "queryUnescape input = query_unescape_loop input"
proof (cases "index_any input ''%+''")
  case None
  then have "set input \<inter> {CHR ''%'', CHR ''+''} = {}" using index_any_None [of input "''%+''"] by simp
  then show ?thesis
    using query_unescape_plain [of input "[]"] None by (simp add: queryUnescape_def)
next
  case (Some i)
  then have "set (take i input) \<inter> {CHR ''%'', CHR ''+''} = {}" using index_any_Some [OF Some] by simp
  then show ?thesis
    using query_unescape_plain [of "take i input" "drop i input"] Some by (simp add: queryUnescape_def)
qed

text \<open>The encoder of a client: every byte but letters and digits as \<open>%XX\<close>, a space as \<open>+\<close>.\<close>

definition hex_digit :: "nat \<Rightarrow> char" where
  "hex_digit n = (if n < 10 then to_byte (48 + n) else to_byte (87 + n))"

definition query_escape_byte :: "char \<Rightarrow> string" where
  "query_escape_byte c =
     (if c = CHR '' '' then ''+''
      else if is_digit c \<or> is_upper c \<or> is_lower c then [c]
      else [CHR ''%'', hex_digit (byte c div 16), hex_digit (byte c mod 16)])"

definition query_escape :: "string \<Rightarrow> string" where
  "query_escape s = concat (map query_escape_byte s)"

lemma hexDigitToByte_hex_digit [simp]:
  "n < 16 \<Longrightarrow> hexDigitToByte (hex_digit n) = (n, True)"
  by (auto simp: hexDigitToByte_def hex_digit_def char_le_byte)

lemma query_unescape_escape_byte:
  "query_unescape_loop (query_escape_byte c @ s) = c # query_unescape_loop s"
proof -
  have "byte c div 16 < 16" using byte_less_256 [of c] by (simp add: less_mult_imp_div_less)
  moreover have "c \<noteq> CHR ''%''" "c \<noteq> CHR ''+''" if "is_digit c \<or> is_upper c \<or> is_lower c"
    using that by (auto simp: byte_class_defs)
  ultimately show ?thesis
    by (auto simp: query_escape_byte_def)
qed

lemma query_unescape_escape: "query_unescape_loop (query_escape s) = s"
  by (induction s) (auto simp: query_escape_def query_unescape_escape_byte)

lemma hex_digit_alnum: "n < 16 \<Longrightarrow> is_digit (hex_digit n) \<or> is_lower (hex_digit n)"
  by (auto simp: hex_digit_def byte_is_digit byte_is_lower)

lemma query_escape_chars:
  assumes "x \<in> set (query_escape s)"
  shows "is_digit x \<or> is_upper x \<or> is_lower x \<or> x = CHR ''%'' \<or> x = CHR ''+''"
proof -
  from assms obtain c where "x \<in> set (query_escape_byte c)" by (auto simp: query_escape_def)
  moreover have "byte c div 16 < 16" using byte_less_256 [of c] by (simp add: less_mult_imp_div_less)
  ultimately show ?thesis
    using hex_digit_alnum [of "byte c div 16"] hex_digit_alnum [of "byte c mod 16"]
    by (auto simp: query_escape_byte_def split: if_splits)
qed

lemma query_escape_no_sep:
  "CHR ''='' \<notin> set (query_escape s)" "CHR ''&'' \<notin> set (query_escape s)"
  using query_escape_chars [of "CHR ''=''" s] query_escape_chars [of "CHR ''&''" s]
  by (auto simp: byte_class_defs)

definition query_segment :: "string \<times> string \<Rightarrow> string" where
  "query_segment p = query_escape (fst p) @ CHR ''='' # query_escape (snd p)"

lemma query_pair_segment: "query_pair True (query_segment p) = Some p"
  by (simp add: query_pair_def query_segment_def index_byte_append query_escape_no_sep
      queryUnescape_loop query_unescape_escape)

lemma query_segment_no_sep: "CHR ''&'' \<notin> set (query_segment p)"
  by (simp add: query_segment_def query_escape_no_sep)

lemma query_segment_nonempty: "query_segment p \<noteq> []"
  by (simp add: query_segment_def)

lemma parse_query_loop_segments:
  "parse_query_loop (join_str ''&'' (map query_segment ps)) (CHR ''&'') True m = group_pairs ps m"
proof (induction ps arbitrary: m rule: induct_list012)
  case 1
  then show ?case by (simp add: parse_query_loop.simps group_pairs_def)
next
  case (2 p)
  then show ?case
    by (simp add: parse_query_loop.simps group_pairs_def query_segment_nonempty query_pair_segment
        index_byte_None [THEN iffD2] query_segment_no_sep split: prod.splits)
next
  case (3 p q ps)
  have "parse_query_loop (query_segment p @ CHR ''&'' # join_str ''&'' (map query_segment (q # ps))) (CHR ''&'') True m
    = parse_query_loop (join_str ''&'' (map query_segment (q # ps))) (CHR ''&'') True (map_append (fst p) (snd p) m)"
    by (subst parse_query_loop.simps)
      (simp add: index_byte_append query_segment_no_sep query_pair_segment split: prod.splits)
  with 3 show ?case by (simp add: group_pairs_def split_beta)
qed

section \<open>Cookies\<close>

text \<open>
  Names and values a \<open>Cookie\<close> header can carry unchanged: no separator, no surrounding
  white space, a non-empty name.
\<close>

definition cookie_ok :: "string \<times> string \<Rightarrow> bool" where
  "cookie_ok p =
     (let ws = [CHR '' '', CHR 9, CHR 10, CHR 13] in
      fst p \<noteq> [] \<and> CHR ''='' \<notin> set (fst p) \<and> CHR '';'' \<notin> set (fst p) \<and> CHR '';'' \<notin> set (snd p)
      \<and> hd (fst p) \<notin> set ws \<and> last (fst p) \<notin> set ws
      \<and> (snd p \<noteq> [] \<longrightarrow> last (snd p) \<notin> set ws))"

definition cookie_text :: "string \<times> string \<Rightarrow> string" where
  "cookie_text p = fst p @ CHR ''='' # snd p"

lemma trim_set_id:
  "s = [] \<or> hd s \<notin> set cs \<and> last s \<notin> set cs \<Longrightarrow> trim_set cs s = s"
  using dropWhile_eq_self_iff [of "\<lambda>c. c \<in> set cs" s]
    dropWhile_eq_self_iff [of "\<lambda>c. c \<in> set cs" "rev s"]
  by (auto simp: trim_set_def trim_left_set_def trim_right_set_def hd_rev)

lemma trim_set_Cons: "c \<in> set cs \<Longrightarrow> trim_set cs (c # s) = trim_set cs s"
  by (simp add: trim_set_def trim_left_set_def)

lemma trim_cookie_text: "cookie_ok p \<Longrightarrow> trim_string (cookie_text p) = cookie_text p"
  unfolding trim_string_def
  by (rule trim_set_id) (auto simp: cookie_ok_def cookie_text_def Let_def)

lemma cookie_pair_text:
  assumes "cookie_ok p"
  shows "cookie_pair (cookie_text p) = Some p" and "cookie_pair (CHR '' '' # cookie_text p) = Some p"
proof -
  have t: "trim_string (fst p) = fst p"
    using assms unfolding trim_string_def by (intro trim_set_id) (auto simp: cookie_ok_def Let_def)
  have "trim_string (CHR '' '' # cookie_text p) = cookie_text p"
    using trim_cookie_text [OF assms] by (simp add: trim_string_def trim_set_Cons)
  with t trim_cookie_text [OF assms] assms
  show "cookie_pair (cookie_text p) = Some p" "cookie_pair (CHR '' '' # cookie_text p) = Some p"
    by (auto simp: cookie_pair_def cookie_ok_def cookie_text_def Let_def)
qed

lemma parse_cookies_loop_last:
  "s \<noteq> [] \<Longrightarrow> CHR '';'' \<notin> set s \<Longrightarrow> cookie_pair s = Some p \<Longrightarrow>
     parse_cookies_loop s m = map_append (fst p) (snd p) m"
  by (subst parse_cookies_loop.simps)
    (simp add: cut_not_found parse_cookies_loop.simps [of "[]"] split: prod.splits)

lemma parse_cookies_loop_more:
  "CHR '';'' \<notin> set s \<Longrightarrow> cookie_pair s = Some p \<Longrightarrow>
     parse_cookies_loop (s @ CHR '';'' # t) m = parse_cookies_loop t (map_append (fst p) (snd p) m)"
  by (subst parse_cookies_loop.simps) (simp split: prod.splits)

lemma cookie_text_sep: "cookie_ok p \<Longrightarrow> CHR '';'' \<notin> set (cookie_text p)"
  by (auto simp: cookie_ok_def cookie_text_def Let_def)

text \<open>The tail of a header: every further cookie is preceded by \<open>"; "\<close>.\<close>

lemma parse_cookies_loop_header:
  "list_all cookie_ok ps \<Longrightarrow> ps \<noteq> [] \<Longrightarrow> lead = [] \<or> lead = '' '' \<Longrightarrow>
     parse_cookies_loop (lead @ join_str ''; '' (map cookie_text ps)) m = group_pairs ps m"
proof (induction ps arbitrary: m lead rule: induct_list012)
  case (2 p)
  then show ?case
    using parse_cookies_loop_last [of "lead @ cookie_text p" p m] cookie_pair_text [of p] cookie_text_sep [of p]
    by (auto simp: group_pairs_def cookie_text_def split_beta)
next
  case (3 p q ps)
  then show ?case
    using parse_cookies_loop_more [of "lead @ cookie_text p" p "'' '' @ join_str ''; '' (map cookie_text (q # ps))" m]
      cookie_pair_text [of p] cookie_text_sep [of p] "3.IH"(2) [of "'' ''"]
    by (auto simp: group_pairs_def split_beta)
qed simp

lemma join_cookies_ends:
  assumes "list_all cookie_ok ps" "ps \<noteq> []"
  shows "hd (join_str ''; '' (map cookie_text ps)) \<notin> {CHR '' '', CHR 9, CHR 10, CHR 13}
    \<and> last (join_str ''; '' (map cookie_text ps)) \<notin> {CHR '' '', CHR 9, CHR 10, CHR 13}"
  using assms
proof (induction ps rule: induct_list012)
  case (3 p q ps)
  have ne: "join_str ''; '' (cookie_text q # map cookie_text ps) \<noteq> []"
    by (cases ps) (auto simp: cookie_text_def)
  have "hd (cookie_text p @ s) \<notin> {CHR '' '', CHR 9, CHR 10, CHR 13}" for s
    using 3 by (auto simp: cookie_ok_def cookie_text_def Let_def)
  with 3 ne show ?case by simp
qed (auto simp: cookie_ok_def cookie_text_def Let_def)

section \<open>Properties\<close>

text \<open>
  C33: a query string made of percent-encoded \<open>key=value\<close> segments joined by \<open>&\<close> parses
  to a map in which every key has exactly its values, in the order of the segments, whatever
  bytes keys and values contain; no other key is present.
\<close>

theorem ParseQuery_roundtrip:
  "alist_ok (ParseQuery (join_str ''&'' (map query_segment ps)) (CHR ''&''))
   \<and> map_get_list (ParseQuery (join_str ''&'' (map query_segment ps)) (CHR ''&'')) k
      = map snd (filter (\<lambda>p. fst p = k) ps)"
  unfolding ParseQuery_def doParseQuery_def parse_query_loop_segments
  by (simp add: alist_ok_group_pairs map_get_list_group) (simp add: map_get_list_def)

text \<open>
  a \<open>Cookie\<close> header made of well-formed \<open>name=value\<close> pairs joined by \<open>"; "\<close>
  parses to a map in which every name has exactly its values in order, repeated names
  included.
\<close>

theorem ParseCookies_roundtrip:
  assumes "list_all cookie_ok ps"
  shows "map_get_list (ParseCookies (join_str ''; '' (map cookie_text ps))) k
    = map snd (filter (\<lambda>p. fst p = k) ps)"
proof (cases "ps = []")
  case False
  let ?raw = "join_str ''; '' (map cookie_text ps)"
  have ne: "?raw \<noteq> []" using False by (cases ps; cases "tl ps") (auto simp: cookie_text_def)
  have "trim_string ?raw = ?raw"
    unfolding trim_string_def
    by (intro trim_set_id disjI2 conjI) (use join_cookies_ends [OF assms False] in auto)
  with ne parse_cookies_loop_header [of ps "[]" "[]"] assms False
  have "ParseCookies ?raw = group_pairs ps []" by (simp add: ParseCookies_def)
  then show ?thesis by (simp add: map_get_list_group) (simp add: map_get_list_def)
qed (simp add: ParseCookies_def trim_string_def trim_set_def trim_left_set_def trim_right_set_def map_get_list_def)

theorem ParseCookies_roundtrip_witness:
  "map_get_list (ParseCookies (join_str ''; '' (map cookie_text [(''a'', ''1''), (''b'', []), (''a'', ''2'')]))) ''a''
    = [''1'', ''2'']"
  using ParseCookies_roundtrip [of "[(''a'', ''1''), (''b'', []), (''a'', ''2'')]" "''a''"]
  by (simp add: cookie_ok_def)

end
