(* ===== verification/Transform_Encode.thy ===== *)
theory Transform_Encode
  imports Strings_Util
begin

text \<open>
  The encoding and decoding transformations of \<open>internal/transformations\<close>: Base64,
  hexadecimal, URL encoding and its IIS variant, and the conversion of UTF-8 to
  \<open>%uXXXX\<close> escapes. A transformation returns the new value, whether it changed, and an error.
  The decoders that overwrite a copy of their input in place are modelled by the bytes they
  write; that they never write past what they have read is that the output is not longer than
  the input.
\<close>

type_synonym transformation = "string \<Rightarrow> string \<times> bool \<times> error option"

section \<open>Base64\<close>

text \<open>The table \<open>base64DecMap\<close>; 127 marks a byte outside the alphabet.\<close>

definition base64DecMap :: "nat list" where
  "base64DecMap =
    [127, 127, 127, 127, 127, 127, 127, 127, 127, 127,
     127, 127, 127, 127, 127, 127, 127, 127, 127, 127,
     127, 127, 127, 127, 127, 127, 127, 127, 127, 127,
     127, 127, 127, 127, 127, 127, 127, 127, 127, 127,
     127, 127, 127, 62, 127, 127, 127, 63, 52, 53,
     54, 55, 56, 57, 58, 59, 60, 61, 127, 127,
     127, 64, 127, 127, 127, 0, 1, 2, 3, 4,
     5, 6, 7, 8, 9, 10, 11, 12, 13, 14,
     15, 16, 17, 18, 19, 20, 21, 22, 23, 24,
     25, 127, 127, 127, 127, 127, 127, 26, 27, 28,
     29, 30, 31, 32, 33, 34, 35, 36, 37, 38,
     39, 40, 41, 42, 43, 44, 45, 46, 47, 48,
     49, 50, 51, 127, 127, 127, 127, 127]"

definition base64_val :: "char \<Rightarrow> nat" where
  "base64_val c = (if byte c \<le> 127 then base64DecMap ! byte c else 127)"

definition is_crlf :: "char \<Rightarrow> bool" where
  "is_crlf c = (c = CHR 13 \<or> c = CHR 10)"

text \<open>The bytes of the value \<open>x\<close> of \<open>n\<close> accumulated digits.\<close>

definition base64_flush :: "nat \<Rightarrow> nat \<Rightarrow> string" where
  "base64_flush n x =
     (if n = 4 then [to_byte (x div 65536), to_byte (x div 256), to_byte x]
      else if n = 2 then [to_byte (x * 4096 div 65536)]
      else if n = 3 then [to_byte (x * 64 div 65536), to_byte (x * 64 div 256)]
      else [])"

text \<open>The loop of \<open>doBase64decode\<close> from some position, with \<open>n\<close> digits pending in \<open>x\<close>.\<close>

fun base64_loop :: "bool \<Rightarrow> nat \<Rightarrow> nat \<Rightarrow> string \<Rightarrow> string" where
  "base64_loop ext n x [] = base64_flush n x"
| "base64_loop ext n x (c # s) =
     (if ext \<and> (unicode_is_space (byte c) \<or> c = CHR ''.'') then base64_loop ext n x s
      else if is_crlf c then base64_loop ext n x s
      else if c = CHR ''='' \<or> c = CHR '' '' then base64_flush n x
      else let currChar = (if ext \<and> c = CHR ''-'' then CHR ''+''
                           else if ext \<and> c = CHR ''_'' then CHR ''/'' else c);
               decodedChar = base64_val currChar
        in if decodedChar = 127 then (if ext then base64_loop ext n x s else base64_flush n x)
           else let x' = x * 64 + decodedChar mod 64; n' = n + 1
             in if n' = 4 then base64_flush 4 x' @ base64_loop ext 0 0 s
                else base64_loop ext n' x' s)"

fun beginsBase64Encoding :: "string \<Rightarrow> bool" where
  "beginsBase64Encoding [] = False"
| "beginsBase64Encoding (c # s) =
     (if is_crlf c then beginsBase64Encoding s
      else byte c < 128 \<and> base64_val c \<noteq> 127 \<and> c \<noteq> CHR ''='')"

fun base64_probe :: "bool \<Rightarrow> string \<Rightarrow> bool" where
  "base64_probe seenData [] = seenData"
| "base64_probe seenData (c # s) =
     (if is_crlf c then base64_probe seenData s
      else if 128 \<le> byte c \<or> base64_val c = 127 \<or> \<not> seenData \<and> c = CHR ''='' then False
      else base64_probe True s)"

definition hasBase64FastPathPrefix :: "string \<Rightarrow> bool" where
  "hasBase64FastPathPrefix src = base64_probe False (take 64 src)"

text \<open>
  \<open>encoding/base64\<close>: \<open>StdEncoding.Decode\<close> (with padding) and \<open>RawStdEncoding.Decode\<close>
  (without) skip line breaks and decode quanta of four digits; \<open>None\<close> is an error.
\<close>

definition std_digit :: "char \<Rightarrow> nat option" where
  "std_digit c =
     (if is_upper c then Some (byte c - 65)
      else if is_lower c then Some (byte c - 97 + 26)
      else if is_digit c then Some (byte c - 48 + 52)
      else if c = CHR ''+'' then Some 62
      else if c = CHR ''/'' then Some 63
      else None)"

fun std_quanta :: "bool \<Rightarrow> string \<Rightarrow> string option" where
  "std_quanta pad [] = Some []"
| "std_quanta pad (a # b # c # d # s) =
     (case (std_digit a, std_digit b, std_digit c, std_digit d) of
        (Some w, Some x, Some y, Some z) \<Rightarrow>
          map_option (\<lambda>r. base64_flush 4 (((w * 64 + x) * 64 + y) * 64 + z) @ r) (std_quanta pad s)
      | (Some w, Some x, Some y, None) \<Rightarrow>
          if pad \<and> d = CHR ''='' \<and> s = [] then Some (base64_flush 3 ((w * 64 + x) * 64 + y)) else None
      | (Some w, Some x, None, None) \<Rightarrow>
          if pad \<and> c = CHR ''='' \<and> d = CHR ''='' \<and> s = [] then Some (base64_flush 2 (w * 64 + x)) else None
      | _ \<Rightarrow> None)"
| "std_quanta pad [a, b, c] =
     (case (std_digit a, std_digit b, std_digit c) of
        (Some w, Some x, Some y) \<Rightarrow> if pad then None else Some (base64_flush 3 ((w * 64 + x) * 64 + y))
      | _ \<Rightarrow> None)"
| "std_quanta pad [a, b] =
     (case (std_digit a, std_digit b) of
        (Some w, Some x) \<Rightarrow> if pad then None else Some (base64_flush 2 (w * 64 + x))
      | _ \<Rightarrow> None)"
| "std_quanta pad [a] = None"

definition std_base64_decode :: "bool \<Rightarrow> string \<Rightarrow> string option" where
  "std_base64_decode pad src = std_quanta pad (filter (\<lambda>c. \<not> is_crlf c) src)"

definition doBase64decode :: "string \<Rightarrow> bool \<Rightarrow> string" where
  "doBase64decode src ext =
     (if src = [] then src
      else let fast = (if \<not> ext \<and> beginsBase64Encoding src \<and> hasBase64FastPathPrefix src
                       then std_base64_decode (CHR ''='' \<in> set src) src else None)
        in case fast of Some decoded \<Rightarrow> decoded | None \<Rightarrow> base64_loop ext 0 0 src)"

definition base64decode :: transformation where
  "base64decode data = (doBase64decode data False, True, None)"

definition base64decodeext :: transformation where
  "base64decodeext data = (doBase64decode data True, True, None)"

definition std_char :: "nat \<Rightarrow> char" where
  "std_char n =
     (if n < 26 then to_byte (65 + n) else if n < 52 then to_byte (97 + (n - 26))
      else if n < 62 then to_byte (48 + (n - 52)) else if n = 62 then CHR ''+'' else CHR ''/'')"

text \<open>\<open>base64.StdEncoding.EncodeToString\<close>.\<close>

fun std_base64_encode :: "string \<Rightarrow> string" where
  "std_base64_encode (a # b # c # s) =
     (let v = (byte a * 256 + byte b) * 256 + byte c in
      [std_char (v div 262144), std_char (v div 4096 mod 64), std_char (v div 64 mod 64), std_char (v mod 64)]
        @ std_base64_encode s)"
| "std_base64_encode [a, b] =
     (let v = (byte a * 256 + byte b) * 256 in
      [std_char (v div 262144), std_char (v div 4096 mod 64), std_char (v div 64 mod 64), CHR ''=''])"
| "std_base64_encode [a] =
     (let v = byte a * 65536 in [std_char (v div 262144), std_char (v div 4096 mod 64), CHR ''='', CHR ''=''])"
| "std_base64_encode [] = []"

definition base64encode :: transformation where
  "base64encode data = (std_base64_encode data, True, None)"

section \<open>Hexadecimal\<close>

text \<open>\<open>hex.EncodeToString\<close> and \<open>hex.DecodeString\<close>.\<close>

definition hex_encode_string :: "string \<Rightarrow> string" where
  "hex_encode_string s = concat (map (\<lambda>c. [hex_digit (byte c div 16), hex_digit (byte c mod 16)]) s)"

fun hex_decode_string :: "string \<Rightarrow> string result" where
  "hex_decode_string [] = Inr []"
| "hex_decode_string [c] =
     Inl (Error (if ValidHex c then ''encoding/hex: odd length hex string'' else ''encoding/hex: invalid byte''))"
| "hex_decode_string (c # d # s) =
     (if \<not> ValidHex c \<or> \<not> ValidHex d then Inl (Error ''encoding/hex: invalid byte'')
      else result_bind (hex_decode_string s) (\<lambda>r. Inr (to_byte (hex_val c * 16 + hex_val d) # r)))"

definition hexEncode :: transformation where
  "hexEncode data = (hex_encode_string data, True, None)"

definition hexDecode :: transformation where
  "hexDecode data = (case hex_decode_string data of
      Inl e \<Rightarrow> ([], False, Some e)
    | Inr dst \<Rightarrow> (dst, True, None))"

section \<open>URL encoding\<close>

definition url_encode_byte :: "char \<Rightarrow> string \<times> bool" where
  "url_encode_byte cc =
     (if cc = CHR '' '' then (''+'', True)
      else if byte cc = 42 \<or> (48 \<le> byte cc \<and> byte cc \<le> 57) \<or> (65 \<le> byte cc \<and> byte cc \<le> 90)
              \<or> (97 \<le> byte cc \<and> byte cc \<le> 122) then ([cc], False)
      else ([CHR ''%'', hex_digit (byte cc div 16), hex_digit (byte cc mod 16)], True))"

definition doURLEncode :: "string \<Rightarrow> string \<times> bool" where
  "doURLEncode input =
     (concat (map (\<lambda>c. fst (url_encode_byte c)) input), list_ex (\<lambda>c. snd (url_encode_byte c)) input)"

definition urlEncode :: transformation where
  "urlEncode data = (fst (doURLEncode data), snd (doURLEncode data), None)"

fun url_decode_loop :: "string \<Rightarrow> string" where
  "url_decode_loop [] = []"
| "url_decode_loop (c # s) =
     (if c = CHR ''%'' then
        (case s of
           c1 # c2 # s' \<Rightarrow>
             if ValidHex c1 \<and> ValidHex c2 then X2c c1 c2 # url_decode_loop s' else c # url_decode_loop s
         | _ \<Rightarrow> c # url_decode_loop s)
      else if c = CHR ''+'' then CHR '' '' # url_decode_loop s
      else c # url_decode_loop s)"

definition is_url_special :: "char \<Rightarrow> bool" where
  "is_url_special c = (c = CHR ''%'' \<or> c = CHR ''+'')"

definition doURLDecode :: "string \<Rightarrow> nat \<Rightarrow> string" where
  "doURLDecode input pos = take pos input @ url_decode_loop (drop pos input)"

definition urlDecode :: transformation where
  "urlDecode data = (case first_index is_url_special data of
      Some i \<Rightarrow> (doURLDecode data i, True, None)
    | None \<Rightarrow> (data, False, None))"

section \<open>Base64: the fast path is the loop\<close>

declare base64_loop.simps(2) [simp del]

lemma base64_table:
  "list_all (\<lambda>n. base64DecMap ! n = (if n = 61 then 64 else case std_digit (to_byte n) of Some v \<Rightarrow> v | None \<Rightarrow> 127))
     [0..<128]"
  by code_simp

lemma std_digit_ascii: "std_digit c = Some v \<Longrightarrow> byte c < 128"
  by (auto simp: std_digit_def byte_is_upper byte_is_lower byte_is_digit split: if_splits)

lemma base64_val_std:
  "base64_val c = (if c = CHR ''='' then 64 else case std_digit c of Some v \<Rightarrow> v | None \<Rightarrow> 127)"
proof (cases "byte c < 128")
  case True
  have "byte c = 61 \<longleftrightarrow> c = CHR ''=''" using of_char_eq_iff [of c "CHR ''=''", where ?'a = nat] by simp
  moreover have "byte c \<in> set [0..<128]" using True by simp
  ultimately show ?thesis
    using base64_table [unfolded list_all_iff, rule_format, of "byte c"] True
    by (auto simp: base64_val_def)
next
  case False
  with std_digit_ascii [of c] show ?thesis
    by (cases "std_digit c") (auto simp: base64_val_def)
qed

lemma std_digit_facts:
  assumes "std_digit c = Some v"
  shows "v < 64" "\<not> is_crlf c" "c \<noteq> CHR ''=''" "c \<noteq> CHR '' ''" "base64_val c = v"
proof -
  show *: "c \<noteq> CHR ''=''" "c \<noteq> CHR '' ''" "\<not> is_crlf c"
    using assms by (auto simp: std_digit_def is_crlf_def byte_class_defs)
  show "base64_val c = v" using assms * by (simp add: base64_val_std)
  show "v < 64"
    using assms by (auto simp: std_digit_def byte_is_upper byte_is_lower byte_is_digit split: if_splits)
qed

lemma base64_loop_digit:
  "std_digit c = Some v \<Longrightarrow> base64_loop False n x (c # s) =
     (if n = 3 then base64_flush 4 (x * 64 + v) @ base64_loop False 0 0 s else base64_loop False (n + 1) (x * 64 + v) s)"
  using std_digit_facts [of c v] by (simp add: Let_def base64_loop.simps(2))

lemma base64_loop_digits:
  assumes "std_digit c = Some v"
  shows "base64_loop False 0 x (c # s) = base64_loop False 1 (x * 64 + v) s"
    "base64_loop False 1 x (c # s) = base64_loop False 2 (x * 64 + v) s"
    "base64_loop False 2 x (c # s) = base64_loop False 3 (x * 64 + v) s"
    "base64_loop False 3 x (c # s) = base64_flush 4 (x * 64 + v) @ base64_loop False 0 0 s"
  using base64_loop_digit [OF assms] by (simp_all add: numeral_2_eq_2 numeral_3_eq_3)

lemma base64_loop_stop:
  "std_digit c = None \<Longrightarrow> \<not> is_crlf c \<Longrightarrow> base64_loop False n x (c # s) = base64_flush n x"
  by (simp add: Let_def base64_val_std base64_loop.simps(2))

lemma base64_loop_skip: "is_crlf c \<Longrightarrow> base64_loop False n x (c # s) = base64_loop False n x s"
  by (simp add: base64_loop.simps(2))

lemma base64_loop_crlf: "base64_loop False n x s = base64_loop False n x (filter (\<lambda>c. \<not> is_crlf c) s)"
proof (induction s arbitrary: n x)
  case (Cons c s)
  show ?case
  proof (cases "std_digit c")
    case None
    then show ?thesis using Cons.IH [of n x]
      by (cases "is_crlf c") (simp_all add: base64_loop_stop base64_loop_skip)
  next
    case (Some v)
    with std_digit_facts(2) [OF Some] show ?thesis
      using Cons.IH [of 0 0] Cons.IH [of "n + 1" "x * 64 + v"] by (simp add: base64_loop_digit [OF Some])
  qed
qed simp

lemma std_quanta_4:
  assumes "std_quanta pad (a # b # c # d # s) = Some r"
  obtains (full) w x y z r' where "std_digit a = Some w" "std_digit b = Some x" "std_digit c = Some y"
      "std_digit d = Some z" "std_quanta pad s = Some r'"
      "r = base64_flush 4 (((w * 64 + x) * 64 + y) * 64 + z) @ r'"
    | (three) w x y where "std_digit a = Some w" "std_digit b = Some x" "std_digit c = Some y"
      "std_digit d = None" "r = base64_flush 3 ((w * 64 + x) * 64 + y)"
    | (two) w x where "std_digit a = Some w" "std_digit b = Some x" "std_digit c = None"
      "r = base64_flush 2 (w * 64 + x)"
  using assms
  by (cases "std_digit a"; cases "std_digit b"; cases "std_digit c"; cases "std_digit d")
    (auto split: if_splits)

lemma std_quanta_loop:
  "std_quanta pad s = Some r \<Longrightarrow> \<forall>c \<in> set s. \<not> is_crlf c \<Longrightarrow> base64_loop False 0 0 s = r"
proof (induction "length s" arbitrary: s r rule: less_induct)
  case less
  consider "s = []" | a where "s = [a]" | a b where "s = [a, b]" | a b c where "s = [a, b, c]"
    | a b c d s' where "s = a # b # c # d # s'"
    by (cases "(pad, s)" rule: std_quanta.cases) auto
  then show ?case
  proof cases
    case 1
    with less(2) show ?thesis by (simp add: base64_flush_def)
  next
    case 2
    with less(2) show ?thesis by simp
  next
    case (3 a b)
    with less(2) obtain w x where d: "std_digit a = Some w" "std_digit b = Some x"
      and r: "r = base64_flush 2 (w * 64 + x)"
      by (auto split: option.splits if_splits)
    show ?thesis unfolding 3 base64_loop_digits(1) [OF d(1)] base64_loop_digits(2) [OF d(2)] by (simp add: r)
  next
    case (4 a b c)
    with less(2) obtain w x y where d: "std_digit a = Some w" "std_digit b = Some x" "std_digit c = Some y"
      and r: "r = base64_flush 3 ((w * 64 + x) * 64 + y)"
      by (auto split: option.splits if_splits)
    show ?thesis
      unfolding 4 base64_loop_digits(1) [OF d(1)] base64_loop_digits(2) [OF d(2)] base64_loop_digits(3) [OF d(3)]
      by (simp add: r)
  next
    case (5 a b c d s')
    have n: "\<not> is_crlf c" "\<not> is_crlf d" "\<forall>c \<in> set s'. \<not> is_crlf c" using less(3) 5 by simp_all
    from less(2) [unfolded 5] show ?thesis
    proof (cases rule: std_quanta_4)
      case (full w x y z r')
      with less(1) [of s' r'] n 5 have "base64_loop False 0 0 s' = r'" by simp
      with full show ?thesis unfolding 5 by (simp only: base64_loop_digits) simp
    next
      case (three w x y)
      with n show ?thesis unfolding 5 by (simp only: base64_loop_digits) (simp add: base64_loop_stop)
    next
      case (two w x)
      with n show ?thesis unfolding 5 by (simp only: base64_loop_digits) (simp add: base64_loop_stop)
    qed
  qed
qed

text \<open>The standard-library fast path is only a shortcut of the loop.\<close>

lemma doBase64decode_loop: "doBase64decode src ext = base64_loop ext 0 0 src"
proof (cases "src = []")
  case False
  have eq: "base64_loop False 0 0 src = r" if "std_base64_decode pad src = Some r" for pad r
    using that by (subst base64_loop_crlf) (auto simp: std_base64_decode_def intro: std_quanta_loop)
  show ?thesis
  proof (cases "\<not> ext \<and> beginsBase64Encoding src \<and> hasBase64FastPathPrefix src")
    case True
    with False show ?thesis
      using eq [of "CHR ''='' \<in> set src"]
      by (cases "std_base64_decode (CHR ''='' \<in> set src) src") (simp_all add: doBase64decode_def)
  qed (use False in \<open>auto simp: doBase64decode_def\<close>)
qed (simp add: doBase64decode_def base64_flush_def)

section \<open>Base64 round trip\<close>

lemma std_digit_char: "n < 64 \<Longrightarrow> std_digit (std_char n) = Some n"
  by (auto simp: std_digit_def std_char_def byte_is_upper byte_is_lower byte_is_digit)

lemma to_byte_mod: "to_byte n = c" if "n mod 256 = byte c"
  using that by (metis char_of_mod_256 char_of_char)

text \<open>A number below \<open>64 ^ 4\<close> from its four base-64 digits.\<close>

lemma base64_digits_join:
  "v < 16777216 \<Longrightarrow>
     ((v div 262144 * 64 + v div 4096 mod 64) * 64 + v div 64 mod 64) * 64 + v mod 64 = (v :: nat)"
proof -
  have d: "v div 4096 div 64 = v div 262144" "v div 64 div 64 = v div 4096"
    by (simp_all add: div_mult2_eq [symmetric])
  show ?thesis
    using radix_join [of v 64] radix_join [of "v div 64" 64] radix_join [of "v div 4096" 64]
    unfolding d by presburger
qed

lemma base64_digits_less:
  "v < 16777216 \<Longrightarrow> v div 262144 < 64 \<and> v div 4096 mod 64 < 64 \<and> v div 64 mod 64 < 64 \<and> v mod 64 < (64 :: nat)"
  by (simp add: less_mult_imp_div_less)

lemma bytes_join:
  fixes a b c :: nat
  assumes "a < 256" "b < 256" "c < 256" "v = (a * 256 + b) * 256 + c"
  shows "v < 16777216" "v div 65536 = a" "v div 256 mod 256 = b" "v mod 256 = c"
proof -
  show "v < 16777216" using assms by simp
  have "v div 256 = a * 256 + b" "v mod 256 = c" using radix_split [of c 256 "a * 256 + b"] assms by simp_all
  moreover have "v div 65536 = v div 256 div 256" by (simp add: div_mult2_eq [symmetric])
  ultimately show "v div 65536 = a" "v div 256 mod 256 = b" "v mod 256 = c" using assms by simp_all
qed

lemma base64_loop_quantum:
  assumes "v < 16777216"
  shows "base64_loop False 0 0 ([std_char (v div 262144), std_char (v div 4096 mod 64),
      std_char (v div 64 mod 64), std_char (v mod 64)] @ s) = base64_flush 4 v @ base64_loop False 0 0 s"
proof -
  note d = base64_digits_less [OF assms, THEN conjunct1] base64_digits_less [OF assms, THEN conjunct2, THEN conjunct1]
  have "base64_loop False 0 0 ([std_char (v div 262144), std_char (v div 4096 mod 64),
      std_char (v div 64 mod 64), std_char (v mod 64)] @ s)
    = base64_flush 4 (((v div 262144 * 64 + v div 4096 mod 64) * 64 + v div 64 mod 64) * 64 + v mod 64)
        @ base64_loop False 0 0 s"
    using d by (simp only: append.simps base64_loop_digits std_digit_char mod_less_divisor zero_less_numeral) simp
  then show ?thesis by (simp only: base64_digits_join [OF assms])
qed

lemma base64_flush_4: "base64_flush 4 ((byte a * 256 + byte b) * 256 + byte c) = [a, b, c]"
proof -
  define v where "v = (byte a * 256 + byte b) * 256 + byte c"
  note j = bytes_join [OF byte_less_256 byte_less_256 byte_less_256 v_def]
  have "to_byte (v div 65536) = a" "to_byte (v div 256) = b" "to_byte v = c"
    using j by (auto intro!: to_byte_mod)
  then show ?thesis by (simp add: base64_flush_def v_def)
qed

lemma base64_loop_pad: "base64_loop False n x (CHR ''='' # s) = base64_flush n x"
  by (rule base64_loop_stop) (simp_all add: std_digit_def is_crlf_def byte_class_defs)

lemma base64_loop_padded:
  "w < 64 \<Longrightarrow> x < 64 \<Longrightarrow> y < 64 \<Longrightarrow>
     base64_loop False 0 0 [std_char w, std_char x, std_char y, CHR ''=''] = base64_flush 3 ((w * 64 + x) * 64 + y)"
  "w < 64 \<Longrightarrow> x < 64 \<Longrightarrow>
     base64_loop False 0 0 [std_char w, std_char x, CHR ''='', CHR ''=''] = base64_flush 2 (w * 64 + x)"
  by (simp_all only: base64_loop_digits std_digit_char base64_loop_pad) simp_all

lemma base64_tail2:
  "base64_loop False 0 0 (std_base64_encode [a, b]) = [a, b]"
proof -
  define v where "v = (byte a * 256 + byte b) * 256 + 0"
  note j = bytes_join [OF byte_less_256 byte_less_256 _ v_def, simplified]
  note d = base64_digits_less [OF j(1)]
  have m: "v mod 64 = 0" by (simp add: v_def mod_mult_right_eq [symmetric])
  have "((v div 262144 * 64 + v div 4096 mod 64) * 64 + v div 64 mod 64) * 64 = v"
    using base64_digits_join [OF j(1)] m by simp
  moreover have "to_byte (v div 65536) = a" "to_byte (v div 256) = b"
    using j by (auto intro!: to_byte_mod)
  ultimately have f: "base64_flush 3 ((v div 262144 * 64 + v div 4096 mod 64) * 64 + v div 64 mod 64) = [a, b]"
    by (simp add: base64_flush_def)
  have e: "std_base64_encode [a, b]
      = [std_char (v div 262144), std_char (v div 4096 mod 64), std_char (v div 64 mod 64), CHR ''='']"
    unfolding v_def by (simp only: std_base64_encode.simps Let_def add_0_right)
  from d show ?thesis unfolding e by (simp only: base64_loop_padded f)
qed

lemma base64_tail1:
  "base64_loop False 0 0 (std_base64_encode [a]) = [a]"
proof -
  define v where "v = byte a * 65536"
  have l: "v < 16777216" using byte_less_256 [of a] by (simp add: v_def)
  note d = base64_digits_less [OF l]
  have "v = byte a * 16 * 64 * 64" by (simp add: v_def)
  then have m: "v mod 64 = 0" "v div 64 mod 64 = 0"
    by simp_all
  have "(v div 262144 * 64 + v div 4096 mod 64) * 4096 = v"
    using base64_digits_join [OF l] m by simp
  moreover have "to_byte (v div 65536) = a"
    by (simp add: v_def)
  ultimately have f: "base64_flush 2 (v div 262144 * 64 + v div 4096 mod 64) = [a]"
    by (simp add: base64_flush_def)
  have e: "std_base64_encode [a] = [std_char (v div 262144), std_char (v div 4096 mod 64), CHR ''='', CHR ''='']"
    unfolding v_def by (simp only: std_base64_encode.simps Let_def)
  from d show ?thesis unfolding e by (simp only: base64_loop_padded f)
qed

lemma base64_loop_encode: "base64_loop False 0 0 (std_base64_encode s) = s"
proof (induction s rule: std_base64_encode.induct)
  case (1 a b c s)
  define v where "v = (byte a * 256 + byte b) * 256 + byte c"
  have "v < 16777216" using bytes_join(1) [OF byte_less_256 byte_less_256 byte_less_256 v_def] .
  then have "base64_loop False 0 0 (std_base64_encode (a # b # c # s)) = base64_flush 4 v @ s"
    unfolding std_base64_encode.simps Let_def v_def [symmetric] by (simp only: base64_loop_quantum 1)
  then show ?case unfolding v_def base64_flush_4 by simp
qed (simp_all only: base64_tail1 base64_tail2, simp add: base64_flush_def)

section \<open>Hexadecimal round trip\<close>

lemma ValidHex_hex_digit [simp]: "n < 16 \<Longrightarrow> ValidHex (hex_digit n)"
  using hexDigitToByte_hex_digit [of n] hexDigit_ok [of "hex_digit n"] by simp

lemma byte_nibbles: "byte c div 16 < 16" "byte c mod 16 < 16" "byte c div 16 * 16 + byte c mod 16 = byte c"
  using byte_less_256 [of c] by (simp_all add: less_mult_imp_div_less)

lemma hex_decode_encode_string: "hex_decode_string (hex_encode_string s) = Inr s"
  by (induction s) (auto simp: hex_encode_string_def byte_nibbles)

lemma hex_decode_string_even:
  "hex_decode_string s = Inr r \<Longrightarrow> length s = 2 * length r \<and> list_all ValidHex s"
  by (induction s arbitrary: r rule: hex_decode_string.induct)
    (auto simp: result_bind_eq_Inr split: if_splits)

section \<open>URL decoding\<close>

lemma url_decode_loop_plain:
  "\<forall>c \<in> set a. \<not> is_url_special c \<Longrightarrow> url_decode_loop (a @ b) = a @ url_decode_loop b"
  by (induction a) (auto simp: is_url_special_def)

text \<open>Starting at the first special byte is only a shortcut.\<close>

lemma urlDecode_loop: "fst (urlDecode data) = url_decode_loop data"
  using first_index_shortcut [of is_url_special url_decode_loop data, OF url_decode_loop_plain]
  by (simp add: urlDecode_def doURLDecode_def split: option.splits)

text \<open>The transformation and the query-string parser decode alike.\<close>

lemma url_decode_query_unescape: "url_decode_loop s = query_unescape_loop s"
proof (induction s rule: length_induct)
  case (1 s)
  show ?case
  proof (cases s)
    case (Cons c s')
    have IH: "length t < length s \<Longrightarrow> url_decode_loop t = query_unescape_loop t" for t
      using 1 by blast
    show ?thesis
    proof (cases "c = CHR ''%'' \<and> 2 \<le> length s'")
      case True
      then obtain h l t where s': "s' = h # l # t"
        by (metis Suc_le_length_iff numeral_2_eq_2)
      have "url_decode_loop s' = query_unescape_loop s'" "url_decode_loop t = query_unescape_loop t"
        by (rule IH; simp add: Cons s')+
      then show ?thesis
        unfolding Cons s' True [THEN conjunct1] url_decode_loop.simps(2) [of "CHR ''%''"]
          query_unescape_loop.simps(2) [of "CHR ''%''"]
        by (simp add: X2c_hex hexDigit_ok split_beta del: url_decode_loop.simps query_unescape_loop.simps)
    next
      case False
      have "url_decode_loop s' = query_unescape_loop s'" using Cons IH by simp
      moreover have "c \<noteq> CHR ''%'' \<or> s' = [] \<or> (\<exists>d. s' = [d])"
        using False by (cases s'; cases "tl s'") auto
      ultimately show ?thesis using Cons by auto
    qed
  qed simp
qed

lemma url_decode_encode_byte:
  "url_decode_loop (fst (url_encode_byte c) @ s) = c # url_decode_loop s"
proof -
  have "c \<noteq> CHR ''%'' \<and> c \<noteq> CHR ''+''" if "snd (url_encode_byte c) = False"
    using that by (auto simp: url_encode_byte_def)
  then show ?thesis
    by (auto simp: url_encode_byte_def byte_nibbles X2c_hex)
qed

lemma url_decode_encode: "url_decode_loop (fst (doURLEncode s)) = s"
  by (induction s) (simp_all add: doURLEncode_def url_decode_encode_byte)

lemma length_url_decode_loop: "length (url_decode_loop s) \<le> length s"
proof (induction s rule: url_decode_loop.induct)
  case (2 c s)
  then show ?case by (auto split: list.splits if_splits) (metis le_SucI)+
qed simp

section \<open>Properties\<close>

text \<open>
  C30: \<open>base64Decode\<close> undoes \<open>base64Encode\<close>, and on every input the fast path through the
  standard library returns what the byte-by-byte decoder returns.
\<close>

theorem base64_roundtrip_fast_path:
  "fst (base64decode (fst (base64encode s))) = s \<and> doBase64decode src False = base64_loop False 0 0 src"
  by (simp add: base64decode_def base64encode_def doBase64decode_loop base64_loop_encode)

text \<open>
  C31: \<open>hexDecode\<close> undoes \<open>hexEncode\<close>, \<open>urlDecode\<close> undoes \<open>urlEncode\<close>, and
  \<open>urlDecode\<close> decodes every input exactly as the query-string parser does.
\<close>

theorem hex_url_roundtrip:
  "hexDecode (fst (hexEncode s)) = (s, True, None)
   \<and> fst (urlDecode (fst (urlEncode s))) = s
   \<and> fst (urlDecode data) = queryUnescape data"
  by (simp add: hexDecode_def hexEncode_def hex_decode_encode_string urlDecode_loop urlEncode_def
      url_decode_encode queryUnescape_loop url_decode_query_unescape [symmetric])

end
