(* ===== verification/Transform_Escape.thy ===== *)
theory Transform_Escape
  imports Transform_Encode
begin

text \<open>
  The transformations of \<open>internal/transformations\<close> that decode escapes: CSS, JavaScript
  and ANSI C escapes, IIS \<open>%u\<close> escapes with the best-fit table, and the conversion of
  UTF-8 to \<open>%u\<close> escapes. As in the previous theory a decoder is modelled by the bytes it
  writes.
\<close>

section \<open>urlDecodeUni\<close>

text \<open>The table \<open>unicodeBestFitASCII\<close>, in three parts.\<close>

definition best_fit_1 :: "(nat \<times> nat) list" where
  "best_fit_1 =
    [(160, 32), (161, 33), (162, 99), (164, 36), (165, 89), (166, 124), (169, 67), (170, 97),
     (171, 60), (173, 45), (174, 82), (178, 50), (179, 51), (183, 46), (184, 44), (185, 49),
     (186, 111), (187, 62), (192, 65), (193, 65), (194, 65), (195, 65), (196, 65), (197, 65),
     (198, 65), (199, 67), (200, 69), (201, 69), (202, 69), (203, 69), (204, 73), (205, 73),
     (206, 73), (207, 73), (208, 68), (209, 78), (210, 79), (211, 79), (212, 79), (213, 79),
     (214, 79), (216, 79), (217, 85), (218, 85), (219, 85), (220, 85), (221, 89), (224, 97),
     (225, 97), (226, 97), (227, 97), (228, 97), (229, 97), (230, 97), (231, 99), (232, 101),
     (233, 101), (234, 101), (235, 101), (236, 105), (237, 105), (238, 105), (239, 105),
     (241, 110), (242, 111), (243, 111), (244, 111), (245, 111), (246, 111), (248, 111),
     (249, 117), (250, 117), (251, 117), (252, 117), (253, 121), (255, 121), (256, 65),
     (257, 97), (258, 65), (259, 97), (260, 65), (261, 97), (262, 67), (263, 99), (264, 67),
     (265, 99), (266, 67), (267, 99), (268, 67), (269, 99), (270, 68), (271, 100), (272, 68),
     (273, 100), (274, 69), (275, 101), (276, 69), (277, 101), (278, 69), (279, 101),
     (280, 69), (281, 101), (282, 69), (283, 101), (284, 71), (285, 103), (286, 71),
     (287, 103), (288, 71), (289, 103), (290, 71), (291, 103), (292, 72), (293, 104),
     (294, 72), (295, 104), (296, 73), (297, 105), (298, 73), (299, 105), (300, 73),
     (301, 105), (302, 73), (303, 105)]"

definition best_fit_2 :: "(nat \<times> nat) list" where
  "best_fit_2 =
    [(304, 73), (305, 105), (308, 74), (309, 106), (310, 75), (311, 107), (313, 76),
     (314, 108), (315, 76), (316, 108), (317, 76), (318, 108), (321, 76), (322, 108),
     (323, 78), (324, 110), (325, 78), (326, 110), (327, 78), (328, 110), (332, 79),
     (333, 111), (334, 79), (335, 111), (336, 79), (337, 111), (338, 79), (339, 111),
     (340, 82), (341, 114), (342, 82), (343, 114), (344, 82), (345, 114), (346, 83),
     (347, 115), (348, 83), (349, 115), (350, 83), (351, 115), (352, 83), (353, 115),
     (354, 84), (355, 116), (356, 84), (357, 116), (358, 84), (359, 116), (360, 85),
     (361, 117), (362, 85), (363, 117), (364, 85), (365, 117), (366, 85), (367, 117),
     (368, 85), (369, 117), (370, 85), (371, 117), (372, 87), (373, 119), (374, 89),
     (375, 121), (376, 89), (377, 90), (379, 90), (380, 122), (381, 90), (382, 122), (384, 98),
     (393, 68), (401, 70), (402, 102), (407, 73), (410, 108), (415, 79), (416, 79), (417, 111),
     (427, 116), (430, 84), (431, 85), (432, 117), (438, 122), (461, 65), (462, 97), (463, 73),
     (464, 105), (465, 79), (466, 111), (467, 85), (468, 117), (469, 85), (470, 117),
     (471, 85), (472, 117), (473, 85), (474, 117), (475, 85), (476, 117), (478, 65), (479, 97),
     (484, 71), (485, 103), (486, 71), (487, 103), (488, 75), (489, 107), (490, 79),
     (491, 111), (492, 79), (493, 111), (496, 106), (609, 103), (697, 39), (698, 34),
     (700, 39), (708, 94), (710, 94), (712, 39), (715, 96), (717, 95), (732, 126), (768, 96)]"

definition best_fit_3 :: "(nat \<times> nat) list" where
  "best_fit_3 =
    [(770, 94), (771, 126), (782, 34), (817, 95), (818, 95), (8192, 32), (8193, 32),
     (8194, 32), (8195, 32), (8196, 32), (8197, 32), (8198, 32), (8208, 45), (8209, 45),
     (8211, 45), (8212, 45), (8216, 39), (8217, 39), (8218, 44), (8220, 34), (8221, 34),
     (8222, 34), (8226, 46), (8230, 46), (8242, 39), (8245, 96), (8249, 60), (8250, 62),
     (8482, 84), (65281, 33), (65282, 34), (65283, 35), (65284, 36), (65285, 37), (65286, 38),
     (65287, 39), (65288, 40), (65289, 41), (65290, 42), (65291, 43), (65292, 44), (65293, 45),
     (65294, 46), (65295, 47), (65296, 48), (65297, 49), (65298, 50), (65299, 51), (65300, 52),
     (65301, 53), (65302, 54), (65303, 55), (65304, 56), (65305, 57), (65306, 58), (65307, 59),
     (65308, 60), (65309, 61), (65310, 62), (65312, 64), (65313, 65), (65314, 66), (65315, 67),
     (65316, 68), (65317, 69), (65318, 70), (65319, 71), (65320, 72), (65321, 73), (65322, 74),
     (65323, 75), (65324, 76), (65325, 77), (65326, 78), (65327, 79), (65328, 80), (65329, 81),
     (65330, 82), (65331, 83), (65332, 84), (65333, 85), (65334, 86), (65335, 87), (65336, 88),
     (65337, 89), (65338, 90), (65339, 91), (65340, 92), (65341, 93), (65342, 94), (65343, 95),
     (65344, 96), (65345, 97), (65346, 98), (65347, 99), (65348, 100), (65349, 101),
     (65350, 102), (65351, 103), (65352, 104), (65353, 105), (65354, 106), (65355, 107),
     (65356, 108), (65357, 109), (65358, 110), (65359, 111), (65360, 112), (65361, 113),
     (65362, 114), (65363, 115), (65364, 116), (65365, 117), (65366, 118), (65367, 119),
     (65368, 120), (65369, 121), (65370, 122), (65371, 123), (65372, 124), (65373, 125),
     (65374, 126)]"

definition unicodeBestFitASCII :: "nat \<Rightarrow> nat option" where
  "unicodeBestFitASCII code = alist_get (best_fit_1 @ best_fit_2 @ best_fit_3) code"

definition hexNibble :: "char \<Rightarrow> int" where
  "hexNibble c =
     (if CHR ''0'' \<le> c \<and> c \<le> CHR ''9'' then int (byte c) - 48
      else if CHR ''a'' \<le> c \<and> c \<le> CHR ''f'' then int (byte c) - 97 + 10
      else if CHR ''A'' \<le> c \<and> c \<le> CHR ''F'' then int (byte c) - 65 + 10
      else - 1)"

text \<open>The byte of a \<open>%uXXXX\<close> escape with the four nibbles.\<close>

definition uni_byte :: "nat \<Rightarrow> nat \<Rightarrow> nat \<Rightarrow> nat \<Rightarrow> char" where
  "uni_byte h2 h3 h4 h5 =
     (let code = h2 * 4096 + h3 * 256 + h4 * 16 + h5 in
      case unicodeBestFitASCII code of
        Some b \<Rightarrow> to_byte b
      | None \<Rightarrow>
          (let low = h4 * 16 + h5 in
           if 0 < low \<and> low < 95 \<and> h2 = 15 \<and> h3 = 15 then to_byte (low + 32) else to_byte low))"

text \<open>What one step writes before the rest, and whether it is a change.\<close>

definition emit :: "string \<Rightarrow> bool \<Rightarrow> string \<times> bool \<Rightarrow> string \<times> bool" where
  "emit out ch r = (out @ fst r, ch \<or> snd r)"

definition uni_escape :: "string \<Rightarrow> (char \<times> string) option" where
  "uni_escape s = (case s of
      u # a # b # c # d # s' \<Rightarrow>
        if 0 \<le> hexNibble a \<and> 0 \<le> hexNibble b \<and> 0 \<le> hexNibble c \<and> 0 \<le> hexNibble d
        then Some (uni_byte (nat (hexNibble a)) (nat (hexNibble b)) (nat (hexNibble c)) (nat (hexNibble d)), s')
        else None
    | _ \<Rightarrow> None)"

definition percent_escape :: "string \<Rightarrow> (char \<times> string) option" where
  "percent_escape s = (case s of
      a # b # s' \<Rightarrow>
        if 0 \<le> hexNibble a \<and> 0 \<le> hexNibble b
        then Some (to_byte (nat (hexNibble a) * 16 + nat (hexNibble b)), s') else None
    | _ \<Rightarrow> None)"

lemma uni_escape_less: "uni_escape s = Some (x, s') \<Longrightarrow> length s' + 5 \<le> length s"
  by (auto simp: uni_escape_def split: list.splits if_splits)

lemma percent_escape_less: "percent_escape s = Some (x, s') \<Longrightarrow> length s' + 2 = length s"
  by (auto simp: percent_escape_def split: list.splits if_splits)

text \<open>The loop of \<open>inplaceUniDecode\<close>.\<close>

function uni_decode_loop :: "string \<Rightarrow> string \<times> bool" where
  "uni_decode_loop [] = ([], False)"
| "uni_decode_loop (c # s) =
     (if \<not> is_url_special c then
        (let run = takeWhile (\<lambda>x. \<not> is_url_special x) s
         in emit (c # run) False (uni_decode_loop (drop (length run) s)))
      else if c = CHR ''+'' then emit '' '' True (uni_decode_loop s)
      else if s \<noteq> [] \<and> (hd s = CHR ''u'' \<or> hd s = CHR ''U'') then
        (case uni_escape s of
           Some (x, s') \<Rightarrow> emit [x] True (uni_decode_loop s')
         | None \<Rightarrow> emit [c, hd s] False (uni_decode_loop (tl s)))
      else (case percent_escape s of
           Some (x, s') \<Rightarrow> emit [x] True (uni_decode_loop s')
         | None \<Rightarrow> emit [c] False (uni_decode_loop s)))"
  by pat_completeness auto
termination
  by (relation "measure length") (auto dest: uni_escape_less percent_escape_less)

declare uni_decode_loop.simps(2) [simp del]

definition inplaceUniDecode :: "string \<Rightarrow> nat \<Rightarrow> string \<times> bool" where
  "inplaceUniDecode input pos = emit (take pos input) False (uni_decode_loop (drop pos input))"

definition urlDecodeUni :: transformation where
  "urlDecodeUni data = (case first_index is_url_special data of
      Some i \<Rightarrow> (fst (inplaceUniDecode data i), snd (inplaceUniDecode data i), None)
    | None \<Rightarrow> (data, False, None))"

section \<open>utf8ToUnicode\<close>

definition unicodeEscapeLength :: "nat \<Rightarrow> nat" where
  "unicodeEscapeLength current = (if current \<le> 65535 then 6 else if current \<le> 1048575 then 7 else 8)"

definition appendUnicodeEscape :: "nat \<Rightarrow> string" where
  "appendUnicodeEscape current =
     (let digits = unicodeEscapeLength current - 2 in
      ''%u'' @ map (\<lambda>k. hex_digit (current div 16 ^ k mod 16)) (rev [0..<digits]))"

definition doUTF8ToUnicode :: "string \<Rightarrow> nat \<Rightarrow> string" where
  "doUTF8ToUnicode input pos =
     take pos input @
     concat (map (\<lambda>r. if r < 128 then [to_byte r] else appendUnicodeEscape r) (runes (drop pos input)))"

definition utf8ToUnicode :: transformation where
  "utf8ToUnicode str = (case first_index (\<lambda>c. 128 \<le> byte c) str of
      Some i \<Rightarrow> (doUTF8ToUnicode str i, True, None)
    | None \<Rightarrow> (str, False, None))"

section \<open>cssDecode\<close>

definition xsingle2c :: "char \<Rightarrow> nat" where
  "xsingle2c what =
     (if CHR ''A'' \<le> what then ((byte what AND 223) + (256 - 65) + 10) mod 256
      else (byte what + (256 - 48)) mod 256)"

definition isspace :: "char \<Rightarrow> bool" where
  "isspace char = (char = CHR '' '' \<or> char = CHR 12 \<or> char = CHR 10 \<or> char = CHR 9 \<or> char = CHR 13 \<or> char = CHR 11)"

text \<open>The value of a run of hexadecimal digits, and the number of digits of one of at most six.\<close>

definition hex_code :: "string \<Rightarrow> nat" where
  "hex_code hs = foldl (\<lambda>code h. code * 16 + xsingle2c h) 0 hs"

definition hex_run :: "string \<Rightarrow> nat" where
  "hex_run s = length (takeWhile ValidHex (take 6 s))"

definition css_code_point :: "nat \<Rightarrow> nat" where
  "css_code_point code0 =
     (let code = (if code0 = 0 then RuneError else code0) in
      if 65281 \<le> code \<and> code \<le> 65374 then code - 65248 else code)"

function css_loop :: "string \<Rightarrow> string" where
  "css_loop [] = []"
| "css_loop (c # s) =
     (if c \<noteq> CHR 92 then c # css_loop s
      else if s = [] then css_loop s
      else let j = hex_run s in
        if 0 < j then
          (let rest = drop j s;
               rest' = (if rest \<noteq> [] \<and> isspace (hd rest) then tl rest else rest)
           in encode_rune (css_code_point (hex_code (take j s))) @ css_loop rest')
        else if hd s = CHR 10 then css_loop (tl s)
        else hd s # css_loop (tl s))"
  by pat_completeness auto
termination
  by (relation "measure length") (auto simp: Let_def)

declare css_loop.simps(2) [simp del]

definition cssDecodeInplace :: "string \<Rightarrow> nat \<Rightarrow> string" where
  "cssDecodeInplace input pos = take pos input @ css_loop (drop pos input)"

definition cssDecode :: transformation where
  "cssDecode data = (case index_byte data (CHR 92) of
      Some i \<Rightarrow> (cssDecodeInplace data i, True, None)
    | None \<Rightarrow> (data, False, None))"

section \<open>escapeSeqDecode\<close>

definition isODigit :: "char \<Rightarrow> bool" where
  "isODigit c = (CHR ''0'' \<le> c \<and> c \<le> CHR ''7'')"

text \<open>The single-character escapes; none for the default branch.\<close>

definition simple_escape :: "char \<Rightarrow> char option" where
  "simple_escape c =
     (if c = CHR ''a'' then Some (CHR 7) else if c = CHR ''b'' then Some (CHR 8)
      else if c = CHR ''f'' then Some (CHR 12) else if c = CHR ''n'' then Some (CHR 10)
      else if c = CHR ''r'' then Some (CHR 13) else if c = CHR ''t'' then Some (CHR 9)
      else if c = CHR ''v'' then Some (CHR 11)
      else if c = CHR 92 \<or> c = CHR ''?'' \<or> c = CHR 39 \<or> c = CHR 34 then Some c
      else None)"

text \<open>\<open>strconv.ParseUint(s, 8, 8)\<close> on octal digits: a value above 255 is clamped.\<close>

definition octal_value :: "string \<Rightarrow> nat" where
  "octal_value ds = min 255 (foldl (\<lambda>n c. n * 8 + (byte c - 48)) 0 ds)"

text \<open>The number of octal digits read: the first and at most two more.\<close>

definition octal_run :: "string \<Rightarrow> nat" where
  "octal_run s = length (takeWhile isODigit (take 3 s))"

function escape_seq_loop :: "string \<Rightarrow> string \<times> bool" where
  "escape_seq_loop [] = ([], False)"
| "escape_seq_loop (c # s) =
     (if c = CHR 92 \<and> s \<noteq> [] then
        (case simple_escape (hd s) of
           Some x \<Rightarrow> emit [x] True (escape_seq_loop (tl s))
         | None \<Rightarrow>
             if (hd s = CHR ''x'' \<or> hd s = CHR ''X'') \<and> 3 \<le> length s \<and> ValidHex (s ! 1) \<and> ValidHex (s ! 2)
             then emit [X2c (s ! 1) (s ! 2)] True (escape_seq_loop (drop 3 s))
             else if isODigit (hd s) then
               emit [to_byte (octal_value (take (octal_run s) s))] True (escape_seq_loop (drop (octal_run s) s))
             else emit [hd s] True (escape_seq_loop (tl s)))
      else emit [c] False (escape_seq_loop s))"
  by pat_completeness auto
termination
  by (relation "measure length") auto

declare escape_seq_loop.simps(2) [simp del]

definition doEscapeSeqDecode :: "string \<Rightarrow> nat \<Rightarrow> string \<times> bool" where
  "doEscapeSeqDecode input pos = emit (take pos input) False (escape_seq_loop (drop pos input))"

definition escapeSeqDecode :: transformation where
  "escapeSeqDecode input = (case index_byte input (CHR 92) of
      Some i \<Rightarrow> (fst (doEscapeSeqDecode input i), snd (doEscapeSeqDecode input i), None)
    | None \<Rightarrow> (input, False, None))"

section \<open>jsDecode\<close>

definition isodigit :: "char \<Rightarrow> bool" where
  "isodigit x = (CHR ''0'' \<le> x \<and> x \<le> CHR ''7'')"

definition jsExtendedUnicodeEscapeLen :: "string \<Rightarrow> nat" where
  "jsExtendedUnicodeEscapeLen s =
     (let j = hex_run s in if j = 0 \<or> length s \<le> j \<or> s ! j \<noteq> CHR ''}'' then 0 else j)"

text \<open>
  The loop that collects the octal digits, on the input from the backslash on: the number of
  bytes copied to \<open>buf\<close>.
\<close>

function js_octal_loop :: "string \<Rightarrow> nat \<Rightarrow> nat" where
  "js_octal_loop full j =
     (if Suc j < length full \<and> j < 3 then
        (if \<not> isodigit (full ! Suc j) then Suc j else js_octal_loop full (Suc j))
      else j)"
  by pat_completeness auto
termination
  by (relation "measure (\<lambda>(full, j). 3 - j)") auto

declare js_octal_loop.simps [simp del]

text \<open>
  \<open>strconv.ParseInt(buf, 8, 8)\<close>: an optional sign and octal digits; any other byte is a
  syntax error, which gives 0, and a value out of range gives the nearest bound.
\<close>

definition parse_int_octal8 :: "string \<Rightarrow> int" where
  "parse_int_octal8 buf =
     (let neg = (buf \<noteq> [] \<and> hd buf = CHR ''-'');
          ds = (if buf \<noteq> [] \<and> (hd buf = CHR ''-'' \<or> hd buf = CHR ''+'') then tl buf else buf)
      in if ds = [] \<or> \<not> list_all isodigit ds then 0
         else let n = int (foldl (\<lambda>n c. n * 8 + (byte c - 48)) 0 ds)
           in if neg then max (- 128) (- n) else min 127 n)"

definition js_simple :: "char \<Rightarrow> char" where
  "js_simple c =
     (if c = CHR ''a'' then CHR 7 else if c = CHR ''b'' then CHR 8 else if c = CHR ''f'' then CHR 12
      else if c = CHR ''n'' then CHR 10 else if c = CHR ''r'' then CHR 13 else if c = CHR ''t'' then CHR 9
      else if c = CHR ''v'' then CHR 11 else c)"

text \<open>
  The escape that starts with the backslash before \<open>s\<close>: what it writes, and the number of
  bytes of \<open>s\<close> it consumes.
\<close>

definition js_escape :: "string \<Rightarrow> string \<times> bool \<times> nat" where
  "js_escape s =
     (let ext = (if 2 \<le> length s \<and> s ! 0 = CHR ''u'' \<and> s ! 1 = CHR ''{''
                 then jsExtendedUnicodeEscapeLen (drop 2 s) else 0)
      in if 0 < ext then
           (let code = hex_code (take ext (drop 2 s));
                b = (if 65281 \<le> code \<and> code \<le> 65374 then code mod 256 + 32 else code mod 256)
            in ([to_byte b], True, ext + 3))
         else if 5 \<le> length s \<and> s ! 0 = CHR ''u'' \<and> ValidHex (s ! 1) \<and> ValidHex (s ! 2)
                 \<and> ValidHex (s ! 3) \<and> ValidHex (s ! 4) then
           (let b = X2c (s ! 3) (s ! 4);
                full_width = (0 < byte b \<and> byte b < 95 \<and> (s ! 1 = CHR ''f'' \<or> s ! 1 = CHR ''F'')
                              \<and> (s ! 2 = CHR ''f'' \<or> s ! 2 = CHR ''F''))
            in ([if full_width then to_byte (byte b + 32) else b], True, 5))
         else if 3 \<le> length s \<and> s ! 0 = CHR ''x'' \<and> ValidHex (s ! 1) \<and> ValidHex (s ! 2) then
           ([X2c (s ! 1) (s ! 2)], True, 3)
         else if s \<noteq> [] \<and> isodigit (s ! 0) then
           (let full = CHR 92 # s;
                j = js_octal_loop full 0;
                j' = (if j = 3 \<and> CHR ''3'' < full ! 0 then 2 else j)
            in ([to_byte (nat (parse_int_octal8 (take j' full) mod 256))], True, j'))
         else if s \<noteq> [] then ([js_simple (s ! 0)], True, 1)
         else ([CHR 92], False, 0))"

function js_loop :: "string \<Rightarrow> string \<times> bool" where
  "js_loop [] = ([], False)"
| "js_loop (c # s) =
     (if c = CHR 92 then
        (case js_escape s of (out, ch, k) \<Rightarrow> emit out ch (js_loop (drop k s)))
      else emit [c] False (js_loop s))"
  by pat_completeness auto
termination
  by (relation "measure length") auto

declare js_loop.simps(2) [simp del]

definition doJsDecode :: "string \<Rightarrow> nat \<Rightarrow> string \<times> bool" where
  "doJsDecode input pos = emit (take pos input) False (js_loop (drop pos input))"

definition jsDecode :: transformation where
  "jsDecode data = (case index_byte data (CHR 92) of
      Some i \<Rightarrow> (fst (doJsDecode data i), snd (doJsDecode data i), None)
    | None \<Rightarrow> (data, False, None))"

section \<open>Nothing is written ahead of what was read\<close>

lemma emit_simps [simp]: "fst (emit out ch r) = out @ fst r" "snd (emit out ch r) = (ch \<or> snd r)"
  by (simp_all add: emit_def)

text \<open>One step of the loop: copied bytes, a decoded \<open>+\<close>, or a decoded escape.\<close>

lemma uni_decode_cases:
  assumes "s \<noteq> []"
  obtains (copy) a b where "a \<noteq> []" "s = a @ b" "uni_decode_loop s = emit a False (uni_decode_loop b)"
    | (plus) b where "s = CHR ''+'' # b" "uni_decode_loop s = emit '' '' True (uni_decode_loop b)"
    | (escape) x b where "length b + 2 < length s" "uni_decode_loop s = emit [x] True (uni_decode_loop b)"
proof -
  obtain c t where s: "s = c # t" using assms by (cases s) auto
  note unfold = uni_decode_loop.simps(2) [of c t]
  consider (plain) "\<not> is_url_special c" | (plus') "c = CHR ''+''"
    | (uni) "c = CHR ''%''" "t \<noteq> [] \<and> (hd t = CHR ''u'' \<or> hd t = CHR ''U'')"
    | (std) "c = CHR ''%''" "\<not> (t \<noteq> [] \<and> (hd t = CHR ''u'' \<or> hd t = CHR ''U''))"
    by (auto simp: is_url_special_def)
  then show thesis
  proof cases
    case plain
    let ?run = "takeWhile (\<lambda>x. \<not> is_url_special x) t"
    have "?run @ drop (length ?run) t = t" by (metis append_take_drop_id takeWhile_eq_take)
    with plain s unfold show thesis by (intro copy [of "c # ?run" "drop (length ?run) t"]) (simp_all add: Let_def)
  next
    case plus'
    with s unfold show thesis by (intro plus [of t]) (simp_all add: is_url_special_def)
  next
    case uni
    show thesis
    proof (cases "uni_escape t")
      case None
      with uni s unfold show thesis
        by (intro copy [of "[c, hd t]" "tl t"]) (simp_all add: is_url_special_def)
    next
      case (Some p)
      with uni s unfold uni_escape_less [of t "fst p" "snd p"] show thesis
        by (intro escape [of "snd p" "fst p"]) (simp_all add: is_url_special_def split_beta)
    qed
  next
    case std
    show thesis
    proof (cases "percent_escape t")
      case None
      with std s unfold show thesis by (intro copy [of "[c]" t]) (auto simp: is_url_special_def)
    next
      case (Some p)
      with std s unfold percent_escape_less [of t "fst p" "snd p"] show thesis
        by (intro escape [of "snd p" "fst p"]) (auto simp: is_url_special_def split_beta)
    qed
  qed
qed

lemma length_uni_decode_loop: "length (fst (uni_decode_loop s)) \<le> length s"
proof (induction s rule: length_induct)
  case (1 s)
  show ?case
  proof (cases "s = []")
    case False
    then show ?thesis
    proof (cases rule: uni_decode_cases)
      case (copy a b)
      with 1 [rule_format, of b] show ?thesis by simp
    next
      case (plus b)
      with 1 [rule_format, of b] show ?thesis by simp
    next
      case (escape x b)
      with 1 [rule_format, of b] show ?thesis by simp
    qed
  qed simp
qed

lemma length_escape_seq_loop: "length (fst (escape_seq_loop s)) \<le> length s"
proof (induction s rule: escape_seq_loop.induct)
  case (2 c s)
  have "0 < octal_run s" if "s \<noteq> []" "isODigit (hd s)"
    using that by (cases s) (auto simp: octal_run_def)
  with 2 show ?case
    by (subst escape_seq_loop.simps(2)) (auto split: option.splits)
qed simp

lemma js_octal_loop_bound: "j \<le> 3 \<Longrightarrow> j < length full \<Longrightarrow> j \<le> js_octal_loop full j \<and> js_octal_loop full j < length full"
proof (induction full j rule: js_octal_loop.induct)
  case (1 full j)
  show ?case
    by (subst (1 2) js_octal_loop.simps) (use 1 in auto)
qed

lemma js_octal_loop_pos: "s \<noteq> [] \<Longrightarrow> 1 \<le> js_octal_loop (CHR 92 # s) 0 \<and> js_octal_loop (CHR 92 # s) 0 \<le> length s"
  using js_octal_loop_bound [of 1 "CHR 92 # s"]
  by (subst (1 2) js_octal_loop.simps) (auto simp: less_Suc_eq_le Suc_le_eq)

lemma js_escape_out: "length (fst (js_escape s)) = 1"
  by (simp add: js_escape_def Let_def)

lemma js_escape_consumes: "snd (snd (js_escape s)) \<le> length s"
proof -
  have "jsExtendedUnicodeEscapeLen (drop 2 s) + 3 \<le> length s"
    if "0 < jsExtendedUnicodeEscapeLen (drop 2 s)"
    using that by (auto simp: jsExtendedUnicodeEscapeLen_def Let_def split: if_splits)
  moreover have "js_octal_loop (CHR 92 # s) 0 \<le> length s \<and> (js_octal_loop (CHR 92 # s) 0 = 3 \<longrightarrow> 2 \<le> length s)"
    if "s \<noteq> []"
    using js_octal_loop_pos [OF that] by auto
  moreover have "s \<noteq> [] \<Longrightarrow> 1 \<le> length s" by (cases s) auto
  ultimately show ?thesis by (simp add: js_escape_def Let_def)
qed

lemma length_js_loop: "length (fst (js_loop s)) \<le> length s"
proof (induction s rule: js_loop.induct)
  case (2 c s)
  show ?case
  proof (cases "c = CHR 92")
    case True
    obtain out ch k where e: "js_escape s = (out, ch, k)" by (cases "js_escape s")
    have "length (fst (js_loop (drop k s))) \<le> length (drop k s)" using 2(1) True e by simp
    with True e js_escape_out [of s] js_escape_consumes [of s] show ?thesis by (simp add: js_loop.simps(2))
  next
    case False
    with 2 show ?thesis by (simp add: js_loop.simps(2))
  qed
qed simp

section \<open>The changed flag of urlDecodeUni\<close>

text \<open>A decoded escape makes the output shorter and a decoded \<open>+\<close> differs in place.\<close>

lemma uni_decode_loop_changed: "snd (uni_decode_loop s) \<longleftrightarrow> fst (uni_decode_loop s) \<noteq> s"
proof (induction s rule: length_induct)
  case (1 s)
  show ?case
  proof (cases "s = []")
    case False
    then show ?thesis
    proof (cases rule: uni_decode_cases)
      case (copy a b)
      with 1 [rule_format, of b] show ?thesis by simp
    next
      case (plus b)
      then show ?thesis by simp
    next
      case (escape x b)
      with length_uni_decode_loop [of b] have "length (fst (uni_decode_loop s)) < length s" by simp
      with escape show ?thesis by auto
    qed
  qed simp
qed

section \<open>Octal escapes of jsDecode\<close>

text \<open>
  The octal branch copies the backslash itself into the buffer it parses, so the parse always
  fails and the escape decodes to NUL, whatever its digits; and it leaves the last digit of a
  three-digit escape in the output.
\<close>

lemma parse_int_octal8_backslash: "parse_int_octal8 (CHR 92 # s) = 0"
  by (simp add: parse_int_octal8_def isodigit_def char_le_byte)

lemma js_escape_octal:
  assumes "isodigit c"
  shows "fst (js_escape (c # s)) = [CHR 0x00]"
proof -
  have c: "c \<noteq> CHR ''u''" "c \<noteq> CHR ''x''" using assms by (auto simp: isodigit_def char_le_byte)
  have "1 \<le> js_octal_loop (CHR 92 # c # s) 0" using js_octal_loop_pos [of "c # s"] by simp
  moreover have "parse_int_octal8 (take n (CHR 92 # c # s)) = 0" if "1 \<le> n" for n
    using that by (cases n) (simp_all add: parse_int_octal8_backslash)
  moreover have "parse_int_octal8 [CHR 92, c] = 0" by (rule parse_int_octal8_backslash)
  ultimately show ?thesis
    using assms c by (simp add: js_escape_def Let_def byte_eval)
qed

section \<open>Decoding what urlEncode wrote\<close>

lemma hexNibble_val: "hexNibble c = (if ValidHex c then int (hex_val c) else - 1)"
  by (auto simp: hexNibble_def ValidHex_def hexDigitToByte_def char_le_byte)

lemma uni_decode_plain:
  "\<forall>c \<in> set a. \<not> is_url_special c \<Longrightarrow> fst (uni_decode_loop (a @ b)) = a @ fst (uni_decode_loop b)"
proof (induction a)
  case (Cons c a)
  let ?p = "\<lambda>x. \<not> is_url_special x"
  have a: "\<forall>c \<in> set a. ?p c" and c: "?p c" using Cons.prems by auto
  define run where "run = takeWhile ?p (a @ b)"
  have "fst (uni_decode_loop (c # a @ b)) = c # run @ fst (uni_decode_loop (drop (length run) (a @ b)))"
    using c by (simp add: uni_decode_loop.simps(2) Let_def run_def)
  moreover have "run @ fst (uni_decode_loop (drop (length run) (a @ b))) = fst (uni_decode_loop (a @ b))"
  proof (cases "a @ b = [] \<or> is_url_special (hd (a @ b))")
    case True
    then have "run = []" by (cases "a @ b") (auto simp: run_def)
    then show ?thesis by simp
  next
    case False
    then obtain d t where dt: "a @ b = d # t" "?p d" by (cases "a @ b") auto
    then have "run = d # takeWhile ?p t" by (simp add: run_def)
    with dt show ?thesis by (simp add: uni_decode_loop.simps(2) Let_def)
  qed
  ultimately show ?case using Cons.IH [OF a] by simp
qed simp

lemma uni_decode_encode_byte:
  "fst (uni_decode_loop (fst (url_encode_byte c) @ s)) = c # fst (uni_decode_loop s)"
proof (cases "snd (url_encode_byte c)")
  case False
  then have "\<not> is_url_special c" "fst (url_encode_byte c) = [c]"
    by (auto simp: url_encode_byte_def is_url_special_def split: if_splits)
  then show ?thesis using uni_decode_plain [of "[c]" s] by simp
next
  case True
  have "hex_digit n \<noteq> CHR ''u''" "hex_digit n \<noteq> CHR ''U''" if "n < 16" for n
    using ValidHex_hex_digit [OF that] by (auto simp: ValidHex_byte)
  then have "percent_escape (hex_digit (byte c div 16) # hex_digit (byte c mod 16) # s) = Some (c, s)"
    "hex_digit (byte c div 16) \<noteq> CHR ''u''" "hex_digit (byte c div 16) \<noteq> CHR ''U''"
    by (simp_all add: percent_escape_def hexNibble_val byte_nibbles)
  with True show ?thesis
    by (auto simp: url_encode_byte_def uni_decode_loop.simps(2) is_url_special_def split: if_splits)
qed

lemma uni_decode_encode: "fst (uni_decode_loop (fst (doURLEncode s))) = s"
  by (induction s) (simp_all add: doURLEncode_def uni_decode_encode_byte)

section \<open>Properties\<close>

lemma emit_shortcut:
  assumes "\<And>a b. CHR 92 \<notin> set a \<Longrightarrow> f (a @ b) = emit a False (f b)" "f [] = ([], False)"
  shows "(case index_byte s (CHR 92) of Some i \<Rightarrow> emit (take i s) False (f (drop i s)) | None \<Rightarrow> (s, False)) = f s"
proof (cases "index_byte s (CHR 92)")
  case None
  then have "CHR 92 \<notin> set s" by (simp add: index_byte_None)
  with assms(1) [of s "[]"] assms(2) None show ?thesis by (simp add: emit_def)
next
  case (Some i)
  with assms(1) [of "take i s" "drop i s"] index_byte_Some [OF Some] show ?thesis by simp
qed

lemma emit_emit: "emit a c (emit b d r) = emit (a @ b) (c \<or> d) r"
  by (simp add: emit_def)

lemma escape_loops_plain:
  "CHR 92 \<notin> set a \<Longrightarrow> js_loop (a @ b) = emit a False (js_loop b)"
  "CHR 92 \<notin> set a \<Longrightarrow> escape_seq_loop (a @ b) = emit a False (escape_seq_loop b)"
  by (induction a) (auto simp: js_loop.simps(2) escape_seq_loop.simps(2) emit_def)

lemma jsDecode_loop: "fst (jsDecode s) = fst (js_loop s)"
  using emit_shortcut [of js_loop s, OF escape_loops_plain(1) js_loop.simps(1), symmetric]
  by (cases "index_byte s (CHR 92)") (simp_all add: jsDecode_def doJsDecode_def)

lemma escapeSeqDecode_loop: "fst (escapeSeqDecode s) = fst (escape_seq_loop s)"
  using emit_shortcut [of escape_seq_loop s, OF escape_loops_plain(2) escape_seq_loop.simps(1), symmetric]
  by (cases "index_byte s (CHR 92)") (simp_all add: escapeSeqDecode_def doEscapeSeqDecode_def)

lemma urlDecodeUni_loop: "fst (urlDecodeUni s) = fst (uni_decode_loop s)"
  using first_index_shortcut [of is_url_special "\<lambda>s. fst (uni_decode_loop s)" s, OF uni_decode_plain]
  by (simp add: urlDecodeUni_def inplaceUniDecode_def split: option.splits)

text \<open>
  C32: \<open>urlDecodeUni\<close> reports a change exactly when its output differs from its input, and it
  undoes \<open>urlEncode\<close>.
\<close>

theorem urlDecodeUni_changed:
  "(fst (snd (urlDecodeUni data)) \<longleftrightarrow> fst (urlDecodeUni data) \<noteq> data)
   \<and> fst (urlDecodeUni (fst (urlEncode s))) = s"
proof
  show "fst (snd (urlDecodeUni data)) \<longleftrightarrow> fst (urlDecodeUni data) \<noteq> data"
  proof (cases "first_index is_url_special data")
    case (Some i)
    have "fst (inplaceUniDecode data i) \<noteq> data \<longleftrightarrow> fst (uni_decode_loop (drop i data)) \<noteq> drop i data"
      by (simp add: inplaceUniDecode_def) (metis append_take_drop_id same_append_eq)
    with Some uni_decode_loop_changed [of "drop i data"] show ?thesis
      by (simp add: urlDecodeUni_def inplaceUniDecode_def)
  qed (simp add: urlDecodeUni_def)
  show "fst (urlDecodeUni (fst (urlEncode s))) = s"
    by (simp add: urlDecodeUni_loop urlEncode_def uni_decode_encode)
qed

text \<open>
  the decoders that overwrite a copy of their input never write past it: their output is
  not longer than the input.
\<close>

theorem inplace_decoders_bounded:
  "length (fst (urlDecode s)) \<le> length s \<and> length (fst (urlDecodeUni s)) \<le> length s
   \<and> length (fst (jsDecode s)) \<le> length s \<and> length (fst (escapeSeqDecode s)) \<le> length s"
  by (simp add: urlDecode_loop length_url_decode_loop urlDecodeUni_loop length_uni_decode_loop
      jsDecode_loop length_js_loop escapeSeqDecode_loop length_escape_seq_loop)

text \<open>
  \<open>jsDecode\<close> decodes an octal escape to the byte NUL whatever its digits, where the
  comment announces the byte the digits denote.
\<close>

theorem jsDecode_octal:
  assumes "isodigit c"
  shows "\<exists>rest. fst (jsDecode (CHR 92 # c # s)) = CHR 0x00 # rest"
  using js_escape_octal [OF assms, of s]
  by (simp add: jsDecode_loop js_loop.simps(2) split_beta)

theorem jsDecode_octal_witness:
  "\<exists>rest. fst (jsDecode (CHR 92 # ''101'')) = CHR 0x00 # rest"
  using jsDecode_octal [of "CHR ''1''" "''01''"] by (simp add: isodigit_def less_eq_char_def)

end
