(* ===== verification/Variables.thy ===== *)
theory Variables
  imports Utf8
begin

text \<open>
  The variables of the rule language: \<open>internal/variables/variables.go\<close> and the generated
  tables of \<open>variablesmap.gen.go\<close> (names, selectability, parsing). A
  \<open>RuleVariable\<close> is a byte, as in the code, and its constants are numbered by
  \<open>iota\<close>; \<open>variables.X\<close> is written \<open>V_X\<close>.
\<close>

type_synonym rule_variable = nat

abbreviation (input) V_Unknown :: rule_variable where "V_Unknown \<equiv> 0"
abbreviation (input) V_ResponseContentType :: rule_variable where "V_ResponseContentType \<equiv> 1"
abbreviation (input) V_UniqueID :: rule_variable where "V_UniqueID \<equiv> 2"
abbreviation (input) V_ArgsCombinedSize :: rule_variable where "V_ArgsCombinedSize \<equiv> 3"
abbreviation (input) V_FilesCombinedSize :: rule_variable where "V_FilesCombinedSize \<equiv> 4"
abbreviation (input) V_FullRequestLength :: rule_variable where "V_FullRequestLength \<equiv> 5"
abbreviation (input) V_InboundDataError :: rule_variable where "V_InboundDataError \<equiv> 6"
abbreviation (input) V_MatchedVar :: rule_variable where "V_MatchedVar \<equiv> 7"
abbreviation (input) V_MatchedVarName :: rule_variable where "V_MatchedVarName \<equiv> 8"
abbreviation (input) V_MultipartDataAfter :: rule_variable where "V_MultipartDataAfter \<equiv> 9"
abbreviation (input) V_OutboundDataError :: rule_variable where "V_OutboundDataError \<equiv> 10"
abbreviation (input) V_QueryString :: rule_variable where "V_QueryString \<equiv> 11"
abbreviation (input) V_RemoteAddr :: rule_variable where "V_RemoteAddr \<equiv> 12"
abbreviation (input) V_RemoteHost :: rule_variable where "V_RemoteHost \<equiv> 13"
abbreviation (input) V_RemotePort :: rule_variable where "V_RemotePort \<equiv> 14"
abbreviation (input) V_ReqbodyError :: rule_variable where "V_ReqbodyError \<equiv> 15"
abbreviation (input) V_ReqbodyErrorMsg :: rule_variable where "V_ReqbodyErrorMsg \<equiv> 16"
abbreviation (input) V_ReqbodyProcessorError :: rule_variable where "V_ReqbodyProcessorError \<equiv> 17"
abbreviation (input) V_ReqbodyProcessorErrorMsg :: rule_variable where "V_ReqbodyProcessorErrorMsg \<equiv> 18"
abbreviation (input) V_ReqbodyProcessor :: rule_variable where "V_ReqbodyProcessor \<equiv> 19"
abbreviation (input) V_RequestBasename :: rule_variable where "V_RequestBasename \<equiv> 20"
abbreviation (input) V_RequestBody :: rule_variable where "V_RequestBody \<equiv> 21"
abbreviation (input) V_RequestBodyLength :: rule_variable where "V_RequestBodyLength \<equiv> 22"
abbreviation (input) V_RequestFilename :: rule_variable where "V_RequestFilename \<equiv> 23"
abbreviation (input) V_RequestLine :: rule_variable where "V_RequestLine \<equiv> 24"
abbreviation (input) V_RequestMethod :: rule_variable where "V_RequestMethod \<equiv> 25"
abbreviation (input) V_RequestProtocol :: rule_variable where "V_RequestProtocol \<equiv> 26"
abbreviation (input) V_RequestURI :: rule_variable where "V_RequestURI \<equiv> 27"
abbreviation (input) V_RequestURIRaw :: rule_variable where "V_RequestURIRaw \<equiv> 28"
abbreviation (input) V_ResponseBody :: rule_variable where "V_ResponseBody \<equiv> 29"
abbreviation (input) V_ResponseContentLength :: rule_variable where "V_ResponseContentLength \<equiv> 30"
abbreviation (input) V_ResponseProtocol :: rule_variable where "V_ResponseProtocol \<equiv> 31"
abbreviation (input) V_ResponseStatus :: rule_variable where "V_ResponseStatus \<equiv> 32"
abbreviation (input) V_ServerAddr :: rule_variable where "V_ServerAddr \<equiv> 33"
abbreviation (input) V_ServerName :: rule_variable where "V_ServerName \<equiv> 34"
abbreviation (input) V_ServerPort :: rule_variable where "V_ServerPort \<equiv> 35"
abbreviation (input) V_HighestSeverity :: rule_variable where "V_HighestSeverity \<equiv> 36"
abbreviation (input) V_StatusLine :: rule_variable where "V_StatusLine \<equiv> 37"
abbreviation (input) V_Duration :: rule_variable where "V_Duration \<equiv> 38"
abbreviation (input) V_ResponseHeadersNames :: rule_variable where "V_ResponseHeadersNames \<equiv> 39"
abbreviation (input) V_RequestHeadersNames :: rule_variable where "V_RequestHeadersNames \<equiv> 40"
abbreviation (input) V_Args :: rule_variable where "V_Args \<equiv> 41"
abbreviation (input) V_ArgsGet :: rule_variable where "V_ArgsGet \<equiv> 42"
abbreviation (input) V_ArgsPost :: rule_variable where "V_ArgsPost \<equiv> 43"
abbreviation (input) V_ArgsPath :: rule_variable where "V_ArgsPath \<equiv> 44"
abbreviation (input) V_FilesSizes :: rule_variable where "V_FilesSizes \<equiv> 45"
abbreviation (input) V_FilesNames :: rule_variable where "V_FilesNames \<equiv> 46"
abbreviation (input) V_FilesTmpContent :: rule_variable where "V_FilesTmpContent \<equiv> 47"
abbreviation (input) V_MultipartFilename :: rule_variable where "V_MultipartFilename \<equiv> 48"
abbreviation (input) V_MultipartName :: rule_variable where "V_MultipartName \<equiv> 49"
abbreviation (input) V_MatchedVarsNames :: rule_variable where "V_MatchedVarsNames \<equiv> 50"
abbreviation (input) V_MatchedVars :: rule_variable where "V_MatchedVars \<equiv> 51"
abbreviation (input) V_Files :: rule_variable where "V_Files \<equiv> 52"
abbreviation (input) V_RequestCookies :: rule_variable where "V_RequestCookies \<equiv> 53"
abbreviation (input) V_RequestHeaders :: rule_variable where "V_RequestHeaders \<equiv> 54"
abbreviation (input) V_ResponseHeaders :: rule_variable where "V_ResponseHeaders \<equiv> 55"
abbreviation (input) V_ResBodyProcessor :: rule_variable where "V_ResBodyProcessor \<equiv> 56"
abbreviation (input) V_Geo :: rule_variable where "V_Geo \<equiv> 57"
abbreviation (input) V_RequestCookiesNames :: rule_variable where "V_RequestCookiesNames \<equiv> 58"
abbreviation (input) V_FilesTmpNames :: rule_variable where "V_FilesTmpNames \<equiv> 59"
abbreviation (input) V_ArgsNames :: rule_variable where "V_ArgsNames \<equiv> 60"
abbreviation (input) V_ArgsGetNames :: rule_variable where "V_ArgsGetNames \<equiv> 61"
abbreviation (input) V_ArgsPostNames :: rule_variable where "V_ArgsPostNames \<equiv> 62"
abbreviation (input) V_TX :: rule_variable where "V_TX \<equiv> 63"
abbreviation (input) V_Rule :: rule_variable where "V_Rule \<equiv> 64"
abbreviation (input) V_JSON :: rule_variable where "V_JSON \<equiv> 65"
abbreviation (input) V_Env :: rule_variable where "V_Env \<equiv> 66"
abbreviation (input) V_UrlencodedError :: rule_variable where "V_UrlencodedError \<equiv> 67"
abbreviation (input) V_ResponseArgs :: rule_variable where "V_ResponseArgs \<equiv> 68"
abbreviation (input) V_ResponseXML :: rule_variable where "V_ResponseXML \<equiv> 69"
abbreviation (input) V_RequestXML :: rule_variable where "V_RequestXML \<equiv> 70"
abbreviation (input) V_XML :: rule_variable where "V_XML \<equiv> 71"
abbreviation (input) V_MultipartPartHeaders :: rule_variable where "V_MultipartPartHeaders \<equiv> 72"
abbreviation (input) V_ResBodyError :: rule_variable where "V_ResBodyError \<equiv> 73"
abbreviation (input) V_ResBodyErrorMsg :: rule_variable where "V_ResBodyErrorMsg \<equiv> 74"
abbreviation (input) V_ResBodyProcessorError :: rule_variable where "V_ResBodyProcessorError \<equiv> 75"
abbreviation (input) V_ResBodyProcessorErrorMsg :: rule_variable where "V_ResBodyProcessorErrorMsg \<equiv> 76"
abbreviation (input) V_Time :: rule_variable where "V_Time \<equiv> 77"
abbreviation (input) V_TimeDay :: rule_variable where "V_TimeDay \<equiv> 78"
abbreviation (input) V_TimeEpoch :: rule_variable where "V_TimeEpoch \<equiv> 79"
abbreviation (input) V_TimeHour :: rule_variable where "V_TimeHour \<equiv> 80"
abbreviation (input) V_TimeMin :: rule_variable where "V_TimeMin \<equiv> 81"
abbreviation (input) V_TimeMon :: rule_variable where "V_TimeMon \<equiv> 82"
abbreviation (input) V_TimeSec :: rule_variable where "V_TimeSec \<equiv> 83"
abbreviation (input) V_TimeWday :: rule_variable where "V_TimeWday \<equiv> 84"
abbreviation (input) V_TimeYear :: rule_variable where "V_TimeYear \<equiv> 85"
abbreviation (input) V_AuthType :: rule_variable where "V_AuthType \<equiv> 86"
abbreviation (input) V_FullRequest :: rule_variable where "V_FullRequest \<equiv> 87"
abbreviation (input) V_MultipartBoundaryQuoted :: rule_variable where "V_MultipartBoundaryQuoted \<equiv> 88"
abbreviation (input) V_MultipartBoundaryWhitespace :: rule_variable where "V_MultipartBoundaryWhitespace \<equiv> 89"
abbreviation (input) V_MultipartCrlfLfLines :: rule_variable where "V_MultipartCrlfLfLines \<equiv> 90"
abbreviation (input) V_MultipartDataBefore :: rule_variable where "V_MultipartDataBefore \<equiv> 91"
abbreviation (input) V_MultipartFileLimitExceeded :: rule_variable where "V_MultipartFileLimitExceeded \<equiv> 92"
abbreviation (input) V_MultipartHeaderFolding :: rule_variable where "V_MultipartHeaderFolding \<equiv> 93"
abbreviation (input) V_MultipartInvalidHeaderFolding :: rule_variable where "V_MultipartInvalidHeaderFolding \<equiv> 94"
abbreviation (input) V_MultipartInvalidPart :: rule_variable where "V_MultipartInvalidPart \<equiv> 95"
abbreviation (input) V_MultipartInvalidQuoting :: rule_variable where "V_MultipartInvalidQuoting \<equiv> 96"
abbreviation (input) V_MultipartLfLine :: rule_variable where "V_MultipartLfLine \<equiv> 97"
abbreviation (input) V_MultipartMissingSemicolon :: rule_variable where "V_MultipartMissingSemicolon \<equiv> 98"
abbreviation (input) V_MultipartStrictError :: rule_variable where "V_MultipartStrictError \<equiv> 99"
abbreviation (input) V_MultipartUnmatchedBoundary :: rule_variable where "V_MultipartUnmatchedBoundary \<equiv> 100"
abbreviation (input) V_PathInfo :: rule_variable where "V_PathInfo \<equiv> 101"
abbreviation (input) V_Sessionid :: rule_variable where "V_Sessionid \<equiv> 102"
abbreviation (input) V_Userid :: rule_variable where "V_Userid \<equiv> 103"
abbreviation (input) V_IP :: rule_variable where "V_IP \<equiv> 104"

text \<open>Method \<open>Name\<close>: the names in the order of the constants.\<close>

definition variable_names :: "string list" where
  "variable_names =
    [''UNKNOWN'', ''RESPONSE_CONTENT_TYPE'', ''UNIQUE_ID'', ''ARGS_COMBINED_SIZE'',
     ''FILES_COMBINED_SIZE'', ''FULL_REQUEST_LENGTH'', ''INBOUND_DATA_ERROR'',
     ''MATCHED_VAR'', ''MATCHED_VAR_NAME'', ''MULTIPART_DATA_AFTER'',
     ''OUTBOUND_DATA_ERROR'', ''QUERY_STRING'', ''REMOTE_ADDR'', ''REMOTE_HOST'',
     ''REMOTE_PORT'', ''REQBODY_ERROR'', ''REQBODY_ERROR_MSG'', ''REQBODY_PROCESSOR_ERROR'',
     ''REQBODY_PROCESSOR_ERROR_MSG'', ''REQBODY_PROCESSOR'', ''REQUEST_BASENAME'',
     ''REQUEST_BODY'', ''REQUEST_BODY_LENGTH'', ''REQUEST_FILENAME'', ''REQUEST_LINE'',
     ''REQUEST_METHOD'', ''REQUEST_PROTOCOL'', ''REQUEST_URI'', ''REQUEST_URI_RAW'',
     ''RESPONSE_BODY'', ''RESPONSE_CONTENT_LENGTH'', ''RESPONSE_PROTOCOL'',
     ''RESPONSE_STATUS'', ''SERVER_ADDR'', ''SERVER_NAME'', ''SERVER_PORT'',
     ''HIGHEST_SEVERITY'', ''STATUS_LINE'', ''DURATION'', ''RESPONSE_HEADERS_NAMES'',
     ''REQUEST_HEADERS_NAMES'', ''ARGS'', ''ARGS_GET'', ''ARGS_POST'', ''ARGS_PATH'',
     ''FILES_SIZES'', ''FILES_NAMES'', ''FILES_TMP_CONTENT'', ''MULTIPART_FILENAME'',
     ''MULTIPART_NAME'', ''MATCHED_VARS_NAMES'', ''MATCHED_VARS'', ''FILES'',
     ''REQUEST_COOKIES'', ''REQUEST_HEADERS'', ''RESPONSE_HEADERS'', ''RES_BODY_PROCESSOR'',
     ''GEO'', ''REQUEST_COOKIES_NAMES'', ''FILES_TMPNAMES'', ''ARGS_NAMES'',
     ''ARGS_GET_NAMES'', ''ARGS_POST_NAMES'', ''TX'', ''RULE'', ''JSON'', ''ENV'',
     ''URLENCODED_ERROR'', ''RESPONSE_ARGS'', ''RESPONSE_XML'', ''REQUEST_XML'', ''XML'',
     ''MULTIPART_PART_HEADERS'', ''RES_BODY_ERROR'', ''RES_BODY_ERROR_MSG'',
     ''RES_BODY_PROCESSOR_ERROR'', ''RES_BODY_PROCESSOR_ERROR_MSG'', ''TIME'', ''TIME_DAY'',
     ''TIME_EPOCH'', ''TIME_HOUR'', ''TIME_MIN'', ''TIME_MON'', ''TIME_SEC'', ''TIME_WDAY'',
     ''TIME_YEAR'', ''AUTH_TYPE'', ''FULL_REQUEST'', ''MULTIPART_BOUNDARY_QUOTED'',
     ''MULTIPART_BOUNDARY_WHITESPACE'', ''MULTIPART_CRLF_LF_LINES'',
     ''MULTIPART_DATA_BEFORE'', ''MULTIPART_FILE_LIMIT_EXCEEDED'',
     ''MULTIPART_HEADER_FOLDING'', ''MULTIPART_INVALID_HEADER_FOLDING'',
     ''MULTIPART_INVALID_PART'', ''MULTIPART_INVALID_QUOTING'', ''MULTIPART_LF_LINE'',
     ''MULTIPART_MISSING_SEMICOLON'', ''MULTIPART_STRICT_ERROR'',
     ''MULTIPART_UNMATCHED_BOUNDARY'', ''PATH_INFO'', ''SESSIONID'', ''USERID'', ''IP'']"

definition variable_name :: "rule_variable \<Rightarrow> string" where
  "variable_name v = (if v < length variable_names then variable_names ! v else ''INVALID_VARIABLE'')"

text \<open>Method \<open>CanBeSelected\<close>.\<close>

definition CanBeSelected :: "rule_variable \<Rightarrow> bool" where
  "CanBeSelected v = (v \<in> set
    [V_ResponseHeadersNames, V_RequestHeadersNames, V_Args, V_ArgsGet, V_ArgsPost,
     V_ArgsPath, V_FilesSizes, V_FilesNames, V_FilesTmpContent, V_MultipartFilename,
     V_MultipartName, V_MatchedVarsNames, V_MatchedVars, V_Files, V_RequestCookies,
     V_RequestHeaders, V_ResponseHeaders, V_Geo, V_RequestCookiesNames, V_FilesTmpNames,
     V_ArgsNames, V_ArgsGetNames, V_ArgsPostNames, V_TX, V_Rule, V_JSON, V_Env,
     V_ResponseArgs, V_ResponseXML, V_RequestXML, V_XML, V_MultipartPartHeaders])"

text \<open>The table \<open>rulemapRev\<close>.\<close>

definition rulemapRev :: "(string \<times> rule_variable) list" where
  "rulemapRev =
    [(''UNKNOWN'', V_Unknown), (''RESPONSE_CONTENT_TYPE'', V_ResponseContentType),
     (''UNIQUE_ID'', V_UniqueID), (''ARGS_COMBINED_SIZE'', V_ArgsCombinedSize),
     (''FILES_COMBINED_SIZE'', V_FilesCombinedSize),
     (''FULL_REQUEST_LENGTH'', V_FullRequestLength),
     (''INBOUND_DATA_ERROR'', V_InboundDataError), (''MATCHED_VAR'', V_MatchedVar),
     (''MATCHED_VAR_NAME'', V_MatchedVarName),
     (''MULTIPART_DATA_AFTER'', V_MultipartDataAfter),
     (''OUTBOUND_DATA_ERROR'', V_OutboundDataError), (''QUERY_STRING'', V_QueryString),
     (''REMOTE_ADDR'', V_RemoteAddr), (''REMOTE_HOST'', V_RemoteHost),
     (''REMOTE_PORT'', V_RemotePort), (''REQBODY_ERROR'', V_ReqbodyError),
     (''REQBODY_ERROR_MSG'', V_ReqbodyErrorMsg),
     (''REQBODY_PROCESSOR_ERROR'', V_ReqbodyProcessorError),
     (''REQBODY_PROCESSOR_ERROR_MSG'', V_ReqbodyProcessorErrorMsg),
     (''REQBODY_PROCESSOR'', V_ReqbodyProcessor), (''REQUEST_BASENAME'', V_RequestBasename),
     (''REQUEST_BODY'', V_RequestBody), (''REQUEST_BODY_LENGTH'', V_RequestBodyLength),
     (''REQUEST_FILENAME'', V_RequestFilename), (''REQUEST_LINE'', V_RequestLine),
     (''REQUEST_METHOD'', V_RequestMethod), (''REQUEST_PROTOCOL'', V_RequestProtocol),
     (''REQUEST_URI'', V_RequestURI), (''REQUEST_URI_RAW'', V_RequestURIRaw),
     (''RESPONSE_BODY'', V_ResponseBody),
     (''RESPONSE_CONTENT_LENGTH'', V_ResponseContentLength),
     (''RESPONSE_PROTOCOL'', V_ResponseProtocol), (''RESPONSE_STATUS'', V_ResponseStatus),
     (''SERVER_ADDR'', V_ServerAddr), (''SERVER_NAME'', V_ServerName),
     (''SERVER_PORT'', V_ServerPort), (''HIGHEST_SEVERITY'', V_HighestSeverity),
     (''STATUS_LINE'', V_StatusLine), (''DURATION'', V_Duration),
     (''RESPONSE_HEADERS_NAMES'', V_ResponseHeadersNames),
     (''REQUEST_HEADERS_NAMES'', V_RequestHeadersNames), (''ARGS'', V_Args),
     (''ARGS_GET'', V_ArgsGet), (''ARGS_POST'', V_ArgsPost), (''ARGS_PATH'', V_ArgsPath),
     (''FILES_SIZES'', V_FilesSizes), (''FILES_NAMES'', V_FilesNames),
     (''FILES_TMP_CONTENT'', V_FilesTmpContent),
     (''MULTIPART_FILENAME'', V_MultipartFilename), (''MULTIPART_NAME'', V_MultipartName),
     (''MATCHED_VARS_NAMES'', V_MatchedVarsNames), (''MATCHED_VARS'', V_MatchedVars),
     (''FILES'', V_Files), (''REQUEST_COOKIES'', V_RequestCookies),
     (''REQUEST_HEADERS'', V_RequestHeaders), (''RESPONSE_HEADERS'', V_ResponseHeaders),
     (''RES_BODY_PROCESSOR'', V_ResBodyProcessor), (''GEO'', V_Geo),
     (''REQUEST_COOKIES_NAMES'', V_RequestCookiesNames),
     (''FILES_TMPNAMES'', V_FilesTmpNames), (''ARGS_NAMES'', V_ArgsNames),
     (''ARGS_GET_NAMES'', V_ArgsGetNames), (''ARGS_POST_NAMES'', V_ArgsPostNames),
     (''TX'', V_TX), (''RULE'', V_Rule), (''JSON'', V_JSON), (''ENV'', V_Env),
     (''URLENCODED_ERROR'', V_UrlencodedError), (''RESPONSE_ARGS'', V_ResponseArgs),
     (''RESPONSE_XML'', V_ResponseXML), (''REQUEST_XML'', V_RequestXML), (''XML'', V_XML),
     (''MULTIPART_PART_HEADERS'', V_MultipartPartHeaders),
     (''RES_BODY_ERROR'', V_ResBodyError), (''RES_BODY_ERROR_MSG'', V_ResBodyErrorMsg),
     (''RES_BODY_PROCESSOR_ERROR'', V_ResBodyProcessorError),
     (''RES_BODY_PROCESSOR_ERROR_MSG'', V_ResBodyProcessorErrorMsg), (''TIME'', V_Time),
     (''TIME_DAY'', V_TimeDay), (''TIME_EPOCH'', V_TimeEpoch), (''TIME_HOUR'', V_TimeHour),
     (''TIME_MIN'', V_TimeMin), (''TIME_MON'', V_TimeMon), (''TIME_SEC'', V_TimeSec),
     (''TIME_WDAY'', V_TimeWday), (''TIME_YEAR'', V_TimeYear), (''AUTH_TYPE'', V_AuthType),
     (''FULL_REQUEST'', V_FullRequest),
     (''MULTIPART_BOUNDARY_QUOTED'', V_MultipartBoundaryQuoted),
     (''MULTIPART_BOUNDARY_WHITESPACE'', V_MultipartBoundaryWhitespace),
     (''MULTIPART_CRLF_LF_LINES'', V_MultipartCrlfLfLines),
     (''MULTIPART_DATA_BEFORE'', V_MultipartDataBefore),
     (''MULTIPART_FILE_LIMIT_EXCEEDED'', V_MultipartFileLimitExceeded),
     (''MULTIPART_HEADER_FOLDING'', V_MultipartHeaderFolding),
     (''MULTIPART_INVALID_HEADER_FOLDING'', V_MultipartInvalidHeaderFolding),
     (''MULTIPART_INVALID_PART'', V_MultipartInvalidPart),
     (''MULTIPART_INVALID_QUOTING'', V_MultipartInvalidQuoting),
     (''MULTIPART_LF_LINE'', V_MultipartLfLine),
     (''MULTIPART_MISSING_SEMICOLON'', V_MultipartMissingSemicolon),
     (''MULTIPART_STRICT_ERROR'', V_MultipartStrictError),
     (''MULTIPART_UNMATCHED_BOUNDARY'', V_MultipartUnmatchedBoundary),
     (''PATH_INFO'', V_PathInfo), (''SESSIONID'', V_Sessionid), (''USERID'', V_Userid),
     (''IP'', V_IP)]"

definition Parse :: "case_table \<Rightarrow> string \<Rightarrow> rule_variable result" where
  "Parse ct v = (case alist_get rulemapRev (to_upper ct v) of
      Some r \<Rightarrow> Inr r
    | None \<Rightarrow> Inl (Error ''unknown variable''))"

section \<open>Lemmas\<close>

lemma length_variable_names: "length variable_names = 105"
  by (simp add: variable_names_def)

lemma rulemapRev_zip: "rulemapRev = zip variable_names [0..<105]"
  by (simp add: rulemapRev_def variable_names_def upt_rec)

lemma distinct_variable_names: "distinct variable_names"
  by (simp add: variable_names_def)

lemma upper_variable_names:
  "list_all (list_all (\<lambda>c. is_ascii c \<and> upper_byte c = c)) variable_names"
  by (simp add: variable_names_def is_ascii_def upper_byte_def is_lower_def less_eq_char_def)

lemma alist_get_zip:
  "distinct ks \<Longrightarrow> length ks = length vs \<Longrightarrow> i < length ks \<Longrightarrow> alist_get (zip ks vs) (ks ! i) = Some (vs ! i)"
proof (induction ks arbitrary: vs i)
  case (Cons k ks)
  then show ?case by (cases vs; cases i) auto
qed simp

lemma alist_get_rulemapRev:
  "v < 105 \<Longrightarrow> alist_get rulemapRev (variable_names ! v) = Some v"
  using alist_get_zip [OF distinct_variable_names, of "[0..<105]" v]
  by (simp add: rulemapRev_zip length_variable_names)

text \<open>A name is found whatever the case it is written in.\<close>

lemma Parse_upper_name:
  assumes "v < 105" "to_upper ct s = variable_name v"
  shows "Parse ct s = Inr v"
  using assms by (simp add: Parse_def variable_name_def length_variable_names alist_get_rulemapRev)

lemma to_upper_variable_name:
  assumes "v < 105"
  shows "to_upper ct (variable_name v) = variable_name v"
proof -
  have "variable_names ! v \<in> set variable_names" using assms by (simp add: length_variable_names)
  then have "list_all (\<lambda>c. is_ascii c \<and> upper_byte c = c) (variable_names ! v)"
    using upper_variable_names by (simp add: list_all_iff)
  then show ?thesis
    using assms by (simp add: variable_name_def length_variable_names to_upper_def list_all_iff map_idI)
qed

section \<open>Properties\<close>

text \<open>
  the name of every variable parses back to it, in whatever case it is written, and
  different variables have different names.
\<close>

theorem Parse_Name:
  assumes "v < 105" "to_upper ct s = variable_name v"
  shows "Parse ct s = Inr v \<and> Parse ct (variable_name v) = Inr v"
  using assms Parse_upper_name [of v ct] to_upper_variable_name [of v ct] by simp

theorem Parse_Name_witness:
  "Parse (\<lambda>r. r) ''args'' = Inr V_Args"
proof -
  have "to_upper (\<lambda>r. r) ''args'' = variable_name V_Args"
    by (simp add: to_upper_def is_ascii_def upper_byte_def is_lower_def less_eq_char_def byte_eval
        variable_name_def variable_names_def)
  then show ?thesis using Parse_Name [of V_Args "\<lambda>r. r" "''args''"] by simp
qed

end
