(* ===== verification/Collections.thy ===== *)
theory Collections
  imports Strings_Util Variables
begin

text \<open>
  The collections of \<open>internal/collections\<close>: \<open>Map\<close> (a multi-valued map with original
  and normalised keys), \<open>NamedCollection\<close> and its name view, the concatenating and the size
  view, \<open>Single\<close> and \<open>noop\<close>. The data of a \<open>Map\<close> is an association list from the
  normalised key to the stored values; a regular expression is its match function.
\<close>

type_synonym regex = "string \<Rightarrow> bool"

text \<open>\<open>corazarules.MatchData\<close> and \<open>collections.Match\<close>.\<close>

record match_data =
  md_Variable :: rule_variable
  md_Key :: string
  md_Value :: string
  md_Message :: string
  md_Data :: string
  md_ChainLevel :: int

definition new_match_data :: "rule_variable \<Rightarrow> string \<Rightarrow> string \<Rightarrow> match_data" where
  "new_match_data v k x =
     \<lparr>md_Variable = v, md_Key = k, md_Value = x, md_Message = [], md_Data = [], md_ChainLevel = 0\<rparr>"

record match =
  Variable :: rule_variable
  Key :: string
  Value :: string

section \<open>Map\<close>

record keyValue =
  kv_key :: string
  kv_value :: string

record coll_map =
  isCaseSensitive :: bool
  m_data :: "(string \<times> keyValue list) list"
  m_variable :: rule_variable

definition NewMap :: "rule_variable \<Rightarrow> coll_map" where
  "NewMap v = \<lparr>isCaseSensitive = False, m_data = [], m_variable = v\<rparr>"

definition NewCaseSensitiveKeyMap :: "rule_variable \<Rightarrow> coll_map" where
  "NewCaseSensitiveKeyMap v = \<lparr>isCaseSensitive = True, m_data = [], m_variable = v\<rparr>"

text \<open>\<open>if !c.isCaseSensitive { key = strings.ToLower(key) }\<close>\<close>

definition norm_key :: "case_table \<Rightarrow> coll_map \<Rightarrow> string \<Rightarrow> string" where
  "norm_key ct c key = (if isCaseSensitive c then key else to_lower ct key)"

text \<open>\<open>c.data[key]\<close>: a missing key reads as the nil slice.\<close>

definition slot :: "coll_map \<Rightarrow> string \<Rightarrow> keyValue list" where
  "slot c key = (case alist_get (m_data c) key of None \<Rightarrow> [] | Some vs \<Rightarrow> vs)"

definition Map_Get :: "case_table \<Rightarrow> coll_map \<Rightarrow> string \<Rightarrow> string list" where
  "Map_Get ct c key =
     (if m_data c = [] then []
      else let values = slot c (norm_key ct c key)
           in if values = [] then [] else map kv_value values)"

definition map_match :: "coll_map \<Rightarrow> keyValue \<Rightarrow> match_data" where
  "map_match c d = new_match_data (m_variable c) (kv_key d) (kv_value d)"

definition Map_FindRegex :: "coll_map \<Rightarrow> regex \<Rightarrow> match_data list" where
  "Map_FindRegex c re =
     (let matched = map snd (filter (\<lambda>(k, data). re k) (m_data c));
          n = sum_list (map length matched)
      in if n = 0 then [] else map (map_match c) (concat matched))"

definition Map_FindAll :: "coll_map \<Rightarrow> match_data list" where
  "Map_FindAll c =
     (let n = sum_list (map (\<lambda>(k, data). length data) (m_data c))
      in if n = 0 then [] else map (map_match c) (concat (map snd (m_data c))))"

definition Map_FindString :: "case_table \<Rightarrow> coll_map \<Rightarrow> string \<Rightarrow> match_data list" where
  "Map_FindString ct c key =
     (if key = [] then Map_FindAll c
      else if m_data c = [] then []
      else case alist_get (m_data c) (norm_key ct c key) of
        None \<Rightarrow> []
      | Some e \<Rightarrow> if e = [] then [] else map (map_match c) e)"

definition map_view :: "coll_map \<Rightarrow> keyValue \<Rightarrow> match" where
  "map_view c d = \<lparr>Variable = m_variable c, Key = kv_key d, Value = kv_value d\<rparr>"

text \<open>A loop that appends to \<open>result\<close> is a fold.\<close>

definition Map_AppendMatches :: "coll_map \<Rightarrow> match list \<Rightarrow> match list" where
  "Map_AppendMatches c result =
     fold (\<lambda>(k, data) r. fold (\<lambda>value r. r @ [map_view c value]) data r) (m_data c) result"

definition Map_AppendMatchesRegex :: "coll_map \<Rightarrow> match list \<Rightarrow> regex \<Rightarrow> match list" where
  "Map_AppendMatchesRegex c result re =
     fold (\<lambda>(k, data) r. if \<not> re k then r else fold (\<lambda>value r. r @ [map_view c value]) data r)
       (m_data c) result"

definition Map_AppendMatchesString :: "case_table \<Rightarrow> coll_map \<Rightarrow> match list \<Rightarrow> string \<Rightarrow> match list" where
  "Map_AppendMatchesString ct c result key =
     (if key = [] then Map_AppendMatches c result
      else fold (\<lambda>value r. r @ [map_view c value]) (slot c (norm_key ct c key)) result)"

definition Map_Add :: "case_table \<Rightarrow> coll_map \<Rightarrow> string \<Rightarrow> string \<Rightarrow> coll_map" where
  "Map_Add ct c key value =
     (let aVal = \<lparr>kv_key = key, kv_value = value\<rparr>; k = norm_key ct c key
      in c\<lparr>m_data := alist_put k (slot c k @ [aVal]) (m_data c)\<rparr>)"

definition Map_Set :: "case_table \<Rightarrow> coll_map \<Rightarrow> string \<Rightarrow> string list \<Rightarrow> coll_map" where
  "Map_Set ct c key values =
     c\<lparr>m_data := alist_put (norm_key ct c key) (map (\<lambda>v. \<lparr>kv_key = key, kv_value = v\<rparr>) values) (m_data c)\<rparr>"

text \<open>\<open>SetIndex\<close>: a negative index on a non-empty slot is out of range and panics.\<close>

definition Map_SetIndex :: "case_table \<Rightarrow> coll_map \<Rightarrow> string \<Rightarrow> int \<Rightarrow> string \<Rightarrow> coll_map option" where
  "Map_SetIndex ct c key index value =
     (let k = norm_key ct c key; values = slot c k; av = \<lparr>kv_key = key, kv_value = value\<rparr>
      in if values = [] then Some (c\<lparr>m_data := alist_put k [av] (m_data c)\<rparr>)
         else if int (length values) \<le> index then Some (c\<lparr>m_data := alist_put k (values @ [av]) (m_data c)\<rparr>)
         else if index < 0 then None
         else Some (c\<lparr>m_data := alist_put k (values[nat index := av]) (m_data c)\<rparr>))"

definition Map_Remove :: "case_table \<Rightarrow> coll_map \<Rightarrow> string \<Rightarrow> coll_map" where
  "Map_Remove ct c key =
     (if m_data c = [] then c else c\<lparr>m_data := alist_del (norm_key ct c key) (m_data c)\<rparr>)"

definition Map_Name :: "coll_map \<Rightarrow> string" where
  "Map_Name c = variable_name (m_variable c)"

definition Map_Reset :: "coll_map \<Rightarrow> coll_map" where
  "Map_Reset c = c\<lparr>m_data := []\<rparr>"

definition Map_Len :: "coll_map \<Rightarrow> nat" where
  "Map_Len c = length (m_data c)"

text \<open>\<open>Format\<close> and \<open>String\<close>.\<close>

definition Map_Format :: "coll_map \<Rightarrow> string" where
  "Map_Format c =
     variable_name (m_variable c) @ '':'' @ [CHR 10] @
     concat (map (\<lambda>(k, v). ''    '' @ k @ '': '' @ join_str '','' (map kv_value v) @ [CHR 10]) (m_data c))"

section \<open>NamedCollection\<close>

text \<open>
  A \<open>NamedCollection\<close> embeds a \<open>Map\<close> and forwards its methods to it; it is modelled by
  that \<open>Map\<close>. \<open>Data\<close> is the only method of its own; \<open>Names\<close> gives the view below.
\<close>

definition NamedCollection_Data :: "coll_map \<Rightarrow> values_map" where
  "NamedCollection_Data c = map (\<lambda>(k, v). (k, map kv_value v)) (m_data c)"

definition names_match :: "rule_variable \<Rightarrow> keyValue \<Rightarrow> match_data" where
  "names_match rv d = new_match_data rv (kv_key d) (kv_key d)"

definition names_view :: "rule_variable \<Rightarrow> keyValue \<Rightarrow> match" where
  "names_view rv d = \<lparr>Variable = rv, Key = kv_key d, Value = kv_key d\<rparr>"

definition Names_FindRegex :: "rule_variable \<Rightarrow> coll_map \<Rightarrow> regex \<Rightarrow> match_data list" where
  "Names_FindRegex rv c re =
     (let matched = map snd (filter (\<lambda>(k, data). re k) (m_data c));
          n = sum_list (map length matched)
      in if n = 0 then [] else map (names_match rv) (concat matched))"

text \<open>The name view looks the key up as it is given, without normalising it.\<close>

definition Names_FindString :: "rule_variable \<Rightarrow> coll_map \<Rightarrow> string \<Rightarrow> match_data list" where
  "Names_FindString rv c key =
     (case alist_get (m_data c) key of
        None \<Rightarrow> []
      | Some data \<Rightarrow> if data = [] then [] else map (names_match rv) data)"

definition Names_Get :: "case_table \<Rightarrow> coll_map \<Rightarrow> string \<Rightarrow> string list" where
  "Names_Get ct c key = Map_Get ct c key"

definition Names_FindAll :: "rule_variable \<Rightarrow> coll_map \<Rightarrow> match_data list" where
  "Names_FindAll rv c =
     (let n = sum_list (map (\<lambda>(k, data). length data) (m_data c))
      in if n = 0 then [] else map (names_match rv) (concat (map snd (m_data c))))"

definition Names_AppendMatches :: "rule_variable \<Rightarrow> coll_map \<Rightarrow> match list \<Rightarrow> match list" where
  "Names_AppendMatches rv c result =
     fold (\<lambda>(k, data) r. fold (\<lambda>value r. r @ [names_view rv value]) data r) (m_data c) result"

definition Names_AppendMatchesRegex :: "rule_variable \<Rightarrow> coll_map \<Rightarrow> match list \<Rightarrow> regex \<Rightarrow> match list" where
  "Names_AppendMatchesRegex rv c result re =
     fold (\<lambda>(k, data) r. if \<not> re k then r else fold (\<lambda>value r. r @ [names_view rv value]) data r)
       (m_data c) result"

definition Names_AppendMatchesString :: "rule_variable \<Rightarrow> coll_map \<Rightarrow> match list \<Rightarrow> string \<Rightarrow> match list" where
  "Names_AppendMatchesString rv c result key =
     fold (\<lambda>value r. r @ [names_view rv value]) (slot c key) result"

section \<open>Keyed collections\<close>

text \<open>The implementations of \<open>collection.Keyed\<close> the code builds.\<close>

datatype keyed =
    KMap coll_map
  | KNames rule_variable coll_map
  | ConcatKeyed rule_variable "keyed list"

text \<open>\<open>replaceVariable\<close> and \<open>setMatchVariable\<close>.\<close>

definition replaceVariable :: "rule_variable \<Rightarrow> match_data list \<Rightarrow> match_data list" where
  "replaceVariable v md = map (\<lambda>m. m\<lparr>md_Variable := v\<rparr>) md"

definition setMatchVariable :: "rule_variable \<Rightarrow> nat \<Rightarrow> match list \<Rightarrow> match list" where
  "setMatchVariable v start ms = take start ms @ map (\<lambda>m. m\<lparr>Variable := v\<rparr>) (drop start ms)"

fun keyed_Get :: "case_table \<Rightarrow> keyed \<Rightarrow> string \<Rightarrow> string list" where
  "keyed_Get ct (KMap c) key = Map_Get ct c key"
| "keyed_Get ct (KNames rv c) key = Names_Get ct c key"
| "keyed_Get ct (ConcatKeyed v cs) key = concat (map (\<lambda>c. keyed_Get ct c (to_lower ct key)) cs)"

fun keyed_FindAll :: "keyed \<Rightarrow> match_data list" where
  "keyed_FindAll (KMap c) = Map_FindAll c"
| "keyed_FindAll (KNames rv c) = Names_FindAll rv c"
| "keyed_FindAll (ConcatKeyed v cs) = concat (map (\<lambda>c. replaceVariable v (keyed_FindAll c)) cs)"

fun keyed_FindRegex :: "keyed \<Rightarrow> regex \<Rightarrow> match_data list" where
  "keyed_FindRegex (KMap c) re = Map_FindRegex c re"
| "keyed_FindRegex (KNames rv c) re = Names_FindRegex rv c re"
| "keyed_FindRegex (ConcatKeyed v cs) re = concat (map (\<lambda>c. replaceVariable v (keyed_FindRegex c re)) cs)"

fun keyed_FindString :: "case_table \<Rightarrow> keyed \<Rightarrow> string \<Rightarrow> match_data list" where
  "keyed_FindString ct (KMap c) key = Map_FindString ct c key"
| "keyed_FindString ct (KNames rv c) key = Names_FindString rv c key"
| "keyed_FindString ct (ConcatKeyed v cs) key =
     concat (map (\<lambda>c. replaceVariable v (keyed_FindString ct c key)) cs)"

fun keyed_AppendMatches :: "keyed \<Rightarrow> match list \<Rightarrow> match list" where
  "keyed_AppendMatches (KMap c) r = Map_AppendMatches c r"
| "keyed_AppendMatches (KNames rv c) r = Names_AppendMatches rv c r"
| "keyed_AppendMatches (ConcatKeyed v cs) r =
     fold (\<lambda>c r. setMatchVariable v (length r) (keyed_AppendMatches c r)) cs r"

fun keyed_AppendMatchesRegex :: "keyed \<Rightarrow> match list \<Rightarrow> regex \<Rightarrow> match list" where
  "keyed_AppendMatchesRegex (KMap c) r re = Map_AppendMatchesRegex c r re"
| "keyed_AppendMatchesRegex (KNames rv c) r re = Names_AppendMatchesRegex rv c r re"
| "keyed_AppendMatchesRegex (ConcatKeyed v cs) r re =
     fold (\<lambda>c r. setMatchVariable v (length r) (keyed_AppendMatchesRegex c r re)) cs r"

fun keyed_AppendMatchesString :: "case_table \<Rightarrow> keyed \<Rightarrow> match list \<Rightarrow> string \<Rightarrow> match list" where
  "keyed_AppendMatchesString ct (KMap c) r key = Map_AppendMatchesString ct c r key"
| "keyed_AppendMatchesString ct (KNames rv c) r key = Names_AppendMatchesString rv c r key"
| "keyed_AppendMatchesString ct (ConcatKeyed v cs) r key =
     fold (\<lambda>c r. setMatchVariable v (length r) (keyed_AppendMatchesString ct c r key)) cs r"

section \<open>Collections\<close>

text \<open>\<open>Single\<close>, \<open>SizeCollection\<close>, \<open>ConcatCollection\<close> and \<open>noop\<close> beside the keyed ones.\<close>

datatype collection =
    CKeyed keyed
  | Single rule_variable string
  | SizeCollection rule_variable "coll_map list"
  | ConcatCollection rule_variable "collection list"
  | Noop

definition collection_size :: "coll_map list \<Rightarrow> nat" where
  "collection_size cs =
     sum_list (map (\<lambda>d. sum_list (map (\<lambda>(k, data).
       sum_list (map (\<lambda>v. length (kv_key v) + length (kv_value v)) data)) (m_data d))) cs)"

fun FindAll :: "collection \<Rightarrow> match_data list" where
  "FindAll (CKeyed c) = keyed_FindAll c"
| "FindAll (Single v x) = [new_match_data v [] x]"
| "FindAll (SizeCollection v cs) = [new_match_data v [] (itoa (int (collection_size cs)))]"
| "FindAll (ConcatCollection v cs) = concat (map (\<lambda>c. replaceVariable v (FindAll c)) cs)"
| "FindAll Noop = []"

fun AppendMatches :: "collection \<Rightarrow> match list \<Rightarrow> match list" where
  "AppendMatches (CKeyed c) r = keyed_AppendMatches c r"
| "AppendMatches (Single v x) r = r @ [\<lparr>Variable = v, Key = [], Value = x\<rparr>]"
| "AppendMatches (SizeCollection v cs) r =
     r @ [\<lparr>Variable = v, Key = [], Value = itoa (int (collection_size cs))\<rparr>]"
| "AppendMatches (ConcatCollection v cs) r =
     fold (\<lambda>c r. setMatchVariable v (length r) (AppendMatches c r)) cs r"
| "AppendMatches Noop r = r"

section \<open>The contract of a multi-valued map\<close>

text \<open>
  What a client of \<open>collection.Map\<close> relies on. \<open>same\<close> says when two keys name the same
  entry; it does not change with the contents.
\<close>

locale multi_map =
  fixes get :: "'m \<Rightarrow> string \<Rightarrow> string list"
    and add :: "'m \<Rightarrow> string \<Rightarrow> string \<Rightarrow> 'm"
    and set_values :: "'m \<Rightarrow> string \<Rightarrow> string list \<Rightarrow> 'm"
    and remove :: "'m \<Rightarrow> string \<Rightarrow> 'm"
    and same :: "'m \<Rightarrow> string \<Rightarrow> string \<Rightarrow> bool"
  assumes get_add: "get (add m k v) k' = (if same m k k' then get m k' @ [v] else get m k')"
    and get_set_values: "get (set_values m k vs) k' = (if same m k k' then vs else get m k')"
    and get_remove: "get (remove m k) k' = (if same m k k' then [] else get m k')"
    and same_add: "same (add m k v) = same m"
    and same_set_values: "same (set_values m k vs) = same m"
    and same_remove: "same (remove m k) = same m"
    and same_refl: "same m k k"
begin

text \<open>Adding pairs one by one appends, for each key, the values of that key in order.\<close>

lemma get_fold_add:
  "get (fold (\<lambda>(k, v) m. add m k v) ps m) k' = get m k' @ map snd (filter (\<lambda>p. same m (fst p) k') ps)"
proof (induction ps arbitrary: m)
  case (Cons p ps)
  then show ?case by (cases p) (simp add: get_add same_add)
qed simp

lemma same_fold_add: "same (fold (\<lambda>(k, v) m. add m k v) ps m) = same m"
  by (induction ps arbitrary: m) (auto simp: same_add)

text \<open>The last write wins, and a removed key reads as absent whatever was written before.\<close>

lemma set_values_twice: "get (set_values (set_values m k vs) k ws) k' = get (set_values m k ws) k'"
  by (simp add: get_set_values same_set_values)

lemma remove_fold_add:
  "same m k k' \<Longrightarrow> get (remove (fold (\<lambda>(k, v) m. add m k v) ps m) k) k' = []"
  by (simp add: get_remove same_fold_add)

end

definition same_key :: "case_table \<Rightarrow> coll_map \<Rightarrow> string \<Rightarrow> string \<Rightarrow> bool" where
  "same_key ct c k k' = (norm_key ct c k = norm_key ct c k')"

lemma Map_Get_slot: "Map_Get ct c key = map kv_value (slot c (norm_key ct c key))"
  by (auto simp: Map_Get_def slot_def Let_def)

lemma norm_key_data [simp]: "norm_key ct (c\<lparr>m_data := d\<rparr>) k = norm_key ct c k"
  by (simp add: norm_key_def)

lemma slot_put [simp]: "slot (c\<lparr>m_data := alist_put k vs (m_data c)\<rparr>) k' = (if k' = k then vs else slot c k')"
  by (simp add: slot_def)

lemma slot_del [simp]: "slot (c\<lparr>m_data := alist_del k (m_data c)\<rparr>) k' = (if k' = k then [] else slot c k')"
  by (simp add: slot_def)

lemma slot_Map_Remove: "slot (Map_Remove ct c k) k' = (if k' = norm_key ct c k then [] else slot c k')"
  by (auto simp: Map_Remove_def) (simp_all add: slot_def)

lemma norm_key_ops [simp]:
  "norm_key ct (Map_Add ct c k v) = norm_key ct c"
  "norm_key ct (Map_Set ct c k vs) = norm_key ct c"
  "norm_key ct (Map_Remove ct c k) = norm_key ct c"
  by (auto simp: Map_Add_def Map_Set_def Map_Remove_def Let_def norm_key_def fun_eq_iff)

interpretation cmap: multi_map "Map_Get ct" "Map_Add ct" "Map_Set ct" "Map_Remove ct" "same_key ct"
  for ct
proof unfold_locales
  show "Map_Get ct (Map_Add ct m k v) k' =
      (if same_key ct m k k' then Map_Get ct m k' @ [v] else Map_Get ct m k')" for m k v k'
    unfolding Map_Get_slot by (simp add: Map_Add_def Let_def same_key_def)
  show "Map_Get ct (Map_Set ct m k vs) k' = (if same_key ct m k k' then vs else Map_Get ct m k')" for m k vs k'
    unfolding Map_Get_slot by (simp add: Map_Set_def same_key_def comp_def)
  show "Map_Get ct (Map_Remove ct m k) k' = (if same_key ct m k k' then [] else Map_Get ct m k')" for m k k'
    unfolding Map_Get_slot by (simp add: slot_Map_Remove same_key_def)
qed (auto simp: same_key_def fun_eq_iff)

section \<open>The invariant of a Map\<close>

text \<open>Keys are distinct, and a value is filed under the normal form of its own key.\<close>

definition Map_inv :: "case_table \<Rightarrow> coll_map \<Rightarrow> bool" where
  "Map_inv ct c = (alist_ok (m_data c)
     \<and> list_all (\<lambda>(k, vs). list_all (\<lambda>d. norm_key ct c (kv_key d) = k) vs) (m_data c))"

lemma Map_inv_iff:
  "Map_inv ct c \<longleftrightarrow> alist_ok (m_data c)
     \<and> (\<forall>k vs d. (k, vs) \<in> set (m_data c) \<longrightarrow> d \<in> set vs \<longrightarrow> norm_key ct c (kv_key d) = k)"
  by (fastforce simp: Map_inv_def list_all_iff)

lemma set_alist_put: "set (alist_put k v ps) \<subseteq> insert (k, v) (set ps)"
  by (induction ps rule: alist_put.induct) auto

lemma slot_inv: "Map_inv ct c \<Longrightarrow> d \<in> set (slot c k) \<Longrightarrow> norm_key ct c (kv_key d) = k"
  by (cases "alist_get (m_data c) k") (auto simp: Map_inv_iff slot_def dest!: alist_get_SomeD)

lemma Map_inv_put:
  assumes "Map_inv ct c" "\<And>d. d \<in> set vs \<Longrightarrow> norm_key ct c (kv_key d) = k"
  shows "Map_inv ct (c\<lparr>m_data := alist_put k vs (m_data c)\<rparr>)"
  using assms set_alist_put [of k vs "m_data c"] by (fastforce simp: Map_inv_iff)

lemma Map_inv_New [simp]: "Map_inv ct (NewMap v)" "Map_inv ct (NewCaseSensitiveKeyMap v)"
  by (simp_all add: Map_inv_def NewMap_def NewCaseSensitiveKeyMap_def)

lemma Map_inv_Add [intro]: "Map_inv ct c \<Longrightarrow> Map_inv ct (Map_Add ct c key value)"
  unfolding Map_Add_def Let_def by (rule Map_inv_put) (auto dest: slot_inv)

lemma Map_inv_Set [intro]: "Map_inv ct c \<Longrightarrow> Map_inv ct (Map_Set ct c key values)"
  unfolding Map_Set_def by (rule Map_inv_put) auto

lemma Map_inv_SetIndex [intro]:
  assumes "Map_inv ct c" "Map_SetIndex ct c key index value = Some c'"
  shows "Map_inv ct c'"
  using assms(2) assms(1)
  by (auto simp: Map_SetIndex_def Let_def intro!: Map_inv_put dest: slot_inv
      dest!: set_update_subset_insert [THEN subsetD] split: if_splits)

lemma Map_inv_Remove [intro]: "Map_inv ct c \<Longrightarrow> Map_inv ct (Map_Remove ct c key)"
  by (auto simp: Map_Remove_def Map_inv_def list_all_iff alist_del_def alist_ok_def distinct_map_filter)

lemma Map_inv_Reset [intro]: "Map_inv ct (Map_Reset c)"
  by (simp add: Map_inv_def Map_Reset_def)

section \<open>Lookups against the whole contents\<close>

lemma sum_list_length_0: "sum_list (map length xss) = 0 \<Longrightarrow> concat xss = ([] :: 'a list)"
  by auto

lemma Map_FindAll_concat: "Map_FindAll c = map (map_match c) (concat (map snd (m_data c)))"
  by (auto simp: Map_FindAll_def Let_def split_beta)

lemma Map_FindRegex_concat:
  "Map_FindRegex c re = map (map_match c) (concat (map snd (filter (\<lambda>p. re (fst p)) (m_data c))))"
  by (auto simp: Map_FindRegex_def Let_def case_prod_beta')

lemma Names_FindAll_concat: "Names_FindAll rv c = map (names_match rv) (concat (map snd (m_data c)))"
  by (auto simp: Names_FindAll_def Let_def split_beta)

lemma Names_FindRegex_concat:
  "Names_FindRegex rv c re = map (names_match rv) (concat (map snd (filter (\<lambda>p. re (fst p)) (m_data c))))"
  by (auto simp: Names_FindRegex_def Let_def case_prod_beta')

lemma Map_FindString_slot:
  "key \<noteq> [] \<Longrightarrow> Map_FindString ct c key = map (map_match c) (slot c (norm_key ct c key))"
  by (auto simp: Map_FindString_def slot_def split: option.splits)

lemma Names_FindString_slot: "Names_FindString rv c key = map (names_match rv) (slot c key)"
  by (auto simp: Names_FindString_def slot_def split: option.splits)

text \<open>Under the invariant the slot of a key is the part of the contents filed under it.\<close>

lemma filter_concat_slot:
  assumes "alist_ok ps" "\<And>k vs d. (k, vs) \<in> set ps \<Longrightarrow> d \<in> set vs \<Longrightarrow> f d = k"
  shows "filter (\<lambda>d. P (f d)) (concat (map snd ps)) = concat (map snd (filter (\<lambda>p. P (fst p)) ps))"
  using assms
proof (induction ps)
  case (Cons p ps)
  obtain k vs where p: "p = (k, vs)" by (cases p)
  then have "\<And>d. d \<in> set vs \<Longrightarrow> f d = k" using Cons.prems(2) by auto
  then have "filter (\<lambda>d. P (f d)) vs = (if P k then vs else [])" by (auto simp: filter_empty_conv intro: filter_True)
  with Cons p show ?case by (auto simp: alist_ok_def)
qed simp

lemma concat_filter_key:
  "alist_ok ps \<Longrightarrow> concat (map snd (filter (\<lambda>p. fst p = k) ps))
     = (case alist_get ps k of None \<Rightarrow> [] | Some vs \<Rightarrow> vs)"
proof (induction ps)
  case (Cons p ps)
  obtain k' vs where p: "p = (k', vs)" by (cases p)
  show ?case
  proof (cases "k' = k")
    case True
    with Cons.prems p have "filter (\<lambda>p. fst p = k) ps = []"
      by (auto simp: alist_ok_def filter_empty_conv image_iff)
    with True p show ?thesis by simp
  qed (use Cons p in \<open>simp add: alist_ok_def\<close>)
qed simp

lemma Map_inv_filed:
  "Map_inv ct c \<Longrightarrow> (k, vs) \<in> set (m_data c) \<Longrightarrow> d \<in> set vs \<Longrightarrow> norm_key ct c (kv_key d) = k"
  by (auto simp: Map_inv_iff)

lemma FindRegex_filter:
  assumes "Map_inv ct c"
  shows "Map_FindRegex c re = filter (\<lambda>m. re (norm_key ct c (md_Key m))) (Map_FindAll c)"
proof -
  have "filter (\<lambda>d. re (norm_key ct c (kv_key d))) (concat (map snd (m_data c)))
      = concat (map snd (filter (\<lambda>p. re (fst p)) (m_data c)))"
    using assms by (intro filter_concat_slot) (auto simp: Map_inv_iff)
  then show ?thesis
    by (simp add: Map_FindRegex_concat Map_FindAll_concat filter_map comp_def map_match_def new_match_data_def)
qed

lemma FindString_filter:
  assumes "Map_inv ct c" "key \<noteq> []"
  shows "Map_FindString ct c key = filter (\<lambda>m. same_key ct c (md_Key m) key) (Map_FindAll c)"
proof -
  have "Map_FindString ct c key = Map_FindRegex c (\<lambda>k. k = norm_key ct c key)"
    using assms concat_filter_key [of "m_data c" "norm_key ct c key"]
    by (simp add: Map_FindString_slot Map_FindRegex_concat slot_def Map_inv_def)
  with FindRegex_filter [OF assms(1)] show ?thesis by (simp add: same_key_def)
qed

section \<open>Iteration order\<close>

text \<open>
  Go leaves the order of a \<open>range\<close> over a map open: two traversals of the same map see two
  permutations of its entries. The matches are the same multiset in every order.
\<close>

definition same_contents :: "coll_map \<Rightarrow> coll_map \<Rightarrow> bool" where
  "same_contents c c' = (isCaseSensitive c = isCaseSensitive c' \<and> m_variable c = m_variable c'
     \<and> mset (m_data c) = mset (m_data c'))"

lemma mset_concat_map_snd:
  assumes "mset ps = mset qs"
  shows "mset (concat (map snd ps)) = mset (concat (map snd qs))"
proof -
  have "mset (concat (map snd xs)) = sum_mset (image_mset (mset \<circ> snd) (mset xs))" for xs :: "('a \<times> 'b list) list"
    by (induction xs) auto
  with assms show ?thesis by simp
qed

lemma FindAll_order: "same_contents c c' \<Longrightarrow> mset (Map_FindAll c) = mset (Map_FindAll c')"
  using mset_concat_map_snd [of "m_data c" "m_data c'"]
  by (simp add: Map_FindAll_concat same_contents_def map_match_def [abs_def])

lemma FindRegex_order: "same_contents c c' \<Longrightarrow> mset (Map_FindRegex c re) = mset (Map_FindRegex c' re)"
  using mset_concat_map_snd [of "filter (\<lambda>p. re (fst p)) (m_data c)" "filter (\<lambda>p. re (fst p)) (m_data c')"]
  by (simp add: Map_FindRegex_concat same_contents_def map_match_def [abs_def])

lemma alist_get_order:
  assumes "mset ps = mset qs" "alist_ok ps"
  shows "alist_get ps k = alist_get qs k"
proof -
  have q: "alist_ok qs" and s: "set ps = set qs"
    using assms by (metis alist_ok_def mset_map mset_eq_imp_distinct_iff, metis set_mset_mset)
  show ?thesis
  proof (cases "alist_get ps k")
    case None
    with s show ?thesis by (metis alist_get_None)
  next
    case (Some v)
    then have "(k, v) \<in> set qs" using s alist_get_SomeD by fastforce
    with q Some show ?thesis by (simp add: alist_get_mem)
  qed
qed

lemma FindString_order:
  assumes "same_contents c c'" "alist_ok (m_data c)"
  shows "mset (Map_FindString ct c key) = mset (Map_FindString ct c' key)"
proof (cases "key = []")
  case True
  with FindAll_order [OF assms(1)] show ?thesis by (simp add: Map_FindString_def)
next
  case False
  with assms alist_get_order [of "m_data c" "m_data c'"] show ?thesis
    by (simp add: Map_FindString_slot slot_def same_contents_def map_match_def [abs_def] norm_key_def)
qed

section \<open>The appending interface\<close>

text \<open>
  \<open>MatchAppender\<close> and \<open>KeyedMatchAppender\<close> promise what \<open>FindAll\<close>, \<open>FindRegex\<close>
  and \<open>FindString\<close> return, appended to the result without building \<open>MatchData\<close>.
\<close>

definition match_of :: "match_data \<Rightarrow> match" where
  "match_of m = \<lparr>Variable = md_Variable m, Key = md_Key m, Value = md_Value m\<rparr>"

locale match_appender =
  fixes find_all :: "'c \<Rightarrow> match_data list"
    and append_matches :: "'c \<Rightarrow> match list \<Rightarrow> match list"
  assumes append_all: "append_matches c r = r @ map match_of (find_all c)"
begin

text \<open>Appending through several collections under one variable: the loop of the concatenations.\<close>

lemma append_concat:
  "fold (\<lambda>c r. setMatchVariable v (length r) (append_matches c r)) cs r
     = r @ map match_of (concat (map (\<lambda>c. replaceVariable v (find_all c)) cs))"
proof (induction cs arbitrary: r)
  case (Cons c cs)
  have "setMatchVariable v (length r) (append_matches c r) = r @ map match_of (replaceVariable v (find_all c))"
    by (simp add: append_all setMatchVariable_def replaceVariable_def match_of_def)
  with Cons show ?case by simp
qed simp

end

locale keyed_match_appender = match_appender find_all append_matches
  for find_all :: "'c \<Rightarrow> match_data list" and append_matches :: "'c \<Rightarrow> match list \<Rightarrow> match list" +
  fixes find_regex :: "'c \<Rightarrow> regex \<Rightarrow> match_data list"
    and find_string :: "'c \<Rightarrow> string \<Rightarrow> match_data list"
    and append_regex :: "'c \<Rightarrow> match list \<Rightarrow> regex \<Rightarrow> match list"
    and append_string :: "'c \<Rightarrow> match list \<Rightarrow> string \<Rightarrow> match list"
  assumes append_regex: "append_regex c r re = r @ map match_of (find_regex c re)"
    and append_string: "append_string c r key = r @ map match_of (find_string c key)"

lemma fold_snoc: "fold (\<lambda>x r. r @ [f x]) xs r = r @ map f xs"
  by (induction xs arbitrary: r) auto

lemma fold_append_concat:
  "fold (\<lambda>p r. fold (\<lambda>x r. r @ [f x]) (snd p) r) ps r = r @ map f (concat (map snd ps))"
  by (induction ps arbitrary: r) (auto simp: fold_snoc)

lemma fold_append_filter:
  "fold (\<lambda>p r. if \<not> P (fst p) then r else fold (\<lambda>x r. r @ [f x]) (snd p) r) ps r
     = r @ map f (concat (map snd (filter (\<lambda>p. P (fst p)) ps)))"
  by (induction ps arbitrary: r) (auto simp: fold_snoc)

lemma match_of_simps [simp]:
  "match_of (map_match c d) = map_view c d" "match_of (names_match rv d) = names_view rv d"
  "match_of (new_match_data v k x) = \<lparr>Variable = v, Key = k, Value = x\<rparr>"
  by (simp_all add: match_of_def map_match_def map_view_def names_match_def names_view_def new_match_data_def)

lemma match_of_comp [simp]:
  "match_of \<circ> map_match c = map_view c" "match_of \<circ> names_match rv = names_view rv"
  by (simp_all add: fun_eq_iff)

lemma Map_appends:
  "Map_AppendMatches c r = r @ map match_of (Map_FindAll c)"
  "Map_AppendMatchesRegex c r re = r @ map match_of (Map_FindRegex c re)"
  "Map_AppendMatchesString ct c r key = r @ map match_of (Map_FindString ct c key)"
proof -
  show all: "Map_AppendMatches c r = r @ map match_of (Map_FindAll c)"
    by (simp add: Map_AppendMatches_def Map_FindAll_concat case_prod_beta' fold_append_concat)
  show "Map_AppendMatchesRegex c r re = r @ map match_of (Map_FindRegex c re)"
    by (simp add: Map_AppendMatchesRegex_def Map_FindRegex_concat case_prod_beta' fold_append_filter)
  show "Map_AppendMatchesString ct c r key = r @ map match_of (Map_FindString ct c key)"
    by (cases "key = []")
      (simp_all add: Map_AppendMatchesString_def all Map_FindString_slot fold_snoc, simp add: Map_FindString_def)
qed

lemma Names_appends:
  "Names_AppendMatches rv c r = r @ map match_of (Names_FindAll rv c)"
  "Names_AppendMatchesRegex rv c r re = r @ map match_of (Names_FindRegex rv c re)"
  "Names_AppendMatchesString rv c r key = r @ map match_of (Names_FindString rv c key)"
  by (simp_all add: Names_AppendMatches_def Names_FindAll_concat Names_AppendMatchesRegex_def
      Names_FindRegex_concat Names_AppendMatchesString_def Names_FindString_slot case_prod_beta'
      fold_append_concat fold_append_filter)
    (simp add: fold_snoc)

lemma replace_append:
  "setMatchVariable v (length r) (r @ map match_of ms) = r @ map match_of (replaceVariable v ms)"
  by (simp add: setMatchVariable_def replaceVariable_def match_of_def)

lemma fold_replace_append:
  assumes "\<And>c r. c \<in> set cs \<Longrightarrow> app c r = r @ map match_of (look c)"
  shows "fold (\<lambda>c r. setMatchVariable v (length r) (app c r)) cs r
    = r @ map match_of (concat (map (\<lambda>c. replaceVariable v (look c)) cs))"
  using assms by (induction cs arbitrary: r) (auto simp: replace_append)

lemma keyed_appends:
  "keyed_AppendMatches k r = r @ map match_of (keyed_FindAll k)"
  "keyed_AppendMatchesRegex k r re = r @ map match_of (keyed_FindRegex k re)"
  "keyed_AppendMatchesString ct k r key = r @ map match_of (keyed_FindString ct k key)"
proof (induction k arbitrary: r)
  case (ConcatKeyed v cs)
  {
    case 1
    show ?case using ConcatKeyed(1) by (auto intro!: fold_replace_append)
  next
    case 2
    show ?case using ConcatKeyed(2) by (auto intro!: fold_replace_append)
  next
    case 3
    show ?case using ConcatKeyed(3) by (auto intro!: fold_replace_append)
  }
qed (simp_all add: Map_appends Names_appends)

interpretation keyed_view: keyed_match_appender keyed_FindAll keyed_AppendMatches keyed_FindRegex
  "keyed_FindString ct" keyed_AppendMatchesRegex "keyed_AppendMatchesString ct" for ct
  by unfold_locales (rule keyed_appends)+

lemma AppendMatches_FindAll: "AppendMatches c r = r @ map match_of (FindAll c)"
proof (induction c arbitrary: r)
  case (ConcatCollection v cs)
  then show ?case by (auto intro!: fold_replace_append)
qed (simp_all add: keyed_appends)

interpretation collection_view: match_appender FindAll AppendMatches
  by unfold_locales (rule AppendMatches_FindAll)

section \<open>Properties\<close>

text \<open>
  C26: a map keeps its keys distinct and every value filed under the normal form of its own
  key, through any of the operations that change it.
\<close>

theorem Map_inv_preserved:
  assumes "Map_inv ct c"
  shows "Map_inv ct (Map_Add ct c k v) \<and> Map_inv ct (Map_Set ct c k vs) \<and> Map_inv ct (Map_Remove ct c k)
    \<and> Map_inv ct (Map_Reset c) \<and> (\<forall>c'. Map_SetIndex ct c k i v = Some c' \<longrightarrow> Map_inv ct c')"
  using assms by auto

theorem Map_inv_preserved_witness:
  "Map_inv (\<lambda>r. r) (Map_Add (\<lambda>r. r) (NewMap V_TX) ''Score'' ''5'')"
  using Map_inv_preserved [of "\<lambda>r. r" "NewMap V_TX" "''Score''" "''5''" "[]" 0] by simp

text \<open>
  C27: selecting by key or by regular expression returns exactly the elements of the whole
  contents whose normalised key is the normalised selector, or matches the expression.
\<close>

theorem Map_selection:
  assumes "Map_inv ct c"
  shows "Map_FindRegex c re = filter (\<lambda>m. re (norm_key ct c (md_Key m))) (Map_FindAll c)
    \<and> (key \<noteq> [] \<longrightarrow> Map_FindString ct c key = filter (\<lambda>m. same_key ct c (md_Key m) key) (Map_FindAll c))
    \<and> Map_FindString ct c [] = Map_FindAll c"
  using FindRegex_filter [OF assms] FindString_filter [OF assms] by (simp add: Map_FindString_def)

theorem Map_selection_witness:
  "Map_FindString (\<lambda>r. r) (Map_Add (\<lambda>r. r) (NewMap V_TX) ''Score'' ''5'') ''sCORE''
    = filter (\<lambda>m. same_key (\<lambda>r. r) (Map_Add (\<lambda>r. r) (NewMap V_TX) ''Score'' ''5'') (md_Key m) ''sCORE'')
        (Map_FindAll (Map_Add (\<lambda>r. r) (NewMap V_TX) ''Score'' ''5''))"
  using Map_selection [of "\<lambda>r. r" "Map_Add (\<lambda>r. r) (NewMap V_TX) ''Score'' ''5''" "\<lambda>_. True" "''sCORE''"]
    Map_inv_Add [OF Map_inv_New(1)] by simp

text \<open>
  C28: the allocation-free \<open>AppendMatches\<close> methods of every collection append exactly what
  the \<open>Find\<close> methods return, through concatenations of any depth.
\<close>

theorem appends_are_finds:
  "keyed_AppendMatches k r = r @ map match_of (keyed_FindAll k)
   \<and> keyed_AppendMatchesRegex k r re = r @ map match_of (keyed_FindRegex k re)
   \<and> keyed_AppendMatchesString ct k r key = r @ map match_of (keyed_FindString ct k key)
   \<and> AppendMatches c r = r @ map match_of (FindAll c)"
  using keyed_view.append_all keyed_view.append_regex keyed_view.append_string collection_view.append_all by simp

text \<open>
  the matches a map returns are the same multiset whatever order the runtime iterates the
  map in.
\<close>

theorem Map_order_independent:
  assumes "same_contents c c'" "alist_ok (m_data c)"
  shows "mset (Map_FindAll c) = mset (Map_FindAll c') \<and> mset (Map_FindRegex c re) = mset (Map_FindRegex c' re)
    \<and> mset (Map_FindString ct c key) = mset (Map_FindString ct c' key)"
  using FindAll_order [OF assms(1)] FindRegex_order [OF assms(1)] FindString_order [OF assms] by simp

theorem Map_order_independent_witness:
  "mset (Map_FindAll \<lparr>isCaseSensitive = True, m_data = [(''a'', []), (''b'', [])], m_variable = V_TX\<rparr>)
   = mset (Map_FindAll \<lparr>isCaseSensitive = True, m_data = [(''b'', []), (''a'', [])], m_variable = V_TX\<rparr>)"
  using Map_order_independent [of "\<lparr>isCaseSensitive = True, m_data = [(''a'', []), (''b'', [])], m_variable = V_TX\<rparr>"
     "\<lparr>isCaseSensitive = True, m_data = [(''b'', []), (''a'', [])], m_variable = V_TX\<rparr>"]
  by (simp add: same_contents_def alist_ok_def)

text \<open>
  \<open>Len\<close> counts keys, not key/value pairs as its comment says: adding a pair under a
  key that is present leaves it unchanged, while one more element is found.
\<close>

theorem Map_Len_repeated_key:
  assumes "alist_get (m_data c) (norm_key ct c key) \<noteq> None"
  shows "Map_Len (Map_Add ct c key value) = Map_Len c
    \<and> length (Map_FindAll (Map_Add ct c key value)) = Suc (length (Map_FindAll c))"
proof -
  have "length (concat (map snd (alist_put k (vs @ [x]) ps))) = Suc (length (concat (map snd ps)))"
    if "alist_get ps k = Some vs" for ps :: "(string \<times> keyValue list) list" and k vs x
    using that by (induction ps) (auto split: if_splits)
  with assms show ?thesis
    by (auto simp: Map_Len_def Map_Add_def Let_def length_alist_put Map_FindAll_concat slot_def)
qed

theorem Map_Len_repeated_key_witness:
  "Map_Len (Map_Add (\<lambda>r. r) (Map_Add (\<lambda>r. r) (NewMap V_ArgsGet) ''a'' ''1'') ''a'' ''2'') = 1"
  using Map_Len_repeated_key [of "Map_Add (\<lambda>r. r) (NewMap V_ArgsGet) ''a'' ''1''" "\<lambda>r. r" "''a''" "''2''"]
  by (simp add: Map_Add_def Let_def norm_key_def NewMap_def Map_Len_def)

end
