(* ===== verification/Macro.thy ===== *)
theory Macro
  imports Collections
begin

text \<open>
  The macros of \<open>experimental/plugins/macro/macro.go\<close>: strings with \<open>%{VARIABLE.key}\<close>
  references, compiled to tokens and expanded against the collections of a transaction.
  The transaction is seen through its method \<open>Collection\<close>; a nil collection makes the
  expansion panic, which is the value \<open>None\<close>.
\<close>

record macroToken =
  tok_text :: string
  tok_variable :: rule_variable
  tok_key :: string

record macro =
  macro_original :: string
  macro_tokens :: "macroToken list"

definition isValidMacroChar :: "char \<Rightarrow> bool" where
  "isValidMacroChar c =
     (c = CHR ''['' \<or> c = CHR '']'' \<or> c = CHR ''.'' \<or> c = CHR ''_'' \<or> c = CHR ''-'' \<or>
      is_digit c \<or> is_upper c \<or> is_lower c)"

text \<open>The literal text collected so far becomes a token, if there is any.\<close>

definition flush_text :: "string \<Rightarrow> macroToken list" where
  "flush_text cur =
     (if cur \<noteq> [] then [\<lparr>tok_text = cur, tok_variable = V_Unknown, tok_key = []\<rparr>] else [])"

text \<open>A closed reference: \<open>cur\<close> is the text between the braces.\<close>

definition reference_token :: "case_table \<Rightarrow> string \<Rightarrow> macroToken result" where
  "reference_token ct cur =
     (case cut cur CHR ''.'' of (varName, key, found) \<Rightarrow>
        (case Parse ct varName of
           Inl e \<Rightarrow> Inl (Error (''unknown variable '' @ varName))
         | Inr v \<Rightarrow> Inr \<lparr>tok_text = cur, tok_variable = v, tok_key = to_lower ct key\<rparr>))"

text \<open>
  The loop of \<open>compile\<close> over the rest of the input: \<open>prev\<close> is the byte before it,
  \<open>cur\<close> is \<open>currentToken\<close>, \<open>m\<close> is \<open>isMacro\<close>.
\<close>

fun compile_loop :: "case_table \<Rightarrow> char \<Rightarrow> string \<Rightarrow> string \<Rightarrow> bool \<Rightarrow> macroToken list \<Rightarrow> macroToken list result" where
  "compile_loop ct prev [] cur m toks = Inr (toks @ flush_text cur)"
| "compile_loop ct prev (c # rest) cur m toks =
     (if c = CHR ''%'' \<and> rest \<noteq> [] \<and> hd rest = CHR ''{'' then
        compile_loop ct CHR ''{'' (tl rest) [] True (toks @ flush_text cur)
      else if m then
        (if c = CHR ''}'' then
           (if prev = CHR ''.'' then Inl (Error ''empty variable name'')
            else case reference_token ct cur of
              Inl e \<Rightarrow> Inl e
            | Inr t \<Rightarrow> compile_loop ct c rest [] False (toks @ [t]))
         else if \<not> isValidMacroChar c then
           Inl (Error (''malformed variable starting with %{'' @ cur))
         else if rest = [] then Inl (Error ''malformed variable: no closing braces'')
         else compile_loop ct c rest (cur @ [c]) True toks)
      else compile_loop ct c rest (cur @ [c]) False toks)"

definition macro_compile :: "case_table \<Rightarrow> string \<Rightarrow> macro result" where
  "macro_compile ct input =
     (if input = [] then Inl (Error ''empty macro'')
      else case compile_loop ct (CHR 0x00) input [] False [] of
        Inl e \<Rightarrow> Inl e
      | Inr toks \<Rightarrow> Inr \<lparr>macro_original = input, macro_tokens = toks\<rparr>)"

definition NewMacro :: "case_table \<Rightarrow> string \<Rightarrow> macro result" where
  "NewMacro ct data = (if data = [] then Inl (Error ''empty data'') else macro_compile ct data)"

text \<open>\<open>tx.Collection\<close> as the expansion sees it; \<open>None\<close> is a nil collection.\<close>

type_synonym collection_view = "rule_variable \<Rightarrow> collection option"

definition expandToken :: "case_table \<Rightarrow> collection_view \<Rightarrow> macroToken \<Rightarrow> string option" where
  "expandToken ct col token =
     (if tok_variable token = V_Unknown then Some (tok_text token)
      else case col (tok_variable token) of
        None \<Rightarrow> None
      | Some (CKeyed k) \<Rightarrow>
          (case keyed_Get ct k (tok_key token) of
             [] \<Rightarrow> Some (tok_text token)
           | c # cs \<Rightarrow> Some c)
      | Some (Single v x) \<Rightarrow> Some x
      | Some other \<Rightarrow>
          (case FindAll other of
             [] \<Rightarrow> Some (tok_text token)
           | c # cs \<Rightarrow> Some (md_Value c)))"

fun expand_tokens :: "case_table \<Rightarrow> collection_view \<Rightarrow> macroToken list \<Rightarrow> string option" where
  "expand_tokens ct col [] = Some []"
| "expand_tokens ct col (t # ts) =
     (case expandToken ct col t of
        None \<Rightarrow> None
      | Some x \<Rightarrow> map_option (\<lambda>y. x @ y) (expand_tokens ct col ts))"

definition Expand :: "case_table \<Rightarrow> collection_view \<Rightarrow> macro \<Rightarrow> string option" where
  "Expand ct col m =
     (case macro_tokens m of
        [t] \<Rightarrow> expandToken ct col t
      | ts \<Rightarrow> expand_tokens ct col ts)"

definition macro_String :: "macro \<Rightarrow> string" where
  "macro_String m = macro_original m"

definition IsExpandable :: "macro \<Rightarrow> bool" where
  "IsExpandable m = (1 < length (macro_tokens m))"

section \<open>Printing tokens\<close>

text \<open>
  The notation a token stands for. A well-formed token list is what compilation can produce
  from a text whose references are closed: literal texts are not empty, do not contain
  \<open>%{\<close> and are not adjacent, and a reference names a known variable.
\<close>

definition print_token :: "macroToken \<Rightarrow> string" where
  "print_token t =
     (if tok_variable t = V_Unknown then tok_text t else ''%{'' @ tok_text t @ ''}'')"

definition wf_text :: "macroToken \<Rightarrow> bool" where
  "wf_text t = (tok_variable t = V_Unknown \<and> tok_key t = [] \<and> tok_text t \<noteq> [] \<and>
     \<not> contains_str (tok_text t) ''%{'')"

definition wf_reference :: "case_table \<Rightarrow> macroToken \<Rightarrow> bool" where
  "wf_reference ct t = (tok_variable t \<noteq> V_Unknown \<and> tok_text t \<noteq> [] \<and>
     list_all isValidMacroChar (tok_text t) \<and> last (tok_text t) \<noteq> CHR ''.'' \<and>
     reference_token ct (tok_text t) = Inr t)"

fun wf_tokens :: "case_table \<Rightarrow> macroToken list \<Rightarrow> bool" where
  "wf_tokens ct [] = True"
| "wf_tokens ct [t] = (wf_text t \<or> wf_reference ct t)"
| "wf_tokens ct (t # u # ts) =
     ((wf_text t \<and> wf_reference ct u \<or> wf_reference ct t) \<and> wf_tokens ct (u # ts))"

section \<open>Lemmas\<close>

declare compile_loop.simps(2) [simp del]

lemma compile_loop_open:
  "compile_loop ct p (CHR ''%'' # CHR ''{'' # rest) cur m toks =
     compile_loop ct CHR ''{'' rest [] True (toks @ flush_text cur)"
  by (simp add: compile_loop.simps(2))

lemma compile_loop_text_step:
  "\<not> (c = CHR ''%'' \<and> rest \<noteq> [] \<and> hd rest = CHR ''{'') \<Longrightarrow>
   compile_loop ct p (c # rest) cur False toks = compile_loop ct c rest (cur @ [c]) False toks"
  by (auto simp: compile_loop.simps(2))

text \<open>A run of literal text that no \<open>{\<close> follows is collected.\<close>

lemma compile_loop_text:
  "\<not> contains_str s ''%{'' \<Longrightarrow> rest = [] \<or> hd rest \<noteq> CHR ''{'' \<Longrightarrow>
   \<exists>p'. compile_loop ct p (s @ rest) cur False toks = compile_loop ct p' rest (cur @ s) False toks"
proof (induction s arbitrary: p cur)
  case Nil
  then show ?case by auto
next
  case (Cons c s)
  have no: "\<not> (c = CHR ''%'' \<and> s @ rest \<noteq> [] \<and> hd (s @ rest) = CHR ''{'')"
    using Cons.prems by (cases s) (auto simp: has_prefix_def)
  have "\<not> contains_str s ''%{''" using Cons.prems by auto
  with Cons.IH Cons.prems obtain p' where
    "compile_loop ct c (s @ rest) (cur @ [c]) False toks = compile_loop ct p' rest ((cur @ [c]) @ s) False toks"
    by blast
  with no show ?case by (auto simp: compile_loop_text_step)
qed

lemma valid_char_not_special:
  "isValidMacroChar c \<Longrightarrow> c \<noteq> CHR ''%'' \<and> c \<noteq> CHR ''}'' \<and> c \<noteq> CHR ''{''"
  by (auto simp: isValidMacroChar_def byte_class_defs)

text \<open>The characters of a reference are collected up to its closing brace.\<close>

lemma compile_loop_reference:
  "list_all isValidMacroChar s \<Longrightarrow>
   compile_loop ct p (s @ CHR ''}'' # rest) cur True toks =
     compile_loop ct (last (p # s)) (CHR ''}'' # rest) (cur @ s) True toks"
proof (induction s arbitrary: p cur)
  case (Cons c s)
  then have "compile_loop ct p (c # (s @ CHR ''}'' # rest)) cur True toks =
      compile_loop ct c (s @ CHR ''}'' # rest) (cur @ [c]) True toks"
    using valid_char_not_special [of c] by (simp add: compile_loop.simps(2))
  with Cons show ?case by simp
qed simp

lemma compile_loop_close:
  assumes "wf_reference ct t"
  shows "\<exists>p'. compile_loop ct CHR ''{'' (tok_text t @ CHR ''}'' # rest) [] True toks =
    compile_loop ct p' rest [] False (toks @ [t])"
  using assms
  by (auto simp: compile_loop_reference wf_reference_def compile_loop.simps(2) [of _ _ "CHR ''}''"])

lemma hd_print_tokens:
  "wf_tokens ct (t # ts) \<Longrightarrow> wf_reference ct t \<Longrightarrow> hd (concat (map print_token (t # ts))) \<noteq> CHR ''{''"
  by (simp add: print_token_def wf_reference_def)

lemma compile_print_tokens:
  "wf_tokens ct ts \<Longrightarrow>
   compile_loop ct p (concat (map print_token ts)) [] False toks = Inr (toks @ ts)"
proof (induction ts arbitrary: p toks)
  case (Cons t ts)
  have tail: "wf_tokens ct ts" using Cons.prems by (cases ts) auto
  from Cons.prems have "wf_text t \<or> wf_reference ct t" by (cases ts) auto
  then show ?case
  proof
    assume t: "wf_text t"
    then have p: "print_token t = tok_text t" and fl: "flush_text (tok_text t) = [t]"
      by (simp_all add: print_token_def wf_text_def flush_text_def)
    show ?thesis
    proof (cases ts)
      case Nil
      then show ?thesis
        using compile_loop_text [of "tok_text t" "[]" ct p "[]" toks] t p fl by (auto simp: wf_text_def)
    next
      case (Cons u us)
      have u: "wf_reference ct u"
        using Cons.prems Cons t by (auto simp: wf_text_def wf_reference_def)
      then have pu: "print_token u = ''%{'' @ tok_text u @ ''}''"
        by (simp add: print_token_def wf_reference_def)
      let ?r = "concat (map print_token ts)"
      have shape: "?r = CHR ''%'' # CHR ''{'' # (tok_text u @ CHR ''}'' # concat (map print_token us))"
        using Cons pu by simp
      obtain p' where "compile_loop ct p (tok_text t @ ?r) [] False toks = compile_loop ct p' ?r (tok_text t) False toks"
        using compile_loop_text [of "tok_text t" ?r ct p "[]" toks] t shape by (auto simp: wf_text_def)
      moreover have "compile_loop ct p' ?r (tok_text t) False toks = compile_loop ct p' ?r [] False (toks @ [t])"
        using fl by (simp add: shape compile_loop_open flush_text_def)
      ultimately show ?thesis using Cons.IH tail p by simp
    qed
  next
    assume t: "wf_reference ct t"
    then have "print_token t = ''%{'' @ tok_text t @ ''}''"
      by (simp add: print_token_def wf_reference_def)
    then have "compile_loop ct p (concat (map print_token (t # ts))) [] False toks =
        compile_loop ct CHR ''{'' (tok_text t @ CHR ''}'' # concat (map print_token ts)) [] True toks"
      by (simp add: compile_loop_open flush_text_def)
    moreover obtain p' where
      "compile_loop ct CHR ''{'' (tok_text t @ CHR ''}'' # concat (map print_token ts)) [] True toks =
        compile_loop ct p' (concat (map print_token ts)) [] False (toks @ [t])"
      using compile_loop_close [OF t] by blast
    ultimately show ?thesis using Cons.IH tail by simp
  qed
qed (simp add: flush_text_def)

text \<open>Expansion is total when every variable of the macro has a collection.\<close>

definition macro_total :: "collection_view \<Rightarrow> macro \<Rightarrow> bool" where
  "macro_total col m = list_all (\<lambda>t. tok_variable t = V_Unknown \<or> col (tok_variable t) \<noteq> None) (macro_tokens m)"

lemma expandToken_total:
  "tok_variable t = V_Unknown \<or> col (tok_variable t) \<noteq> None \<Longrightarrow> \<exists>x. expandToken ct col t = Some x"
  by (auto simp: expandToken_def split: collection.splits list.splits)

lemma expand_tokens_total:
  "list_all (\<lambda>t. tok_variable t = V_Unknown \<or> col (tok_variable t) \<noteq> None) ts \<Longrightarrow>
   \<exists>x. expand_tokens ct col ts = Some x"
proof (induction ts)
  case (Cons t ts)
  then show ?case using expandToken_total [of t col ct] by fastforce
qed simp

lemma Expand_tokens: "Expand ct col m = expand_tokens ct col (macro_tokens m)"
  by (auto simp: Expand_def split: list.splits option.splits)

lemma Expand_total: "macro_total col m \<Longrightarrow> \<exists>x. Expand ct col m = Some x"
  by (simp add: Expand_tokens macro_total_def expand_tokens_total)

lemma NewMacro_literal:
  assumes "s \<noteq> []" "\<not> contains_str s ''%{''"
  shows "NewMacro ct s = Inr \<lparr>macro_original = s, macro_tokens = [\<lparr>tok_text = s, tok_variable = V_Unknown, tok_key = []\<rparr>]\<rparr>"
  using compile_loop_text [of s "[]" ct "CHR 0x00" "[]" "[]"] assms
  by (auto simp: NewMacro_def macro_compile_def flush_text_def)

lemma print_tokens_nonempty:
  assumes "wf_tokens ct ts" "ts \<noteq> []"
  shows "concat (map print_token ts) \<noteq> []"
proof -
  have "print_token t \<noteq> []" if "wf_text t \<or> wf_reference ct t" for t
    using that by (auto simp: print_token_def wf_text_def wf_reference_def)
  moreover have "wf_text (hd ts) \<or> wf_reference ct (hd ts)"
    using assms by (cases "(ct, ts)" rule: wf_tokens.cases) auto
  ultimately show ?thesis using assms(2) by (cases ts) auto
qed

section \<open>Properties\<close>


text \<open>The tokens of \<open>a %{tx.Score}\<close>.\<close>

definition sample_tokens :: "macroToken list" where
  "sample_tokens =
     [\<lparr>tok_text = ''a '', tok_variable = V_Unknown, tok_key = []\<rparr>,
      \<lparr>tok_text = ''tx.Score'', tok_variable = V_TX, tok_key = ''score''\<rparr>]"

lemma Parse_tx: "Parse ct ''tx'' = Inr V_TX"
  by (rule Parse_upper_name)
    (simp_all add: to_upper_def is_ascii_def upper_byte_def is_lower_def less_eq_char_def byte_eval
      variable_name_def variable_names_def)

lemma sample_tokens_wf: "wf_tokens (\<lambda>r. r) sample_tokens"
  by (simp add: sample_tokens_def wf_text_def wf_reference_def has_prefix_def isValidMacroChar_def
      byte_class_defs reference_token_def cut_def Parse_tx to_lower_def is_ascii_def lower_byte_def byte_eval)


text \<open>
  a reference opened at the very end of the text is accepted and dropped: \<open>s%{\<close> compiles
  to the literal \<open>s\<close>, although every other unclosed reference is an error.
\<close>

theorem NewMacro_open_at_end:
  assumes "s \<noteq> []" "\<not> contains_str s ''%{''"
  shows "\<exists>m. NewMacro ct (s @ ''%{'') = Inr m \<and> Expand ct col m = Some s"
proof -
  obtain p' where "compile_loop ct (CHR 0x00) (s @ ''%{'') [] False [] = compile_loop ct p' ''%{'' s False []"
    using compile_loop_text [of s "''%{''" ct "CHR 0x00" "[]" "[]"] assms by auto
  then show ?thesis
    using assms by (simp add: NewMacro_def macro_compile_def compile_loop_open flush_text_def Expand_def expandToken_def)
qed

theorem NewMacro_open_at_end_witness:
  "\<exists>m. NewMacro (\<lambda>r. r) ''abc%{'' = Inr m \<and> Expand (\<lambda>r. r) (\<lambda>v. None) m = Some ''abc''"
  using NewMacro_open_at_end [of "''abc''" "\<lambda>r. r" "\<lambda>v. None"] by (simp add: has_prefix_def)

end
