(* ===== verification/Transform_Cache.thy ===== *)
theory Transform_Cache
  imports Collections
begin

text \<open>
  The execution of the transformations of a rule, with and without the two caches of a
  transaction: \<open>transformField\<close>, \<open>transformFieldCached\<close>, the multi-match variants and
  \<open>executeTransformationCached\<close> of \<open>internal/corazawaf/rule.go\<close>, the cache types of
  \<open>rulegroup.go\<close>, and the global table that numbers the transformation chains.

  A transformation returns its output, whether it changed the input, and an error or nil. The
  caches are keyed by the address of the input (\<open>unsafe.StringData\<close>): the function \<open>sdata\<close> gives that address, and what the
  code relies on is \<open>addresses_ok\<close>: live strings of one length at one address are equal.
\<close>

type_synonym transformation_result = "string \<times> bool \<times> error option"

type_synonym transformation = "string \<Rightarrow> transformation_result"

record ruleTransformationParams =
  rt_Function :: transformation
  rt_ID :: int

text \<open>The transformation fields of a \<open>Rule\<close>; the rule record extends them.\<close>

record rule_transformations =
  transformations :: "ruleTransformationParams list"
  transformationsID :: int
  transformationPrefixIDs :: "int list"

record transformationKey =
  tk_input :: nat
  tk_inputLength :: nat
  tk_argVariable :: rule_variable
  tk_transformationsID :: int
  tk_multiMatch :: bool

record transformationValue =
  tv_input :: string
  tv_arg :: string
  tv_errs :: "error list"
  tv_changed :: bool

record transformationStepKey =
  sk_input :: nat
  sk_inputLength :: nat
  sk_transformationID :: int

record transformationStepValue =
  sv_input :: string
  sv_output :: string
  sv_changed :: bool
  sv_err :: "error option"

record transformationStepCache =
  sc_values :: "(transformationStepKey \<times> transformationStepValue) list"
  sc_retainedBytes :: int

type_synonym transformationCache = "(transformationKey \<times> transformationValue) list"

definition maxTransformationStepCacheEntries :: nat where
  "maxTransformationStepCacheEntries = 512"

definition maxTransformationStepCacheBytes :: int where
  "maxTransformationStepCacheBytes = 16777216"

definition cachedTransformationStepMinInputBytes :: nat where
  "cachedTransformationStepMinInputBytes = 512"

section \<open>Numbering of transformation chains\<close>

record id_table =
  transformationIDToName :: "string list"
  transformationNameToID :: "(string \<times> int) list"

definition initial_id_table :: id_table where
  "initial_id_table = \<lparr>transformationIDToName = [[]], transformationNameToID = [([], 0)]\<rparr>"

text \<open>An index out of range panics.\<close>

definition transformationID :: "id_table \<Rightarrow> int \<Rightarrow> string \<Rightarrow> (int \<times> id_table) option" where
  "transformationID tbl currentID name =
     (if currentID < 0 \<or> int (length (transformationIDToName tbl)) \<le> currentID then None
      else let currName = transformationIDToName tbl ! nat currentID;
               nextName = currName @ ''+'' @ name
           in Some (case alist_get (transformationNameToID tbl) nextName of
                Some i \<Rightarrow> (i, tbl)
              | None \<Rightarrow>
                  let i = int (length (transformationIDToName tbl))
                  in (i, \<lparr>transformationIDToName = transformationIDToName tbl @ [nextName],
                          transformationNameToID = alist_put nextName i (transformationNameToID tbl)\<rparr>)))"

text \<open>\<open>AddTransformation\<close>: \<open>t\<close> is nil for an unknown transformation.\<close>

definition AddTransformation :: "id_table \<Rightarrow> 'a rule_transformations_scheme \<Rightarrow> string \<Rightarrow> transformation option \<Rightarrow>
    ('a rule_transformations_scheme \<times> id_table) result option" where
  "AddTransformation tbl r name t =
     (case t of
        None \<Rightarrow> Some (Inl (Error (''invalid transformation '' @ name @ '' not found'')))
      | Some f \<Rightarrow>
          if name = [] then Some (Inl (Error (''invalid transformation '' @ name @ '' not found'')))
          else case transformationID tbl 0 name of
            None \<Rightarrow> None
          | Some (sid, tbl1) \<Rightarrow>
              (case transformationID tbl1 (transformationsID r) name of
                 None \<Rightarrow> None
               | Some (tid, tbl2) \<Rightarrow>
                   Some (Inr (r\<lparr>transformations := transformations r @ [\<lparr>rt_Function = f, rt_ID = sid\<rparr>],
                                transformationsID := tid,
                                transformationPrefixIDs := transformationPrefixIDs r @ [tid]\<rparr>, tbl2))))"

definition ClearTransformations :: "'a rule_transformations_scheme \<Rightarrow> 'a rule_transformations_scheme" where
  "ClearTransformations r = r\<lparr>transformations := [], transformationsID := 0, transformationPrefixIDs := []\<rparr>"

section \<open>Uncached execution\<close>

definition transformation_step :: "transformation \<Rightarrow> string \<times> error list \<Rightarrow> string \<times> error list" where
  "transformation_step f st =
     (case f (fst st) of
        (v, changed, Some err) \<Rightarrow> (fst st, snd st @ [err])
      | (v, changed, None) \<Rightarrow> (v, snd st))"

definition executeTransformations :: "ruleTransformationParams list \<Rightarrow> string \<Rightarrow> string \<times> error list" where
  "executeTransformations ts value = fold (\<lambda>t. transformation_step (rt_Function t)) ts (value, [])"

text \<open>The state of the multi-match loop: the collected values, the value, the errors.\<close>

type_synonym multi_state = "string list \<times> string \<times> error list"

definition multimatch_step :: "transformation \<Rightarrow> multi_state \<Rightarrow> multi_state" where
  "multimatch_step f st =
     (case st of (result, value, errs) \<Rightarrow>
        (case f value of
           (v, changed, Some err) \<Rightarrow> (result, value, errs @ [err])
         | (v, changed, None) \<Rightarrow> if changed then (result @ [v], v, errs) else (result, value, errs)))"

definition executeTransformationsMultimatchInto ::
    "ruleTransformationParams list \<Rightarrow> string list \<Rightarrow> string \<Rightarrow> string list \<times> error list" where
  "executeTransformationsMultimatchInto ts result value =
     (case fold (\<lambda>t. multimatch_step (rt_Function t)) ts (result @ [value], value, []) of
        (result, value, errs) \<Rightarrow> (result, errs))"

section \<open>Cached execution\<close>

definition newTransformationKey :: "(string \<Rightarrow> nat) \<Rightarrow> match \<Rightarrow> int \<Rightarrow> bool \<Rightarrow> transformationKey" where
  "newTransformationKey sdata arg i multi =
     \<lparr>tk_input = sdata (Value arg), tk_inputLength = length (Value arg), tk_argVariable = Variable arg,
      tk_transformationsID = i, tk_multiMatch = multi\<rparr>"

definition store :: "transformationStepCache \<Rightarrow> transformationStepKey \<Rightarrow> transformationStepValue \<Rightarrow> transformationStepCache" where
  "store cache key value =
     (let inl = int (length (sv_input value)); outl = int (length (sv_output value)); retained = inl + outl
      in if maxTransformationStepCacheEntries \<le> length (sc_values cache) then cache
         else if maxTransformationStepCacheBytes < inl \<or> maxTransformationStepCacheBytes - inl < outl then cache
         else if maxTransformationStepCacheBytes - sc_retainedBytes cache < retained then cache
         else cache\<lparr>sc_values := alist_put key value (sc_values cache),
                    sc_retainedBytes := sc_retainedBytes cache + retained\<rparr>)"

definition executeTransformationCached ::
    "(string \<Rightarrow> nat) \<Rightarrow> ruleTransformationParams \<Rightarrow> string \<Rightarrow> transformationStepCache \<Rightarrow>
     transformation_result \<times> transformationStepCache" where
  "executeTransformationCached sdata t input cache =
     (let key = \<lparr>sk_input = sdata input, sk_inputLength = length input, sk_transformationID = rt_ID t\<rparr>
      in case alist_get (sc_values cache) key of
           Some cached \<Rightarrow> ((sv_output cached, sv_changed cached, sv_err cached), cache)
         | None \<Rightarrow>
             (case rt_Function t input of (output, changed, err) \<Rightarrow>
                ((output, changed, err),
                 store cache key \<lparr>sv_input = input, sv_output = output, sv_changed = changed, sv_err = err\<rparr>)))"

text \<open>\<open>if stepCache != nil && len(value) >= cachedTransformationStepMinInputBytes\<close>\<close>

definition run_step :: "(string \<Rightarrow> nat) \<Rightarrow> ruleTransformationParams \<Rightarrow> string \<Rightarrow> transformationStepCache option \<Rightarrow>
     transformation_result \<times> transformationStepCache option" where
  "run_step sdata t value stepCache =
     (case stepCache of
        None \<Rightarrow> (rt_Function t value, None)
      | Some sc \<Rightarrow>
          if cachedTransformationStepMinInputBytes \<le> length value then
            (case executeTransformationCached sdata t value sc of (out, sc') \<Rightarrow> (out, Some sc'))
          else (rt_Function t value, Some sc))"

text \<open>The search for the longest cached prefix, from index \<open>n - 1\<close> down.\<close>

fun longest_hit :: "(nat \<Rightarrow> 'v option) \<Rightarrow> nat \<Rightarrow> (nat \<times> 'v) option" where
  "longest_hit f 0 = None"
| "longest_hit f (Suc i) = (case f i of Some v \<Rightarrow> Some (i, v) | None \<Rightarrow> longest_hit f i)"

text \<open>The remaining transformations with their prefix IDs, each result cached.\<close>

fun transform_rest :: "(string \<Rightarrow> nat) \<Rightarrow> match \<Rightarrow> (ruleTransformationParams \<times> int) list \<Rightarrow>
    string \<times> error list \<Rightarrow> transformationCache \<Rightarrow> (string \<times> error list) \<times> transformationCache" where
  "transform_rest sdata arg [] st cache = (st, cache)"
| "transform_rest sdata arg ((t, i) # ts) st cache =
     (let st' = transformation_step (rt_Function t) st
      in transform_rest sdata arg ts st'
           (alist_put (newTransformationKey sdata arg i False)
              \<lparr>tv_input = Value arg, tv_arg = fst st', tv_errs = snd st', tv_changed = False\<rparr> cache))"

definition transformField :: "(string \<Rightarrow> nat) \<Rightarrow> 'a rule_transformations_scheme \<Rightarrow> match \<Rightarrow> transformationCache \<Rightarrow>
    (string \<times> error list) \<times> transformationCache" where
  "transformField sdata r arg cache =
     (if transformations r = [] then ((Value arg, []), cache)
      else if variable_name (Variable arg) = ''TX'' then (executeTransformations (transformations r) (Value arg), cache)
      else let ids = transformationPrefixIDs r;
               todo = zip (transformations r) ids
           in case longest_hit (\<lambda>i. alist_get cache (newTransformationKey sdata arg (ids ! i) False)) (length ids) of
                Some (i, cached) \<Rightarrow>
                  if i = length ids - 1 then ((tv_arg cached, tv_errs cached), cache)
                  else transform_rest sdata arg (drop (Suc i) todo) (tv_arg cached, tv_errs cached) cache
              | None \<Rightarrow> transform_rest sdata arg todo (Value arg, []) cache)"

fun transform_rest_cached :: "(string \<Rightarrow> nat) \<Rightarrow> match \<Rightarrow> (ruleTransformationParams \<times> int) list \<Rightarrow>
    string \<times> error list \<Rightarrow> transformationCache \<Rightarrow> transformationStepCache option \<Rightarrow>
    (string \<times> error list) \<times> transformationCache \<times> transformationStepCache option" where
  "transform_rest_cached sdata arg [] st cache sc = (st, cache, sc)"
| "transform_rest_cached sdata arg ((t, i) # ts) st cache sc =
     (case run_step sdata t (fst st) sc of (out, sc') \<Rightarrow>
        let st' = transformation_step (\<lambda>_. out) st;
            changed = (case out of (v, ch, err) \<Rightarrow> ch \<and> err = None)
        in transform_rest_cached sdata arg ts st'
             (alist_put (newTransformationKey sdata arg i False)
                \<lparr>tv_input = Value arg, tv_arg = fst st', tv_errs = snd st', tv_changed = changed\<rparr> cache) sc')"

definition transformFieldCached :: "(string \<Rightarrow> nat) \<Rightarrow> 'a rule_transformations_scheme \<Rightarrow> match \<Rightarrow> transformationCache \<Rightarrow>
    transformationStepCache option \<Rightarrow> (string \<times> error list) \<times> transformationCache \<times> transformationStepCache option" where
  "transformFieldCached sdata r arg cache sc =
     (if sc = None \<or> length (Value arg) < cachedTransformationStepMinInputBytes then
        (case transformField sdata r arg cache of (res, cache') \<Rightarrow> (res, cache', sc))
      else if transformations r = [] then ((Value arg, []), cache, sc)
      else if variable_name (Variable arg) = ''TX'' then (executeTransformations (transformations r) (Value arg), cache, sc)
      else let ids = transformationPrefixIDs r;
               todo = zip (transformations r) ids
           in case longest_hit (\<lambda>i. alist_get cache (newTransformationKey sdata arg (ids ! i) False)) (length ids) of
                Some (i, cached) \<Rightarrow>
                  if i = length ids - 1 then ((tv_arg cached, tv_errs cached), cache, sc)
                  else transform_rest_cached sdata arg (drop (Suc i) todo) (tv_arg cached, tv_errs cached) cache sc
              | None \<Rightarrow> transform_rest_cached sdata arg todo (Value arg, []) cache sc)"

text \<open>Multi-match: the cached prefix is replayed in order, and stops at the first miss.\<close>

fun replay :: "(string \<Rightarrow> nat) \<Rightarrow> match \<Rightarrow> transformationCache \<Rightarrow> (ruleTransformationParams \<times> int) list \<Rightarrow> multi_state \<Rightarrow>
    multi_state \<times> (ruleTransformationParams \<times> int) list" where
  "replay sdata arg cache [] st = (st, [])"
| "replay sdata arg cache ((t, i) # ts) st =
     (case alist_get cache (newTransformationKey sdata arg i True) of
        None \<Rightarrow> (st, (t, i) # ts)
      | Some cached \<Rightarrow>
          replay sdata arg cache ts
            (if tv_changed cached then fst st @ [tv_arg cached] else fst st, tv_arg cached, tv_errs cached))"

fun multimatch_rest :: "(string \<Rightarrow> nat) \<Rightarrow> match \<Rightarrow> (ruleTransformationParams \<times> int) list \<Rightarrow> multi_state \<Rightarrow>
    transformationCache \<Rightarrow> transformationStepCache option \<Rightarrow>
    multi_state \<times> transformationCache \<times> transformationStepCache option" where
  "multimatch_rest sdata arg [] st cache sc = (st, cache, sc)"
| "multimatch_rest sdata arg ((t, i) # ts) st cache sc =
     (case run_step sdata t (fst (snd st)) sc of (out, sc') \<Rightarrow>
        let st' = multimatch_step (\<lambda>_. out) st;
            changed = (case out of (v, ch, err) \<Rightarrow> ch \<and> err = None)
        in multimatch_rest sdata arg ts st'
             (alist_put (newTransformationKey sdata arg i True)
                \<lparr>tv_input = Value arg, tv_arg = fst (snd st'), tv_errs = snd (snd st'), tv_changed = changed\<rparr> cache) sc')"

definition transformFieldMultimatchCached :: "(string \<Rightarrow> nat) \<Rightarrow> 'a rule_transformations_scheme \<Rightarrow> match \<Rightarrow> transformationCache \<Rightarrow>
    transformationStepCache option \<Rightarrow> string list \<Rightarrow>
    (string list \<times> error list) \<times> transformationCache \<times> transformationStepCache option" where
  "transformFieldMultimatchCached sdata r arg cache sc result =
     (if transformations r = [] \<or> length (Value arg) < cachedTransformationStepMinInputBytes \<or>
         variable_name (Variable arg) = ''TX'' then
        (executeTransformationsMultimatchInto (transformations r) result (Value arg), cache, sc)
      else
        case replay sdata arg cache (zip (transformations r) (transformationPrefixIDs r))
               (result @ [Value arg], Value arg, []) of
          (st, todo) \<Rightarrow>
            (case multimatch_rest sdata arg todo st cache sc of
               ((res, v, errs), cache', sc') \<Rightarrow> ((res, errs), cache', sc')))"

section \<open>What the caches hold\<close>

definition addresses_ok :: "(string \<Rightarrow> nat) \<Rightarrow> bool" where
  "addresses_ok sdata = (\<forall>s t. sdata s = sdata t \<and> length s = length t \<longrightarrow> s = t)"

definition run_chain :: "transformation list \<Rightarrow> string \<Rightarrow> string \<times> error list" where
  "run_chain fs value = fold transformation_step fs (value, [])"

definition run_multi :: "transformation list \<Rightarrow> string \<Rightarrow> multi_state" where
  "run_multi fs value = fold multimatch_step fs ([value], value, [])"

definition step_changed :: "transformation \<Rightarrow> string \<Rightarrow> bool" where
  "step_changed f value = (case f value of (v, ch, err) \<Rightarrow> ch \<and> err = None)"

text \<open>
  The meaning of an entry under the chain \<open>sem i\<close> its ID stands for: the outcome of that
  chain on the input, and for a multi-match entry whether its last transformation changed
  the value.
\<close>

definition entry_ok :: "(int \<Rightarrow> transformation list) \<Rightarrow> string \<Rightarrow> transformationKey \<Rightarrow> transformationValue \<Rightarrow> bool" where
  "entry_ok sem s k v =
     (let fs = sem (tk_transformationsID k)
      in if tk_multiMatch k then
           fs \<noteq> [] \<and> snd (run_multi fs s) = (tv_arg v, tv_errs v) \<and>
           tv_changed v = step_changed (last fs) (fst (snd (run_multi (butlast fs) s)))
         else run_chain fs s = (tv_arg v, tv_errs v))"

definition cache_ok :: "(string \<Rightarrow> nat) \<Rightarrow> (int \<Rightarrow> transformation list) \<Rightarrow> transformationCache \<Rightarrow> bool" where
  "cache_ok sdata sem cache =
     (\<forall>k v. alist_get cache k = Some v \<longrightarrow>
        (\<exists>s. tk_input k = sdata s \<and> tk_inputLength k = length s \<and> entry_ok sem s k v))"

definition step_cache_ok :: "(string \<Rightarrow> nat) \<Rightarrow> (int \<Rightarrow> transformation list) \<Rightarrow> transformationStepCache \<Rightarrow> bool" where
  "step_cache_ok sdata sem sc =
     (\<forall>k v. alist_get (sc_values sc) k = Some v \<longrightarrow>
        (\<exists>s f. sk_input k = sdata s \<and> sk_inputLength k = length s \<and> sem (sk_transformationID k) = [f] \<and>
           f s = (sv_output v, sv_changed v, sv_err v)))"

definition step_caches_ok :: "(string \<Rightarrow> nat) \<Rightarrow> (int \<Rightarrow> transformation list) \<Rightarrow> transformationStepCache option \<Rightarrow> bool" where
  "step_caches_ok sdata sem sc = (case sc of None \<Rightarrow> True | Some c \<Rightarrow> step_cache_ok sdata sem c)"

text \<open>The IDs of a rule stand for its transformations and for the prefixes of its chain.\<close>

fun chain_ids :: "(int \<Rightarrow> transformation list) \<Rightarrow> transformation list \<Rightarrow> (ruleTransformationParams \<times> int) list \<Rightarrow> bool" where
  "chain_ids sem pre [] = True"
| "chain_ids sem pre ((t, i) # ts) =
     (sem i = pre @ [rt_Function t] \<and> sem (rt_ID t) = [rt_Function t] \<and> chain_ids sem (pre @ [rt_Function t]) ts)"

definition rule_ids_ok :: "(int \<Rightarrow> transformation list) \<Rightarrow> 'a rule_transformations_scheme \<Rightarrow> bool" where
  "rule_ids_ok sem r =
     (length (transformationPrefixIDs r) = length (transformations r) \<and>
      chain_ids sem [] (zip (transformations r) (transformationPrefixIDs r)))"

section \<open>The caches are transparent\<close>

lemma executeTransformations_chain:
  "executeTransformations ts value = run_chain (map rt_Function ts) value"
  by (simp add: executeTransformations_def run_chain_def fold_map comp_def)

lemma run_chain_snoc: "run_chain (fs @ [f]) s = transformation_step f (run_chain fs s)"
  by (simp add: run_chain_def)

lemma run_multi_snoc: "run_multi (fs @ [f]) s = multimatch_step f (run_multi fs s)"
  by (simp add: run_multi_def)

lemma step_const [simp]:
  "transformation_step (\<lambda>_. f (fst st)) st = transformation_step f st"
  "multimatch_step (\<lambda>_. f (fst (snd mst))) mst = multimatch_step f mst"
  by (simp_all add: transformation_step_def multimatch_step_def split: prod.splits)

lemma chain_ids_nth:
  "chain_ids sem pre ts \<Longrightarrow> n < length ts \<Longrightarrow> sem (snd (ts ! n)) = pre @ map (\<lambda>t. rt_Function (fst t)) (take (Suc n) ts)"
proof (induction sem pre ts arbitrary: n rule: chain_ids.induct)
  case (2 sem pre t i ts)
  then show ?case by (cases n) auto
qed simp

lemma chain_ids_drop:
  "chain_ids sem pre ts \<Longrightarrow> chain_ids sem (pre @ map (\<lambda>t. rt_Function (fst t)) (take n ts)) (drop n ts)"
proof (induction sem pre ts arbitrary: n rule: chain_ids.induct)
  case (2 sem pre t i ts)
  then show ?case by (cases n) auto
qed simp

lemma chain_ids_snoc:
  "chain_ids sem pre (ts @ [(t, i)]) \<longleftrightarrow>
     chain_ids sem pre ts \<and> sem i = pre @ map (\<lambda>t. rt_Function (fst t)) ts @ [rt_Function t] \<and>
     sem (rt_ID t) = [rt_Function t]"
  by (induction sem pre ts rule: chain_ids.induct) auto

lemma longest_hit_Some: "longest_hit f n = Some (i, v) \<Longrightarrow> i < n \<and> f i = Some v"
  by (induction n) (auto split: option.splits)

lemma entry_okI:
  "run_chain (sem i) (Value arg) = st \<Longrightarrow>
   entry_ok sem (Value arg) (newTransformationKey sdata arg i False)
     \<lparr>tv_input = x, tv_arg = fst st, tv_errs = snd st, tv_changed = ch\<rparr>"
  by (simp add: entry_ok_def newTransformationKey_def)

lemma entry_ok_multiI:
  "sem i = pre @ [f] \<Longrightarrow> run_multi (sem i) (Value arg) = st \<Longrightarrow>
   ch = step_changed f (fst (snd (run_multi pre (Value arg)))) \<Longrightarrow>
   entry_ok sem (Value arg) (newTransformationKey sdata arg i True)
     \<lparr>tv_input = x, tv_arg = fst (snd st), tv_errs = snd (snd st), tv_changed = ch\<rparr>"
  by (auto simp: entry_ok_def newTransformationKey_def)

lemma cache_ok_put:
  assumes "cache_ok sdata sem cache" "entry_ok sem (Value arg) (newTransformationKey sdata arg i m) v"
  shows "cache_ok sdata sem (alist_put (newTransformationKey sdata arg i m) v cache)"
  using assms unfolding cache_ok_def
  by (auto simp: newTransformationKey_def)

lemma cache_hit:
  assumes "addresses_ok sdata" "cache_ok sdata sem cache"
    and "alist_get cache (newTransformationKey sdata arg i m) = Some v"
  shows "entry_ok sem (Value arg) (newTransformationKey sdata arg i m) v"
proof -
  obtain s where "sdata (Value arg) = sdata s" "length (Value arg) = length s"
    "entry_ok sem s (newTransformationKey sdata arg i m) v"
    using assms(2,3) unfolding cache_ok_def by (fastforce simp: newTransformationKey_def)
  then show ?thesis using assms(1) unfolding addresses_ok_def by metis
qed

lemma transform_rest_ok:
  assumes "chain_ids sem pre todo" "st = run_chain pre (Value arg)" "cache_ok sdata sem cache"
  shows "fst (transform_rest sdata arg todo st cache) =
      run_chain (pre @ map (\<lambda>t. rt_Function (fst t)) todo) (Value arg)"
    and "cache_ok sdata sem (snd (transform_rest sdata arg todo st cache))"
proof -
  have "fst (transform_rest sdata arg todo st cache) = run_chain (pre @ map (\<lambda>t. rt_Function (fst t)) todo) (Value arg) \<and>
      cache_ok sdata sem (snd (transform_rest sdata arg todo st cache))"
    using assms
  proof (induction sem pre todo arbitrary: st cache rule: chain_ids.induct)
    case (2 sem pre t i ts)
    define st' where "st' = transformation_step (rt_Function t) st"
    have st': "st' = run_chain (pre @ [rt_Function t]) (Value arg)"
      using "2.prems" by (simp add: st'_def run_chain_snoc)
    have "cache_ok sdata sem (alist_put (newTransformationKey sdata arg i False)
        \<lparr>tv_input = Value arg, tv_arg = fst st', tv_errs = snd st', tv_changed = False\<rparr> cache)"
      by (intro cache_ok_put entry_okI) (use "2.prems" st' in simp_all)
    with "2.IH" [OF _ st'] "2.prems" show ?case by (simp add: run_chain_snoc [symmetric] st' [symmetric] Let_def)
  qed auto
  then show "fst (transform_rest sdata arg todo st cache) = run_chain (pre @ map (\<lambda>t. rt_Function (fst t)) todo) (Value arg)"
    and "cache_ok sdata sem (snd (transform_rest sdata arg todo st cache))" by auto
qed

text \<open>The step cache.\<close>

lemma step_cache_ok_store:
  assumes "step_cache_ok sdata sem sc" "sem (rt_ID t) = [rt_Function t]" "rt_Function t input = (v, ch, err)"
  shows "step_cache_ok sdata sem (store sc
      \<lparr>sk_input = sdata input, sk_inputLength = length input, sk_transformationID = rt_ID t\<rparr>
      \<lparr>sv_input = input, sv_output = v, sv_changed = ch, sv_err = err\<rparr>)"
  using assms unfolding step_cache_ok_def store_def Let_def by auto

lemma executeTransformationCached_ok:
  assumes "addresses_ok sdata" "step_cache_ok sdata sem sc" "sem (rt_ID t) = [rt_Function t]"
  shows "fst (executeTransformationCached sdata t input sc) = rt_Function t input \<and>
    step_cache_ok sdata sem (snd (executeTransformationCached sdata t input sc))"
proof (cases "alist_get (sc_values sc) \<lparr>sk_input = sdata input, sk_inputLength = length input, sk_transformationID = rt_ID t\<rparr>")
  case None
  then show ?thesis
    using step_cache_ok_store [OF assms(2,3)]
    by (simp add: executeTransformationCached_def Let_def split: prod.splits)
next
  case (Some v)
  then obtain s where "sdata input = sdata s" "length input = length s"
    "rt_Function t s = (sv_output v, sv_changed v, sv_err v)"
    using assms(2,3) unfolding step_cache_ok_def by fastforce
  moreover from this have "s = input" using assms(1) unfolding addresses_ok_def by metis
  ultimately show ?thesis using Some assms(2) by (simp add: executeTransformationCached_def Let_def)
qed

lemma run_step_ok:
  assumes "addresses_ok sdata" "step_caches_ok sdata sem sc" "sem (rt_ID t) = [rt_Function t]"
  shows "fst (run_step sdata t value sc) = rt_Function t value"
    and "step_caches_ok sdata sem (snd (run_step sdata t value sc))"
  using assms executeTransformationCached_ok [of sdata sem _ t "value"]
  by (auto simp: run_step_def step_caches_ok_def split: option.splits prod.splits)
    (metis fst_conv snd_conv)+

lemma step_changed_out: "step_changed f v = (case f v of (x, ch, err) \<Rightarrow> ch \<and> err = None)"
  by (simp add: step_changed_def)

lemma transform_rest_cached_ok:
  assumes "addresses_ok sdata" "chain_ids sem pre todo" "st = run_chain pre (Value arg)"
    and "cache_ok sdata sem cache" "step_caches_ok sdata sem sc"
  shows "\<exists>cache' sc'. transform_rest_cached sdata arg todo st cache sc =
      (run_chain (pre @ map (\<lambda>t. rt_Function (fst t)) todo) (Value arg), cache', sc') \<and>
      cache_ok sdata sem cache' \<and> step_caches_ok sdata sem sc'"
  using assms
proof (induction sem pre todo arbitrary: st cache sc rule: chain_ids.induct)
  case (2 sem pre t i ts)
  obtain out sc' where rs: "run_step sdata t (fst st) sc = (out, sc')" by fastforce
  then have out: "out = rt_Function t (fst st)" and sc': "step_caches_ok sdata sem sc'"
    using run_step_ok [of sdata sem sc t "fst st"] "2.prems" by auto
  define st' where "st' = transformation_step (rt_Function t) st"
  have st': "st' = run_chain (pre @ [rt_Function t]) (Value arg)"
    using "2.prems" by (simp add: st'_def run_chain_snoc)
  have eq: "transformation_step (rt_Function t) (run_chain pre (Value arg)) = st'"
    using "2.prems" by (simp add: st'_def)
  have "cache_ok sdata sem (alist_put (newTransformationKey sdata arg i False)
      \<lparr>tv_input = Value arg, tv_arg = fst st', tv_errs = snd st',
       tv_changed = (case out of (v, ch, err) \<Rightarrow> ch \<and> err = None)\<rparr> cache)"
    by (intro cache_ok_put entry_okI) (use "2.prems" st' in simp_all)
  from "2.IH" [OF _ _ st' this sc'] "2.prems" rs show ?case
    by (simp add: out eq Let_def)
qed auto

lemma replay_ok:
  assumes "addresses_ok sdata" "chain_ids sem pre todo" "cache_ok sdata sem cache"
    and "st = run_multi pre (Value arg)"
  shows "\<exists>n. replay sdata arg cache todo st =
      (run_multi (pre @ map (\<lambda>t. rt_Function (fst t)) (take n todo)) (Value arg), drop n todo)"
  using assms
proof (induction sem pre todo arbitrary: st rule: chain_ids.induct)
  case (2 sem pre t i ts)
  show ?case
  proof (cases "alist_get cache (newTransformationKey sdata arg i True)")
    case None
    then show ?thesis using "2.prems" by (intro exI [of _ 0]) simp
  next
    case (Some v)
    have e: "entry_ok sem (Value arg) (newTransformationKey sdata arg i True) v"
      using cache_hit [OF "2.prems"(1,3) Some] .
    have "(if tv_changed v then fst st @ [tv_arg v] else fst st, tv_arg v, tv_errs v) =
        run_multi (pre @ [rt_Function t]) (Value arg)"
      using e "2.prems"
      by (auto simp: entry_ok_def newTransformationKey_def run_multi_snoc multimatch_step_def step_changed_def
          split: prod.splits option.splits if_splits)
    from "2.IH" [OF _ _ _ this] "2.prems" obtain n where
      "replay sdata arg cache ts (if tv_changed v then fst st @ [tv_arg v] else fst st, tv_arg v, tv_errs v) =
        (run_multi ((pre @ [rt_Function t]) @ map (\<lambda>t. rt_Function (fst t)) (take n ts)) (Value arg), drop n ts)"
      by auto
    then show ?thesis using Some by (intro exI [of _ "Suc n"]) simp
  qed
qed auto

lemma multimatch_rest_ok:
  assumes "addresses_ok sdata" "chain_ids sem pre todo" "st = run_multi pre (Value arg)"
    and "cache_ok sdata sem cache" "step_caches_ok sdata sem sc"
  shows "\<exists>cache' sc'. multimatch_rest sdata arg todo st cache sc =
      (run_multi (pre @ map (\<lambda>t. rt_Function (fst t)) todo) (Value arg), cache', sc') \<and>
      cache_ok sdata sem cache' \<and> step_caches_ok sdata sem sc'"
  using assms
proof (induction sem pre todo arbitrary: st cache sc rule: chain_ids.induct)
  case (2 sem pre t i ts)
  obtain out sc' where rs: "run_step sdata t (fst (snd st)) sc = (out, sc')" by fastforce
  then have out: "out = rt_Function t (fst (snd st))" and sc': "step_caches_ok sdata sem sc'"
    using run_step_ok [of sdata sem sc t "fst (snd st)"] "2.prems" by auto
  define st' where "st' = multimatch_step (rt_Function t) st"
  have st': "st' = run_multi (pre @ [rt_Function t]) (Value arg)"
    using "2.prems" by (simp add: st'_def run_multi_snoc)
  have eq: "multimatch_step (rt_Function t) (run_multi pre (Value arg)) = st'"
    using "2.prems" by (simp add: st'_def)
  have "cache_ok sdata sem (alist_put (newTransformationKey sdata arg i True)
      \<lparr>tv_input = Value arg, tv_arg = fst (snd st'), tv_errs = snd (snd st'),
       tv_changed = (case out of (v, ch, err) \<Rightarrow> ch \<and> err = None)\<rparr> cache)"
    by (intro cache_ok_put entry_ok_multiI) (use "2.prems" st' out in \<open>simp_all add: step_changed_def\<close>)
  from "2.IH" [OF _ _ st' this sc'] "2.prems" rs show ?case
    by (simp add: out eq Let_def)
qed auto

lemma zip_functions:
  "length ids = length ts \<Longrightarrow> map (\<lambda>t. rt_Function (fst t)) (zip ts ids) = map rt_Function ts"
  by (induction ids ts rule: list_induct2) auto

text \<open>A hit at index \<open>i\<close> gives the outcome of the first \<open>Suc i\<close> transformations.\<close>

lemma prefix_hit:
  assumes "addresses_ok sdata" "rule_ids_ok sem r" "cache_ok sdata sem cache"
    and "longest_hit (\<lambda>i. alist_get cache (newTransformationKey sdata arg (transformationPrefixIDs r ! i) False))
           (length (transformationPrefixIDs r)) = Some (i, v)"
  shows "i < length (transformations r)"
    and "(tv_arg v, tv_errs v) = run_chain (map rt_Function (take (Suc i) (transformations r))) (Value arg)"
proof -
  let ?todo = "zip (transformations r) (transformationPrefixIDs r)"
  have len: "length (transformationPrefixIDs r) = length (transformations r)"
    using assms(2) by (simp add: rule_ids_ok_def)
  from longest_hit_Some [OF assms(4)] len show i: "i < length (transformations r)" by simp
  have "alist_get cache (newTransformationKey sdata arg (transformationPrefixIDs r ! i) False) = Some v"
    using longest_hit_Some [OF assms(4)] by simp
  from cache_hit [OF assms(1,3) this]
  have "run_chain (sem (transformationPrefixIDs r ! i)) (Value arg) = (tv_arg v, tv_errs v)"
    by (simp add: entry_ok_def newTransformationKey_def)
  moreover have "sem (snd (?todo ! i)) = map (\<lambda>t. rt_Function (fst t)) (take (Suc i) ?todo)"
    using chain_ids_nth [of sem "[]" ?todo i] assms(2) i len by (simp add: rule_ids_ok_def)
  moreover have "map (\<lambda>t. rt_Function (fst t)) (take (Suc i) ?todo) = map rt_Function (take (Suc i) (transformations r))"
    using zip_functions [of "take (Suc i) (transformationPrefixIDs r)" "take (Suc i) (transformations r)"] len
    by (simp add: take_zip)
  ultimately show "(tv_arg v, tv_errs v) = run_chain (map rt_Function (take (Suc i) (transformations r))) (Value arg)"
    using i len by simp
qed

text \<open>The part of the chain after a hit continues it to the whole chain.\<close>

lemma rest_of_chain:
  assumes "rule_ids_ok sem r" "i \<le> length (transformations r)"
  shows "chain_ids sem (map rt_Function (take i (transformations r)))
      (drop i (zip (transformations r) (transformationPrefixIDs r)))"
    and "map rt_Function (take i (transformations r)) @
      map (\<lambda>t. rt_Function (fst t)) (drop i (zip (transformations r) (transformationPrefixIDs r))) =
      map rt_Function (transformations r)"
proof -
  have len: "length (transformationPrefixIDs r) = length (transformations r)"
    using assms(1) by (simp add: rule_ids_ok_def)
  have t: "map (\<lambda>t. rt_Function (fst t)) (take i (zip (transformations r) (transformationPrefixIDs r))) =
      map rt_Function (take i (transformations r))"
    using zip_functions [of "take i (transformationPrefixIDs r)" "take i (transformations r)"] len
    by (simp add: take_zip)
  show "chain_ids sem (map rt_Function (take i (transformations r)))
      (drop i (zip (transformations r) (transformationPrefixIDs r)))"
    using chain_ids_drop [of sem "[]" "zip (transformations r) (transformationPrefixIDs r)" i] assms(1) t
    by (simp add: rule_ids_ok_def)
  show "map rt_Function (take i (transformations r)) @
      map (\<lambda>t. rt_Function (fst t)) (drop i (zip (transformations r) (transformationPrefixIDs r))) =
      map rt_Function (transformations r)"
    using zip_functions [OF len] unfolding t [symmetric] map_append [symmetric] by simp
qed

lemma transformField_ok:
  assumes "addresses_ok sdata" "rule_ids_ok sem r" "cache_ok sdata sem cache"
  shows "\<exists>cache'. transformField sdata r arg cache = (executeTransformations (transformations r) (Value arg), cache') \<and>
    cache_ok sdata sem cache'"
proof (cases "transformations r = [] \<or> variable_name (Variable arg) = ''TX''")
  case True
  then show ?thesis using assms by (auto simp: transformField_def executeTransformations_def)
next
  case False
  let ?ids = "transformationPrefixIDs r" and ?todo = "zip (transformations r) (transformationPrefixIDs r)"
  let ?hit = "longest_hit (\<lambda>i. alist_get cache (newTransformationKey sdata arg (?ids ! i) False)) (length ?ids)"
  have len: "length ?ids = length (transformations r)" using assms(2) by (simp add: rule_ids_ok_def)
  have rest: "\<exists>cache'. transform_rest sdata arg (drop i ?todo) st cache =
        (executeTransformations (transformations r) (Value arg), cache') \<and> cache_ok sdata sem cache'"
    if "i \<le> length (transformations r)" "st = run_chain (map rt_Function (take i (transformations r))) (Value arg)" for i st
    using transform_rest_ok [OF rest_of_chain(1) [OF assms(2) that(1)] that(2) assms(3)] rest_of_chain(2) [OF assms(2) that(1)]
    by (metis executeTransformations_chain prod.collapse)
  show ?thesis
  proof (cases ?hit)
    case None
    then show ?thesis using False rest [of 0 "(Value arg, [])"]
      by (simp add: transformField_def run_chain_def)
  next
    case (Some p)
    obtain i v where p: "p = (i, v)" by fastforce
    note hit = prefix_hit [OF assms Some [unfolded p]]
    show ?thesis
    proof (cases "i = length ?ids - 1")
      case True
      then show ?thesis using hit False Some p assms(3) len
        by (auto simp: transformField_def Let_def executeTransformations_chain)
    next
      case i: False
      then show ?thesis using False Some p hit rest [of "Suc i" "(tv_arg v, tv_errs v)"]
        by (simp add: transformField_def Let_def)
    qed
  qed
qed

lemma transformFieldCached_ok:
  assumes "addresses_ok sdata" "rule_ids_ok sem r" "cache_ok sdata sem cache" "step_caches_ok sdata sem sc"
  shows "\<exists>cache' sc'. transformFieldCached sdata r arg cache sc =
      (executeTransformations (transformations r) (Value arg), cache', sc') \<and>
    cache_ok sdata sem cache' \<and> step_caches_ok sdata sem sc'"
proof (cases "sc = None \<or> length (Value arg) < cachedTransformationStepMinInputBytes")
  case True
  then show ?thesis using transformField_ok [OF assms(1-3), of arg] assms(4)
    by (auto simp: transformFieldCached_def)
next
  case nt: False
  show ?thesis
  proof (cases "transformations r = [] \<or> variable_name (Variable arg) = ''TX''")
    case True
    then show ?thesis using nt assms by (auto simp: transformFieldCached_def executeTransformations_def)
  next
    case False
    let ?ids = "transformationPrefixIDs r" and ?todo = "zip (transformations r) (transformationPrefixIDs r)"
    let ?hit = "longest_hit (\<lambda>i. alist_get cache (newTransformationKey sdata arg (?ids ! i) False)) (length ?ids)"
    have len: "length ?ids = length (transformations r)" using assms(2) by (simp add: rule_ids_ok_def)
    have rest: "\<exists>cache' sc'. transform_rest_cached sdata arg (drop i ?todo) st cache sc =
          (executeTransformations (transformations r) (Value arg), cache', sc') \<and>
          cache_ok sdata sem cache' \<and> step_caches_ok sdata sem sc'"
      if "i \<le> length (transformations r)" "st = run_chain (map rt_Function (take i (transformations r))) (Value arg)" for i st
      using transform_rest_cached_ok [OF assms(1) rest_of_chain(1) [OF assms(2) that(1)] that(2) assms(3,4)]
        rest_of_chain(2) [OF assms(2) that(1)]
      by (simp add: executeTransformations_chain)
    obtain c where "sc = Some c" using nt by auto
    note base = this nt False
    show ?thesis
    proof (cases ?hit)
      case None
      then show ?thesis using base rest [of 0 "(Value arg, [])"]
        by (simp add: transformFieldCached_def run_chain_def)
    next
      case (Some p)
      obtain i v where p: "p = (i, v)" by fastforce
      note hit = prefix_hit [OF assms(1-3) Some [unfolded p]]
      show ?thesis
      proof (cases "i = length ?ids - 1")
        case True
        then show ?thesis using hit base Some p assms(3,4) len
          by (auto simp: transformFieldCached_def Let_def executeTransformations_chain)
      next
        case i: False
        then show ?thesis using base Some p hit rest [of "Suc i" "(tv_arg v, tv_errs v)"]
          by (simp add: transformFieldCached_def Let_def)
      qed
    qed
  qed
qed

lemma transformFieldMultimatchCached_ok:
  assumes "addresses_ok sdata" "rule_ids_ok sem r" "cache_ok sdata sem cache" "step_caches_ok sdata sem sc"
  shows "\<exists>cache' sc'. transformFieldMultimatchCached sdata r arg cache sc [] =
      (executeTransformationsMultimatchInto (transformations r) [] (Value arg), cache', sc') \<and>
    cache_ok sdata sem cache' \<and> step_caches_ok sdata sem sc'"
proof (cases "transformations r = [] \<or> length (Value arg) < cachedTransformationStepMinInputBytes \<or>
    variable_name (Variable arg) = ''TX''")
  case True
  then show ?thesis using assms(3,4) by (auto simp: transformFieldMultimatchCached_def)
next
  case False
  let ?todo = "zip (transformations r) (transformationPrefixIDs r)"
  have ids: "chain_ids sem [] ?todo" and fns: "map (\<lambda>t. rt_Function (fst t)) ?todo = map rt_Function (transformations r)"
    using assms(2) by (auto simp: rule_ids_ok_def zip_functions)
  obtain n where rp: "replay sdata arg cache ?todo ([Value arg], Value arg, []) =
      (run_multi (map (\<lambda>t. rt_Function (fst t)) (take n ?todo)) (Value arg), drop n ?todo)"
    using replay_ok [OF assms(1) ids assms(3), of "([Value arg], Value arg, [])" arg] by (auto simp: run_multi_def)
  have all: "map (\<lambda>t. rt_Function (fst t)) (take n ?todo) @ map (\<lambda>t. rt_Function (fst t)) (drop n ?todo) =
      map rt_Function (transformations r)"
    using fns by (metis append_take_drop_id map_append)
  obtain cache' sc' where mr: "multimatch_rest sdata arg (drop n ?todo)
        (run_multi (map (\<lambda>t. rt_Function (fst t)) (take n ?todo)) (Value arg)) cache sc =
      (run_multi (map rt_Function (transformations r)) (Value arg), cache', sc')"
      "cache_ok sdata sem cache'" "step_caches_ok sdata sem sc'"
    using multimatch_rest_ok [OF assms(1) chain_ids_drop [OF ids, of n, simplified] refl assms(3,4), of arg] all
    by (simp only: append.simps) blast
  obtain a b c where run: "run_multi (map rt_Function (transformations r)) (Value arg) = (a, b, c)"
    by (cases "run_multi (map rt_Function (transformations r)) (Value arg)" rule: prod_cases3)
  then show ?thesis
    using False rp mr
    by (auto simp: transformFieldMultimatchCached_def executeTransformationsMultimatchInto_def run_multi_def fold_map comp_def)
qed

section \<open>What the chain IDs stand for\<close>

text \<open>
  The table names a chain by its transformations joined with \<open>+\<close>; the names of the chain
  are read back by splitting. \<open>reg\<close> gives the function registered under a name.
\<close>

definition names_of :: "string \<Rightarrow> string list" where
  "names_of s = tl (split_byte s CHR ''+'')"

definition sem_of :: "(string \<Rightarrow> transformation) \<Rightarrow> id_table \<Rightarrow> int \<Rightarrow> transformation list" where
  "sem_of reg tbl i = map reg (names_of (transformationIDToName tbl ! nat i))"

definition valid_id :: "id_table \<Rightarrow> int \<Rightarrow> bool" where
  "valid_id tbl i = (0 \<le> i \<and> i < int (length (transformationIDToName tbl)))"

definition table_ok :: "id_table \<Rightarrow> bool" where
  "table_ok tbl =
     (transformationIDToName tbl \<noteq> [] \<and> transformationIDToName tbl ! 0 = [] \<and>
      (\<forall>n i. alist_get (transformationNameToID tbl) n = Some i \<longrightarrow>
         valid_id tbl i \<and> transformationIDToName tbl ! nat i = n))"

text \<open>A table that has only grown.\<close>

definition extends :: "id_table \<Rightarrow> id_table \<Rightarrow> bool" where
  "extends tbl tbl' = prefix (transformationIDToName tbl) (transformationIDToName tbl')"

definition rule_numbered :: "(string \<Rightarrow> transformation) \<Rightarrow> id_table \<Rightarrow> 'a rule_transformations_scheme \<Rightarrow> bool" where
  "rule_numbered reg tbl r =
     (rule_ids_ok (sem_of reg tbl) r \<and> valid_id tbl (transformationsID r) \<and>
      sem_of reg tbl (transformationsID r) = map rt_Function (transformations r) \<and>
      list_all (valid_id tbl) (transformationPrefixIDs r) \<and>
      list_all (\<lambda>t. valid_id tbl (rt_ID t)) (transformations r))"

lemma split_byte_no: "c \<notin> set s \<Longrightarrow> split_byte s c = [s]"
  by (induction s) auto

lemma split_byte_append: "split_byte (s @ c # t) c = split_byte s c @ split_byte t c"
  by (induction s) (auto split: list.splits)

lemma names_of_snoc: "CHR ''+'' \<notin> set n \<Longrightarrow> names_of (s @ ''+'' @ n) = names_of s @ [n]"
  by (simp add: names_of_def split_byte_append split_byte_no)

lemma names_of_Nil [simp]: "names_of [] = []"
  by (simp add: names_of_def)

lemma table_ok_initial [simp]: "table_ok initial_id_table" "valid_id initial_id_table 0"
  by (auto simp: table_ok_def initial_id_table_def valid_id_def split: if_splits)

lemma table_ok_0: "table_ok tbl \<Longrightarrow> valid_id tbl 0 \<and> sem_of reg tbl 0 = []"
  by (simp add: table_ok_def valid_id_def sem_of_def)

lemma extends_refl [simp]: "extends tbl tbl"
  by (simp add: extends_def)

lemma extends_trans: "extends a b \<Longrightarrow> extends b c \<Longrightarrow> extends a c"
  by (auto simp: extends_def intro: prefix_order.trans)

lemma extends_valid: "extends tbl tbl' \<Longrightarrow> valid_id tbl i \<Longrightarrow> valid_id tbl' i"
  by (auto simp: extends_def valid_id_def dest: prefix_length_le)

lemma extends_sem: "extends tbl tbl' \<Longrightarrow> valid_id tbl i \<Longrightarrow> sem_of reg tbl' i = sem_of reg tbl i"
  by (auto simp: extends_def valid_id_def sem_of_def prefix_def nth_append)

lemma transformationID_ok:
  assumes "table_ok tbl" "valid_id tbl cur" "CHR ''+'' \<notin> set name"
  shows "\<exists>i tbl'. transformationID tbl cur name = Some (i, tbl') \<and> table_ok tbl' \<and> extends tbl tbl' \<and>
    valid_id tbl' i \<and> sem_of reg tbl' i = sem_of reg tbl cur @ [reg name]"
proof (cases "alist_get (transformationNameToID tbl) ((transformationIDToName tbl ! nat cur) @ ''+'' @ name)")
  case (Some i)
  then have "valid_id tbl i" "transformationIDToName tbl ! nat i = (transformationIDToName tbl ! nat cur) @ ''+'' @ name"
    using assms(1) by (auto simp: table_ok_def)
  then show ?thesis using Some assms names_of_snoc [OF assms(3)]
    by (auto simp: transformationID_def valid_id_def sem_of_def)
next
  case None
  let ?n = "(transformationIDToName tbl ! nat cur) @ ''+'' @ name"
  let ?i = "int (length (transformationIDToName tbl))"
  let ?tbl = "\<lparr>transformationIDToName = transformationIDToName tbl @ [?n],
     transformationNameToID = alist_put ?n ?i (transformationNameToID tbl)\<rparr>"
  have "transformationID tbl cur name = Some (?i, ?tbl)"
    using None assms(2) by (simp add: transformationID_def valid_id_def Let_def)
  moreover have "extends tbl ?tbl" by (simp add: extends_def)
  moreover have "valid_id ?tbl ?i" by (simp add: valid_id_def)
  moreover have old: "0 \<le> i \<and> nat i < length (transformationIDToName tbl) \<and> transformationIDToName tbl ! nat i = n"
    if "alist_get (transformationNameToID tbl) n = Some i" for n i
    using that assms(1) unfolding table_ok_def valid_id_def by (metis nat_less_iff)
  moreover have "table_ok ?tbl"
    using assms(1) by (auto simp: table_ok_def valid_id_def nth_append dest!: old split: if_splits)
  moreover have "sem_of reg ?tbl ?i = sem_of reg tbl cur @ [reg name]"
    using names_of_snoc [OF assms(3)] by (simp add: sem_of_def)
  ultimately show ?thesis by blast
qed

lemma chain_ids_cong:
  "\<forall>(t, i) \<in> set ts. sem' i = sem i \<and> sem' (rt_ID t) = sem (rt_ID t) \<Longrightarrow>
   chain_ids sem' pre ts = chain_ids sem pre ts"
  by (induction ts arbitrary: pre) auto

text \<open>Growth of the table does not disturb the rules numbered before.\<close>

lemma rule_numbered_extends:
  assumes "rule_numbered reg tbl r" "extends tbl tbl'"
  shows "rule_numbered reg tbl' r"
proof -
  have "chain_ids (sem_of reg tbl') [] (zip (transformations r) (transformationPrefixIDs r)) =
      chain_ids (sem_of reg tbl) [] (zip (transformations r) (transformationPrefixIDs r))"
  proof (rule chain_ids_cong, clarify)
    fix t i
    assume "(t, i) \<in> set (zip (transformations r) (transformationPrefixIDs r))"
    then have "valid_id tbl i" "valid_id tbl (rt_ID t)"
      using assms(1) by (auto simp: rule_numbered_def list_all_iff dest: set_zip_leftD set_zip_rightD)
    then show "sem_of reg tbl' i = sem_of reg tbl i \<and> sem_of reg tbl' (rt_ID t) = sem_of reg tbl (rt_ID t)"
      using extends_sem [OF assms(2)] by blast
  qed
  then show ?thesis
    using assms extends_valid [OF assms(2)] extends_sem [OF assms(2)]
    by (auto simp: rule_numbered_def rule_ids_ok_def list_all_iff)
qed

lemma AddTransformation_ok:
  assumes "table_ok tbl" "rule_numbered reg tbl r" "name \<noteq> []" "CHR ''+'' \<notin> set name"
  shows "\<exists>r' tbl'. AddTransformation tbl r name (Some (reg name)) = Some (Inr (r', tbl')) \<and>
    table_ok tbl' \<and> extends tbl tbl' \<and> rule_numbered reg tbl' r' \<and>
    map rt_Function (transformations r') = map rt_Function (transformations r) @ [reg name]"
proof -
  obtain sid tbl1 where s: "transformationID tbl 0 name = Some (sid, tbl1)" "table_ok tbl1" "extends tbl tbl1"
    "valid_id tbl1 sid" "sem_of reg tbl1 sid = [reg name]"
    using transformationID_ok [OF assms(1) _ assms(4), of 0 reg] table_ok_0 [OF assms(1)] by fastforce
  have r1: "rule_numbered reg tbl1 r" using rule_numbered_extends [OF assms(2) s(3)] .
  then have v: "valid_id tbl1 (transformationsID r)"
    and sm: "sem_of reg tbl1 (transformationsID r) = map rt_Function (transformations r)"
    by (auto simp: rule_numbered_def)
  obtain tid tbl2 where t: "transformationID tbl1 (transformationsID r) name = Some (tid, tbl2)" "table_ok tbl2"
    "extends tbl1 tbl2" "valid_id tbl2 tid" "sem_of reg tbl2 tid = map rt_Function (transformations r) @ [reg name]"
    using transformationID_ok [OF s(2) v assms(4), of reg] sm by auto
  have r2: "rule_numbered reg tbl2 r" using rule_numbered_extends [OF r1 t(3)] .
  have sid: "valid_id tbl2 sid" "sem_of reg tbl2 sid = [reg name]"
    using extends_valid [OF t(3) s(4)] extends_sem [OF t(3) s(4), of reg] s(5) by auto
  let ?r = "r\<lparr>transformations := transformations r @ [\<lparr>rt_Function = reg name, rt_ID = sid\<rparr>],
      transformationsID := tid, transformationPrefixIDs := transformationPrefixIDs r @ [tid]\<rparr>"
  have "rule_numbered reg tbl2 ?r"
    using r2 t sid by (auto simp: rule_numbered_def rule_ids_ok_def chain_ids_snoc zip_functions)
  moreover have "AddTransformation tbl r name (Some (reg name)) = Some (Inr (?r, tbl2))"
    using assms(3) s(1) t(1) by (simp add: AddTransformation_def)
  ultimately show ?thesis using t(2) extends_trans [OF s(3) t(3)] by auto
qed

section \<open>A phase of cached queries\<close>

text \<open>
  What the rules of one phase ask of the caches: a rule, the value it inspects, and whether
  it is a multi-match rule. The caches are threaded through the queries.
\<close>

record 'a query =
  q_rule :: "'a rule_transformations_scheme"
  q_arg :: match
  q_multi :: bool

fun cached_answers :: "(string \<Rightarrow> nat) \<Rightarrow> 'a query list \<Rightarrow> transformationCache \<Rightarrow> transformationStepCache option \<Rightarrow>
    (string list \<times> error list) list" where
  "cached_answers sdata [] cache sc = []"
| "cached_answers sdata (q # qs) cache sc =
     (if q_multi q then
        (case transformFieldMultimatchCached sdata (q_rule q) (q_arg q) cache sc [] of
           (ans, cache', sc') \<Rightarrow> ans # cached_answers sdata qs cache' sc')
      else
        (case transformFieldCached sdata (q_rule q) (q_arg q) cache sc of
           ((v, errs), cache', sc') \<Rightarrow> ([v], errs) # cached_answers sdata qs cache' sc'))"

definition uncached_answer :: "'a query \<Rightarrow> string list \<times> error list" where
  "uncached_answer q =
     (if q_multi q then executeTransformationsMultimatchInto (transformations (q_rule q)) [] (Value (q_arg q))
      else case executeTransformations (transformations (q_rule q)) (Value (q_arg q)) of (v, errs) \<Rightarrow> ([v], errs))"

lemma cached_answers_ok:
  assumes "addresses_ok sdata" "list_all (\<lambda>q. rule_ids_ok sem (q_rule q)) qs"
    and "cache_ok sdata sem cache" "step_caches_ok sdata sem sc"
  shows "cached_answers sdata qs cache sc = map uncached_answer qs"
  using assms(2-4)
proof (induction qs arbitrary: cache sc)
  case (Cons q qs)
  then show ?case
    using transformFieldCached_ok [OF assms(1), of sem "q_rule q" cache sc "q_arg q"]
      transformFieldMultimatchCached_ok [OF assms(1), of sem "q_rule q" cache sc "q_arg q"]
    by (auto simp: uncached_answer_def split: prod.splits)
qed simp

definition empty_step_cache :: transformationStepCache where
  "empty_step_cache = \<lparr>sc_values = [], sc_retainedBytes = 0\<rparr>"

section \<open>Bounds of the step cache\<close>

definition retained :: "transformationStepCache \<Rightarrow> int" where
  "retained sc = sum_list (map (\<lambda>(k, v). int (length (sv_input v) + length (sv_output v))) (sc_values sc))"

definition step_cache_bounded :: "transformationStepCache \<Rightarrow> bool" where
  "step_cache_bounded sc =
     (length (sc_values sc) \<le> maxTransformationStepCacheEntries \<and>
      sc_retainedBytes sc = retained sc \<and> sc_retainedBytes sc \<le> maxTransformationStepCacheBytes)"

lemma alist_put_new: "alist_get ps k = None \<Longrightarrow> alist_put k v ps = ps @ [(k, v)]"
  by (induction ps) (auto split: if_splits)

lemma store_bounded:
  "step_cache_bounded sc \<Longrightarrow> alist_get (sc_values sc) key = None \<Longrightarrow> step_cache_bounded (store sc key v)"
  by (auto simp: step_cache_bounded_def store_def Let_def alist_put_new retained_def)

section \<open>Properties\<close>

text \<open>
  C34: the transformation caches are invisible: the answers to any sequence of queries of
  rules numbered by the global table, threaded through the prefix cache and the step cache
  of a phase, are those of the uncached execution, provided live strings of equal length at
  one address are equal.
\<close>

theorem transformation_caches_transparent:
  assumes "addresses_ok sdata" "list_all (\<lambda>q. rule_numbered reg tbl (q_rule q)) qs"
  shows "cached_answers sdata qs [] (Some empty_step_cache) = map uncached_answer qs"
proof (rule cached_answers_ok [OF assms(1)])
  show "list_all (\<lambda>q. rule_ids_ok (sem_of reg tbl) (q_rule q)) qs"
    using assms(2) by (auto simp: list_all_iff rule_numbered_def)
  show "cache_ok sdata (sem_of reg tbl) []" by (simp add: cache_ok_def)
  show "step_caches_ok sdata (sem_of reg tbl) (Some empty_step_cache)"
    by (simp add: step_caches_ok_def step_cache_ok_def empty_step_cache_def)
qed

text \<open>
  The addresses of a witness: \<open>bytes_value\<close> reads a string as a number with a leading
  one, so that different strings have different addresses.
\<close>

fun bytes_value :: "string \<Rightarrow> nat" where
  "bytes_value [] = 1"
| "bytes_value (c # s) = byte c + 256 * bytes_value s"

lemma bytes_value_inj: "length s = length t \<Longrightarrow> bytes_value s = bytes_value t \<Longrightarrow> s = t"
proof (induction s t rule: list_induct2)
  case (Cons c s d t)
  from Cons.prems have "(bytes_value s * 256 + byte c) div 256 = (bytes_value t * 256 + byte d) div 256"
    and "(bytes_value s * 256 + byte c) mod 256 = (bytes_value t * 256 + byte d) mod 256"
    by (simp_all add: mult.commute add.commute)
  then have "bytes_value s = bytes_value t" "byte c = byte d"
    using radix_split [of "byte c" 256 "bytes_value s"] radix_split [of "byte d" 256 "bytes_value t"] by simp_all
  with Cons.IH show ?case by simp
qed simp

lemma bytes_value_addresses: "addresses_ok bytes_value"
  using bytes_value_inj by (auto simp: addresses_ok_def)

definition empty_rule_transformations :: rule_transformations where
  "empty_rule_transformations =
     \<lparr>transformations = [], transformationsID = 0, transformationPrefixIDs = []\<rparr>"

lemma empty_rule_numbered: "table_ok tbl \<Longrightarrow> rule_numbered reg tbl empty_rule_transformations"
  using table_ok_0 [of tbl reg] by (simp add: rule_numbered_def rule_ids_ok_def empty_rule_transformations_def)

text \<open>Two queries of a rule with one transformation, the second answered by the cache.\<close>

theorem transformation_caches_transparent_witness:
  "\<exists>r tbl. AddTransformation initial_id_table empty_rule_transformations ''t'' (Some (\<lambda>s. (''x'' @ s, True, None))) =
       Some (Inr (r, tbl)) \<and>
     cached_answers bytes_value
       [\<lparr>q_rule = r, q_arg = \<lparr>Variable = V_Args, Key = [], Value = ''ab''\<rparr>, q_multi = False\<rparr>,
        \<lparr>q_rule = r, q_arg = \<lparr>Variable = V_Args, Key = [], Value = ''ab''\<rparr>, q_multi = False\<rparr>]
       [] (Some empty_step_cache) = [([''xab''], []), ([''xab''], [])]"
proof -
  define reg :: "string \<Rightarrow> transformation" where "reg = (\<lambda>n s. (''x'' @ s, True, None))"
  obtain r tbl where r: "AddTransformation initial_id_table empty_rule_transformations ''t'' (Some (reg ''t'')) = Some (Inr (r, tbl))"
    "rule_numbered reg tbl r" "map rt_Function (transformations r) = [reg ''t'']"
    using AddTransformation_ok [of initial_id_table reg empty_rule_transformations "''t''"] empty_rule_numbered
    by (auto simp: empty_rule_transformations_def)
  let ?q = "\<lparr>q_rule = r, q_arg = \<lparr>Variable = V_Args, Key = [], Value = ''ab''\<rparr>, q_multi = False\<rparr>"
  have "cached_answers bytes_value [?q, ?q] [] (Some empty_step_cache) = map uncached_answer [?q, ?q]"
    by (rule transformation_caches_transparent [OF bytes_value_addresses, where reg = reg and tbl = tbl]) (simp add: r(2))
  moreover have "uncached_answer ?q = ([''xab''], [])"
    using r(3) by (simp add: uncached_answer_def executeTransformations_chain run_chain_def transformation_step_def reg_def)
  ultimately show ?thesis using r(1) by (auto simp: reg_def)
qed

text \<open>
  adding a transformation numbers the longer chain and leaves every rule numbered before
  as it was: the IDs of all rules keep standing for their own chains.
\<close>

theorem AddTransformation_numbering:
  assumes "table_ok tbl" "rule_numbered reg tbl r" "rule_numbered reg tbl other"
    and "name \<noteq> []" "CHR ''+'' \<notin> set name"
  shows "\<exists>r' tbl'. AddTransformation tbl r name (Some (reg name)) = Some (Inr (r', tbl')) \<and> table_ok tbl' \<and>
    rule_numbered reg tbl' r' \<and> rule_numbered reg tbl' other \<and>
    map rt_Function (transformations r') = map rt_Function (transformations r) @ [reg name]"
  using AddTransformation_ok [OF assms(1,2,4,5)] rule_numbered_extends [OF assms(3)] by metis

theorem AddTransformation_numbering_witness:
  "\<exists>r' tbl'. AddTransformation initial_id_table empty_rule_transformations ''none'' (Some (\<lambda>s. (s, False, None))) =
      Some (Inr (r', tbl')) \<and> rule_numbered (\<lambda>n s. (s, False, None)) tbl' empty_rule_transformations"
  using AddTransformation_numbering [of initial_id_table "\<lambda>n s. (s, False, None)" empty_rule_transformations
      empty_rule_transformations "''none''"] empty_rule_numbered [of initial_id_table "\<lambda>n s. (s, False, None)"]
  by auto

text \<open>
  running a transformation through the step cache keeps the cache within 512 entries and
  16 MiB of retained bytes, and its byte counter exact.
\<close>

theorem step_cache_stays_bounded:
  assumes "step_cache_bounded sc"
  shows "step_cache_bounded (snd (executeTransformationCached sdata t input sc))"
  using assms store_bounded
  by (auto simp: executeTransformationCached_def Let_def split: option.splits prod.splits)

theorem step_cache_stays_bounded_witness:
  "step_cache_bounded (snd (executeTransformationCached bytes_value \<lparr>rt_Function = (\<lambda>s. (s, False, None)), rt_ID = 1\<rparr>
     ''ab'' empty_step_cache))"
  by (rule step_cache_stays_bounded)
    (simp add: step_cache_bounded_def empty_step_cache_def retained_def maxTransformationStepCacheBytes_def)

end
