(* ===== verification/Types_Waf.thy ===== *)
theory Types_Waf
  imports Utf8
begin

text \<open>
  The public types of package \<open>types\<close> (\<open>types/waf.go\<close>, \<open>types/phase.go\<close>,
  \<open>types/severity.go\<close>) and \<open>internal/corazatypes/allow.go\<close>: phases and severities
  with the order of their Go numbers, engine states with their parsers, and the audit log
  parts.
\<close>

section \<open>Phases\<close>

datatype rule_phase =
    PhaseUnknown
  | PhaseRequestHeaders
  | PhaseRequestBody
  | PhaseResponseHeaders
  | PhaseResponseBody
  | PhaseLogging

fun phase_int :: "rule_phase \<Rightarrow> int" where
  "phase_int PhaseUnknown = 0"
| "phase_int PhaseRequestHeaders = 1"
| "phase_int PhaseRequestBody = 2"
| "phase_int PhaseResponseHeaders = 3"
| "phase_int PhaseResponseBody = 4"
| "phase_int PhaseLogging = 5"

text \<open>The conversion \<open>RulePhase(i)\<close>, on the values the code converts.\<close>

definition phase_of_int :: "int \<Rightarrow> rule_phase" where
  "phase_of_int i =
     (if i = 1 then PhaseRequestHeaders else if i = 2 then PhaseRequestBody
      else if i = 3 then PhaseResponseHeaders else if i = 4 then PhaseResponseBody
      else if i = 5 then PhaseLogging else PhaseUnknown)"

lemma phase_int_inject: "phase_int p = phase_int q \<Longrightarrow> p = q"
  by (cases p; cases q; simp)

instantiation rule_phase :: linorder
begin

definition less_eq_rule_phase :: "rule_phase \<Rightarrow> rule_phase \<Rightarrow> bool" where
  "less_eq_rule_phase p q = (phase_int p \<le> phase_int q)"

definition less_rule_phase :: "rule_phase \<Rightarrow> rule_phase \<Rightarrow> bool" where
  "less_rule_phase p q = (phase_int p < phase_int q)"

instance
  by standard (auto simp: less_eq_rule_phase_def less_rule_phase_def phase_int_inject)

end

lemmas phase_order_defs = less_eq_rule_phase_def less_rule_phase_def

lemma phase_of_int_int [simp]: "phase_of_int (phase_int p) = p"
  by (cases p) (simp_all add: phase_of_int_def)

definition ParseRulePhase :: "string \<Rightarrow> rule_phase result" where
  "ParseRulePhase phase =
     (let i = (if phase = ''request'' then 2 else if phase = ''response'' then 4
               else if phase = ''logging'' then 5 else fst (atoi phase))
      in if 5 < i \<or> i < 1 then Inl (Error (''invalid phase '' @ phase)) else Inr (phase_of_int i))"

section \<open>Severities\<close>

datatype rule_severity =
    RuleSeverityEmergency
  | RuleSeverityAlert
  | RuleSeverityCritical
  | RuleSeverityError
  | RuleSeverityWarning
  | RuleSeverityNotice
  | RuleSeverityInfo
  | RuleSeverityDebug
  | RuleSeverityUnset

fun severity_int :: "rule_severity \<Rightarrow> int" where
  "severity_int RuleSeverityEmergency = 0"
| "severity_int RuleSeverityAlert = 1"
| "severity_int RuleSeverityCritical = 2"
| "severity_int RuleSeverityError = 3"
| "severity_int RuleSeverityWarning = 4"
| "severity_int RuleSeverityNotice = 5"
| "severity_int RuleSeverityInfo = 6"
| "severity_int RuleSeverityDebug = 7"
| "severity_int RuleSeverityUnset = -1"

fun severity_string :: "rule_severity \<Rightarrow> string" where
  "severity_string RuleSeverityEmergency = ''emergency''"
| "severity_string RuleSeverityAlert = ''alert''"
| "severity_string RuleSeverityCritical = ''critical''"
| "severity_string RuleSeverityError = ''error''"
| "severity_string RuleSeverityWarning = ''warning''"
| "severity_string RuleSeverityNotice = ''notice''"
| "severity_string RuleSeverityInfo = ''info''"
| "severity_string RuleSeverityDebug = ''debug''"
| "severity_string RuleSeverityUnset = ''unknown''"

text \<open>The conversion \<open>RuleSeverity(s)\<close> for \<open>0 <= s <= 7\<close>.\<close>

definition severity_of_int :: "int \<Rightarrow> rule_severity" where
  "severity_of_int i =
     (if i = 0 then RuleSeverityEmergency else if i = 1 then RuleSeverityAlert
      else if i = 2 then RuleSeverityCritical else if i = 3 then RuleSeverityError
      else if i = 4 then RuleSeverityWarning else if i = 5 then RuleSeverityNotice
      else if i = 6 then RuleSeverityInfo else if i = 7 then RuleSeverityDebug
      else RuleSeverityUnset)"

lemma severity_int_inject: "severity_int p = severity_int q \<Longrightarrow> p = q"
  by (cases p; cases q; simp)

instantiation rule_severity :: linorder
begin

definition less_eq_rule_severity :: "rule_severity \<Rightarrow> rule_severity \<Rightarrow> bool" where
  "less_eq_rule_severity p q = (severity_int p \<le> severity_int q)"

definition less_rule_severity :: "rule_severity \<Rightarrow> rule_severity \<Rightarrow> bool" where
  "less_rule_severity p q = (severity_int p < severity_int q)"

instance
  by standard (auto simp: less_eq_rule_severity_def less_rule_severity_def severity_int_inject)

end

lemma severity_of_int_int [simp]: "severity_of_int (severity_int p) = p"
  by (cases p) (simp_all add: severity_of_int_def)

definition ParseRuleSeverity :: "case_table \<Rightarrow> string \<Rightarrow> rule_severity result" where
  "ParseRuleSeverity ct input =
     (if length input = 1 then
        (case atoi input of (s, err) \<Rightarrow>
           if err then Inl (Error ''strconv.Atoi'')
           else if s < 0 \<or> 7 < s then Inl (Error (''invalid severity: '' @ itoa s))
           else Inr (severity_of_int s))
      else let l = to_lower ct input in
        if l = ''emergency'' then Inr RuleSeverityEmergency
        else if l = ''alert'' then Inr RuleSeverityAlert
        else if l = ''critical'' then Inr RuleSeverityCritical
        else if l = ''error'' then Inr RuleSeverityError
        else if l = ''warning'' then Inr RuleSeverityWarning
        else if l = ''notice'' then Inr RuleSeverityNotice
        else if l = ''info'' then Inr RuleSeverityInfo
        else if l = ''debug'' then Inr RuleSeverityDebug
        else Inl (Error (''unknown severity: '' @ input)))"

section \<open>Engine states\<close>

datatype audit_engine_status = AuditEngineOn | AuditEngineOff | AuditEngineRelevantOnly

datatype rule_engine_status = RuleEngineOn | RuleEngineDetectionOnly | RuleEngineOff

datatype upload_keep_files_status = UploadKeepFilesOff | UploadKeepFilesOn | UploadKeepFilesRelevantOnly

datatype body_limit_action = BodyLimitActionProcessPartial | BodyLimitActionReject

datatype allow_type = AllowTypeUnset | AllowTypeAll | AllowTypePhase | AllowTypeRequest

definition ParseAuditEngineStatus :: "case_table \<Rightarrow> string \<Rightarrow> audit_engine_status result" where
  "ParseAuditEngineStatus ct as =
     (let l = to_lower ct as in
      if l = ''on'' then Inr AuditEngineOn
      else if l = ''off'' then Inr AuditEngineOff
      else if l = ''relevantonly'' then Inr AuditEngineRelevantOnly
      else Inl (Error (''invalid audit engine status: '' @ as)))"

definition ParseRuleEngineStatus :: "case_table \<Rightarrow> string \<Rightarrow> rule_engine_status result" where
  "ParseRuleEngineStatus ct re =
     (let l = to_lower ct re in
      if l = ''on'' then Inr RuleEngineOn
      else if l = ''detectiononly'' then Inr RuleEngineDetectionOnly
      else if l = ''off'' then Inr RuleEngineOff
      else Inl (Error ''invalid rule engine status''))"

fun rule_engine_string :: "rule_engine_status \<Rightarrow> string" where
  "rule_engine_string RuleEngineOn = ''On''"
| "rule_engine_string RuleEngineDetectionOnly = ''DetectionOnly''"
| "rule_engine_string RuleEngineOff = ''Off''"

definition ParseUploadKeepFilesStatus :: "case_table \<Rightarrow> string \<Rightarrow> upload_keep_files_status result" where
  "ParseUploadKeepFilesStatus ct s =
     (let l = to_lower ct s in
      if l = ''on'' then Inr UploadKeepFilesOn
      else if l = ''off'' then Inr UploadKeepFilesOff
      else if l = ''relevantonly'' then Inr UploadKeepFilesRelevantOnly
      else Inl (Error ''invalid upload keep files status''))"

record interruption =
  i_RuleID :: int
  i_Action :: string
  i_Status :: int
  i_Data :: string

section \<open>Audit log parts\<close>

text \<open>An \<open>AuditLogPart\<close> is a byte.\<close>

type_synonym audit_log_parts = string

definition orderedAuditLogParts :: audit_log_parts where
  "orderedAuditLogParts = ''BCDEFGHIJK''"

text \<open>
  The loops range over the runes of the option string; the conversion
  \<open>AuditLogPart(p)\<close> keeps the low byte of the rune.
\<close>

definition ParseAuditLogParts :: "string \<Rightarrow> audit_log_parts result" where
  "ParseAuditLogParts opts =
     (if \<not> has_prefix opts ''A'' then Inl (Error ''audit log parts is required to start with A'')
      else if \<not> has_suffix opts ''Z'' then Inl (Error ''audit log parts is required to end with Z'')
      else let middleParts = take (length opts - 2) (drop 1 opts) in
        if \<not> list_all (\<lambda>p. to_byte p \<in> set orderedAuditLogParts) (runes middleParts)
        then Inl (Error ''invalid audit log parts'')
        else Inr opts)"

fun check_modified_parts :: "nat list \<Rightarrow> error option" where
  "check_modified_parts [] = None"
| "check_modified_parts (p # ps) =
     (if p = 65 \<or> p = 90 then
        Some (Error ''audit log parts A and Z are mandatory and cannot be modified'')
      else if to_byte p \<notin> set orderedAuditLogParts then Some (Error ''invalid audit log part'')
      else check_modified_parts ps)"

definition ApplyAuditLogParts :: "audit_log_parts \<Rightarrow> string \<Rightarrow> audit_log_parts result" where
  "ApplyAuditLogParts base modification =
     (if modification = [] then Inl (Error ''modification string cannot be empty'')
      else if hd modification \<noteq> CHR ''+'' \<and> hd modification \<noteq> CHR ''-'' then
        ParseAuditLogParts modification
      else let isAddition = (hd modification = CHR ''+'');
               partsToModify = runes (tl modification)
        in case check_modified_parts partsToModify of
             Some e \<Rightarrow> Inl e
           | None \<Rightarrow>
               let changed = map to_byte partsToModify;
                   partsMap = (if isAddition then set base \<union> set changed else set base - set changed)
               in Inr (filter (\<lambda>part. part \<in> partsMap) orderedAuditLogParts))"

section \<open>Lemmas\<close>

lemma ParseRulePhase_known:
  "ParseRulePhase s = Inr p \<Longrightarrow> p \<noteq> PhaseUnknown"
  by (auto simp: ParseRulePhase_def phase_of_int_def Let_def split: if_splits)

lemma itoa_digit: "0 \<le> i \<Longrightarrow> i < 10 \<Longrightarrow> itoa i = [to_byte (48 + nat i)]"
  by (simp add: itoa_def itoa_nat.simps)

lemma length_itoa_digit: "0 \<le> i \<Longrightarrow> i < 10 \<Longrightarrow> length (itoa i) = 1"
  by (simp add: itoa_digit)

text \<open>A phase or a severity printed as a number parses back to itself.\<close>

lemma phase_print_parse:
  assumes "p \<noteq> PhaseUnknown"
  shows "ParseRulePhase (itoa (phase_int p)) = Inr p"
proof -
  have r: "1 \<le> phase_int p \<and> phase_int p \<le> 5" using assms by (cases p) auto
  then have l: "length (itoa (phase_int p)) = 1" by (intro length_itoa_digit) auto
  then have "itoa (phase_int p) \<notin> {''request'', ''response'', ''logging''}" by auto
  with r show ?thesis
    using atoi_itoa [of "phase_int p"]
    by (simp add: ParseRulePhase_def min_int64_def max_int64_def)
qed

lemma severity_print_parse:
  assumes "p \<noteq> RuleSeverityUnset"
  shows "ParseRuleSeverity ct (itoa (severity_int p)) = Inr p \<and> ParseRuleSeverity ct (severity_string p) = Inr p"
proof
  have r: "0 \<le> severity_int p \<and> severity_int p \<le> 7" using assms by (cases p) auto
  then have l: "length (itoa (severity_int p)) = 1" by (intro length_itoa_digit) auto
  with r show "ParseRuleSeverity ct (itoa (severity_int p)) = Inr p"
    using atoi_itoa [of "severity_int p"]
    by (simp add: ParseRuleSeverity_def min_int64_def max_int64_def)
  show "ParseRuleSeverity ct (severity_string p) = Inr p"
    using assms by (cases p) (simp_all add: ParseRuleSeverity_def to_lower_ascii is_ascii_def
        lower_byte_def is_upper_def less_eq_char_def)
qed

lemma rule_engine_print_parse: "ParseRuleEngineStatus ct (rule_engine_string st) = Inr st"
  by (cases st) (simp_all add: ParseRuleEngineStatus_def to_lower_ascii is_ascii_def
      lower_byte_def is_upper_def less_eq_char_def byte_eval)

text \<open>
  What the parts become: an absolute list is kept as it is; a modification keeps the optional
  parts of the base, plus or minus the named ones, in the canonical order and once each.
\<close>

lemma ParseAuditLogParts_ends:
  "ParseAuditLogParts opts = Inr parts \<Longrightarrow> parts = opts \<and> hd parts = CHR ''A'' \<and> last parts = CHR ''Z''"
  by (auto simp: ParseAuditLogParts_def has_prefix_iff has_suffix_iff Let_def split: if_splits)
    (metis last_ConsR last_snoc)

lemma check_modified_parts_None:
  "check_modified_parts ps = None \<longleftrightarrow>
     (\<forall>p \<in> set ps. p \<noteq> 65 \<and> p \<noteq> 90 \<and> to_byte p \<in> set orderedAuditLogParts)"
  by (induction ps) auto

lemma ApplyAuditLogParts_relative:
  assumes "ApplyAuditLogParts base (sg # ps) = Inr parts" "sg = CHR ''+'' \<or> sg = CHR ''-''"
  shows "sorted parts \<and> distinct parts
    \<and> set parts = (if sg = CHR ''+'' then set base \<inter> set orderedAuditLogParts \<union> to_byte ` set (runes ps)
                   else set base \<inter> set orderedAuditLogParts - to_byte ` set (runes ps))"
proof -
  from assms have c: "check_modified_parts (runes ps) = None"
    and p: "parts = filter (\<lambda>part. part \<in> (if sg = CHR ''+'' then set base \<union> to_byte ` set (runes ps)
        else set base - to_byte ` set (runes ps))) orderedAuditLogParts"
    by (auto simp: ApplyAuditLogParts_def Let_def split: option.splits)
  have "sorted orderedAuditLogParts" "distinct orderedAuditLogParts"
    by (simp_all add: orderedAuditLogParts_def char_le_byte)
  with c p show ?thesis
    by (auto simp: check_modified_parts_None sorted_wrt_filter)
qed

section \<open>Properties\<close>

text \<open>
  every severity prints to a number and to a word that parse back to it, every phase
  to a number, and every rule engine state to its name, whatever the Unicode case tables.
\<close>

theorem print_parse_types:
  "(sev \<noteq> RuleSeverityUnset \<longrightarrow> ParseRuleSeverity ct (itoa (severity_int sev)) = Inr sev
      \<and> ParseRuleSeverity ct (severity_string sev) = Inr sev)
   \<and> (ph \<noteq> PhaseUnknown \<longrightarrow> ParseRulePhase (itoa (phase_int ph)) = Inr ph)
   \<and> ParseRuleEngineStatus ct (rule_engine_string st) = Inr st"
  by (simp add: severity_print_parse phase_print_parse rule_engine_print_parse)

theorem print_parse_types_witness:
  "ParseRuleSeverity (\<lambda>r. r) (itoa (severity_int RuleSeverityCritical)) = Inr RuleSeverityCritical
   \<and> ParseRulePhase (itoa (phase_int PhaseLogging)) = Inr PhaseLogging"
  using print_parse_types [of RuleSeverityCritical "\<lambda>r. r" PhaseLogging RuleEngineOn] by simp

text \<open>
  a relative change of the audit log parts yields the optional parts of the base plus or
  minus the named ones, in canonical order and without repetition; the mandatory parts
  \<open>A\<close> and \<open>Z\<close> of the base are lost, although the comment of the function calls them
  mandatory.
\<close>

theorem ApplyAuditLogParts_modification:
  assumes "ApplyAuditLogParts base (sg # ps) = Inr parts" "sg = CHR ''+'' \<or> sg = CHR ''-''"
  shows "sorted parts \<and> distinct parts \<and> CHR ''A'' \<notin> set parts \<and> CHR ''Z'' \<notin> set parts
    \<and> set parts = (if sg = CHR ''+'' then set base \<inter> set orderedAuditLogParts \<union> to_byte ` set (runes ps)
                   else set base \<inter> set orderedAuditLogParts - to_byte ` set (runes ps))"
proof -
  from assms have c: "check_modified_parts (runes ps) = None"
    by (auto simp: ApplyAuditLogParts_def Let_def split: option.splits)
  have o: "CHR ''A'' \<notin> set orderedAuditLogParts" "CHR ''Z'' \<notin> set orderedAuditLogParts"
    by (simp_all add: orderedAuditLogParts_def)
  have "to_byte ` set (runes ps) \<subseteq> set orderedAuditLogParts"
    using c by (auto simp: check_modified_parts_None)
  with o ApplyAuditLogParts_relative [OF assms] show ?thesis
    by (auto split: if_splits)
qed

theorem ApplyAuditLogParts_modification_witness:
  "ApplyAuditLogParts ''ABCZ'' ''+E'' = Inr ''BCE'' \<and> sorted ''BCE'' \<and> CHR ''A'' \<notin> set ''BCE''"
proof -
  have e: "ApplyAuditLogParts ''ABCZ'' (CHR ''+'' # ''E'') = Inr ''BCE''"
    by (simp add: ApplyAuditLogParts_def runes_def rune_chunks_ascii_Cons orderedAuditLogParts_def byte_eval)
  from ApplyAuditLogParts_modification [OF e] have "sorted ''BCE''" by simp
  with e show ?thesis by simp
qed

end
