(* ===== verification/Corazarules.thy ===== *)
theory Corazarules
  imports Collections Types_Waf
begin

text \<open>
  The records of \<open>internal/corazarules\<close>: the metadata of a rule, the matched rule, and the
  text of its error and audit log lines. \<open>fmt\<close>'s verb \<open>%q\<close> is \<open>strconv.Quote\<close>;
  \<open>unicode.IsPrint\<close> beyond ASCII is the table \<open>pt\<close>.
\<close>

record rule_metadata =
  rm_ID :: int
  rm_LogID :: string
  rm_File :: string
  rm_Line :: int
  rm_Rev :: string
  rm_Severity :: rule_severity
  rm_Version :: string
  rm_Tags :: "string list"
  rm_Maturity :: int
  rm_Accuracy :: int
  rm_Operator :: string
  rm_Phase :: rule_phase
  rm_Raw :: string
  rm_SecMark :: string
  rm_ParentID :: int

datatype disruptive_action =
    DisruptiveActionUnknown
  | DisruptiveActionAllow
  | DisruptiveActionDeny
  | DisruptiveActionDrop
  | DisruptiveActionPass
  | DisruptiveActionRedirect

text \<open>A name that is not in the map reads as the zero value.\<close>

definition DisruptiveActionMap :: "string \<Rightarrow> disruptive_action" where
  "DisruptiveActionMap name =
     (if name = ''allow'' then DisruptiveActionAllow
      else if name = ''deny'' then DisruptiveActionDeny
      else if name = ''drop'' then DisruptiveActionDrop
      else if name = ''pass'' then DisruptiveActionPass
      else if name = ''redirect'' then DisruptiveActionRedirect
      else DisruptiveActionUnknown)"

record matched_rule =
  mr_Message :: string
  mr_Data :: string
  mr_URI :: string
  mr_TransactionID :: string
  mr_Disruptive :: bool
  mr_DisruptiveAction :: disruptive_action
  mr_Log :: bool
  mr_Audit :: bool
  mr_ServerIPAddress :: string
  mr_ClientIPAddress :: string
  mr_MatchedDatas :: "match_data list"
  mr_Rule :: rule_metadata

section \<open>Quoting\<close>

type_synonym print_table = "nat \<Rightarrow> bool"

definition hex_digit :: "nat \<Rightarrow> char" where
  "hex_digit n = (if n < 10 then to_byte (48 + n) else to_byte (87 + n))"

definition hex2 :: "nat \<Rightarrow> string" where
  "hex2 n = [hex_digit (n div 16 mod 16), hex_digit (n mod 16)]"

definition is_print :: "print_table \<Rightarrow> nat \<Rightarrow> bool" where
  "is_print pt r = (if r < 128 then 32 \<le> r \<and> r \<le> 126 else pt r)"

text \<open>\<open>appendEscapedRune\<close> with the double quote.\<close>

definition quote_rune :: "print_table \<Rightarrow> nat \<Rightarrow> string" where
  "quote_rune pt r =
     (if r = 34 \<or> r = 92 then [CHR 92, to_byte r]
      else if is_print pt r then encode_rune r
      else if r = 7 then [CHR 92, CHR ''a'']
      else if r = 8 then [CHR 92, CHR ''b'']
      else if r = 12 then [CHR 92, CHR ''f'']
      else if r = 10 then [CHR 92, CHR ''n'']
      else if r = 13 then [CHR 92, CHR ''r'']
      else if r = 9 then [CHR 92, CHR ''t'']
      else if r = 11 then [CHR 92, CHR ''v'']
      else if r < 32 \<or> r = 127 then [CHR 92, CHR ''x''] @ hex2 r
      else if r < 65536 then [CHR 92, CHR ''u''] @ hex2 (r div 256) @ hex2 r
      else [CHR 92, CHR ''U''] @ hex2 (r div 16777216) @ hex2 (r div 65536) @ hex2 (r div 256) @ hex2 r)"

definition quote_chunk :: "print_table \<Rightarrow> nat \<times> string \<Rightarrow> string" where
  "quote_chunk pt p =
     (case p of (r, bytes) \<Rightarrow>
        if length bytes = 1 \<and> r = RuneError then [CHR 92, CHR ''x''] @ hex2 (byte (hd bytes))
        else quote_rune pt r)"

definition quote :: "print_table \<Rightarrow> string \<Rightarrow> string" where
  "quote pt s = [CHR 34] @ concat (map (quote_chunk pt) (rune_chunks s)) @ [CHR 34]"

section \<open>Log lines\<close>

definition maxSizeLogMessage :: nat where
  "maxSizeLogMessage = 280"

definition log_field :: "print_table \<Rightarrow> string \<Rightarrow> string \<Rightarrow> string" where
  "log_field pt name value = ''['' @ name @ '' '' @ quote pt value @ '']''"

definition writeDetails :: "print_table \<Rightarrow> matched_rule \<Rightarrow> match_data \<Rightarrow> string" where
  "writeDetails pt mr md =
     (let msg = take maxSizeLogMessage (md_Message md);
          data = take maxSizeLogMessage (md_Data md);
          r = mr_Rule mr
      in join_str '' ''
           ([log_field pt ''file'' (rm_File r), log_field pt ''line'' (itoa (rm_Line r)),
             log_field pt ''id'' (itoa (rm_ID r)), log_field pt ''rev'' (rm_Rev r), log_field pt ''msg'' msg,
             log_field pt ''data'' data, log_field pt ''severity'' (severity_string (rm_Severity r)),
             log_field pt ''ver'' (rm_Version r), log_field pt ''maturity'' (itoa (rm_Maturity r)),
             log_field pt ''accuracy'' (itoa (rm_Accuracy r))]) @
         concat (map (\<lambda>t. '' '' @ log_field pt ''tag'' t) (rm_Tags r)) @ '' '' @
         join_str '' ''
           [log_field pt ''hostname'' (mr_ServerIPAddress mr), log_field pt ''uri'' (mr_URI mr),
            log_field pt ''unique_id'' (mr_TransactionID mr)])"

definition writeExtraRuleDetails :: "print_table \<Rightarrow> match_data \<Rightarrow> nat \<Rightarrow> string" where
  "writeExtraRuleDetails pt md n =
     (let msg = take maxSizeLogMessage (md_Message md);
          data = take maxSizeLogMessage (md_Data md)
      in log_field pt (''msg_match_'' @ itoa (int n)) msg @ '' '' @ log_field pt (''data_match_'' @ itoa (int n)) data)"

definition matchData :: "matched_rule \<Rightarrow> match_data \<Rightarrow> string" where
  "matchData mr md =
     (let value = take maxSizeLogMessage (md_Value md); op = rm_Operator (mr_Rule mr)
      in if op = [] then ''Matched.''
         else ''Matched Operator '' @ op @ '' matched '' @ value @ '' at '' @ variable_name (md_Variable md) @
              (if md_Key md \<noteq> [] then '':'' @ md_Key md else []) @ ''.'')"

definition writeDisruptiveActionSpecificLog :: "matched_rule \<Rightarrow> string" where
  "writeDisruptiveActionSpecificLog mr =
     (let phase = '' (phase '' @ itoa (phase_int (rm_Phase (mr_Rule mr))) @ ''). ''
      in case mr_DisruptiveAction mr of
           DisruptiveActionAllow \<Rightarrow> ''Coraza: Access allowed'' @ phase
         | DisruptiveActionDeny \<Rightarrow> ''Coraza: Access denied'' @ phase
         | DisruptiveActionDrop \<Rightarrow> ''Coraza: Access dropped'' @ phase
         | DisruptiveActionPass \<Rightarrow> ''Coraza: Warning. ''
         | DisruptiveActionRedirect \<Rightarrow> ''Coraza: Access redirected'' @ phase
         | DisruptiveActionUnknown \<Rightarrow> ''Coraza: Custom disruptive action triggered'' @ phase)"

definition log_head :: "print_table \<Rightarrow> matched_rule \<Rightarrow> string" where
  "log_head pt mr =
     ''[client '' @ quote pt (mr_ClientIPAddress mr) @ ''] '' @
     (if mr_Disruptive mr then writeDisruptiveActionSpecificLog mr else ''Coraza: Warning. '')"

definition AuditLog_line :: "print_table \<Rightarrow> matched_rule \<Rightarrow> string" where
  "AuditLog_line pt mr =
     concat (map (\<lambda>md. log_head pt mr @ matchData mr md @ writeDetails pt mr md) (mr_MatchedDatas mr))"

text \<open>The first message that is set, or the message of the first match.\<close>

definition first_message :: "match_data list \<Rightarrow> string" where
  "first_message mds =
     (case filter (\<lambda>md. md_Message md \<noteq> []) mds of [] \<Rightarrow> [] | md # _ \<Rightarrow> md_Message md)"

text \<open>A matched rule without match data makes \<open>ErrorLog\<close> panic.\<close>

definition ErrorLog :: "print_table \<Rightarrow> matched_rule \<Rightarrow> string option" where
  "ErrorLog pt mr =
     (case mr_MatchedDatas mr of
        [] \<Rightarrow> None
      | md # mds \<Rightarrow>
          Some (log_head pt mr @ take maxSizeLogMessage (first_message (md # mds)) @ '' '' @ writeDetails pt mr md @
            concat (map (\<lambda>(n, m). if md_Message m \<noteq> [] \<or> md_Data m \<noteq> [] then writeExtraRuleDetails pt m n else [])
              (enumerate 1 mds))))"

section \<open>Lemmas\<close>

text \<open>No control character comes out of quoting.\<close>

definition printable :: "string \<Rightarrow> bool" where
  "printable s = list_all (\<lambda>c. 32 \<le> byte c) s"

lemma printable_append [simp]: "printable (s @ t) \<longleftrightarrow> printable s \<and> printable t"
  by (simp add: printable_def)

lemma printable_Nil [simp]: "printable []"
  by (simp add: printable_def)

lemma printable_Cons [simp]: "printable (c # s) \<longleftrightarrow> 32 \<le> byte c \<and> printable s"
  by (simp add: printable_def)

lemma printable_concat: "printable (concat ss) \<longleftrightarrow> list_all printable ss"
  by (induction ss) auto

lemma hex_digit_printable: "n < 16 \<Longrightarrow> 32 \<le> byte (hex_digit n)"
  by (simp add: hex_digit_def)

lemma hex2_printable [simp]: "printable (hex2 n)"
  by (simp add: hex2_def hex_digit_printable)

lemma itoa_nat_printable: "printable (itoa_nat n)"
  using itoa_nat_digits [of n] by (auto simp: printable_def list_all_iff byte_is_digit)

lemma itoa_printable [simp]: "printable (itoa i)"
  by (simp add: itoa_def itoa_nat_printable)

lemma encode_rune_printable:
  assumes "32 \<le> r"
  shows "printable (encode_rune r)"
proof (cases "r < 128")
  case True
  then show ?thesis using assms by (simp add: encode_rune_def encode_valid_def valid_rune_def)
next
  case False
  then have "list_all (\<lambda>c. 128 \<le> byte c) (encode_rune r)"
    by (auto simp: encode_rune_def encode_valid_def valid_rune_def RuneError_def)
  then show ?thesis by (auto simp: printable_def list_all_iff)
qed

lemma quote_rune_printable: "printable (quote_rune pt r)"
  by (auto simp: quote_rune_def is_print_def encode_rune_printable split: if_splits)

lemma quote_printable [simp]: "printable (quote pt s)"
  by (auto simp: quote_def quote_chunk_def printable_concat list_all_iff quote_rune_printable split: prod.splits)

lemma log_field_printable [simp]: "printable name \<Longrightarrow> printable (log_field pt name value)"
  by (simp add: log_field_def)

lemma writeDetails_printable [simp]: "printable (writeDetails pt mr md)"
  by (simp add: writeDetails_def Let_def printable_concat list_all_iff)

lemma writeExtraRuleDetails_printable [simp]: "printable (writeExtraRuleDetails pt md n)"
  by (simp add: writeExtraRuleDetails_def Let_def)

lemma log_head_printable [simp]: "printable (log_head pt mr)"
  by (simp add: log_head_def writeDisruptiveActionSpecificLog_def Let_def split: disruptive_action.splits)

section \<open>Properties\<close>

text \<open>
  the only bytes of an error log line that can be control characters are those of the
  message, which is written unquoted: everything else, whatever the request puts into it, is
  quoted. So a line break enters the log only through the message.
\<close>

theorem ErrorLog_control_characters:
  assumes "ErrorLog pt mr = Some line"
  shows "\<exists>a b. printable a \<and> printable b \<and>
    line = a @ take maxSizeLogMessage (first_message (mr_MatchedDatas mr)) @ b"
proof (cases "mr_MatchedDatas mr")
  case Nil
  then show ?thesis using assms by (simp add: ErrorLog_def)
next
  case (Cons md mds)
  define b where "b = '' '' @ writeDetails pt mr md @
    concat (map (\<lambda>(n, m). if md_Message m \<noteq> [] \<or> md_Data m \<noteq> [] then writeExtraRuleDetails pt m n else []) (enumerate 1 mds))"
  have "printable b" unfolding b_def by (auto simp: printable_concat list_all_iff simp del: enumerate_simps)
  moreover have "line = log_head pt mr @ take maxSizeLogMessage (first_message (mr_MatchedDatas mr)) @ b"
    using assms Cons by (simp add: ErrorLog_def b_def del: enumerate_simps)
  ultimately show ?thesis using log_head_printable [of pt mr] by (intro exI [of _ "log_head pt mr"] exI [of _ b]) simp
qed

definition sample_metadata :: rule_metadata where
  "sample_metadata =
     \<lparr>rm_ID = 7, rm_LogID = ''7'', rm_File = ''f'', rm_Line = 1, rm_Rev = [], rm_Severity = RuleSeverityUnset,
      rm_Version = [], rm_Tags = [], rm_Maturity = 0, rm_Accuracy = 0, rm_Operator = [], rm_Phase = PhaseRequestHeaders,
      rm_Raw = [], rm_SecMark = [], rm_ParentID = 0\<rparr>"

definition sample_matched_rule :: matched_rule where
  "sample_matched_rule =
     \<lparr>mr_Message = [], mr_Data = [], mr_URI = ''/a'' @ [CHR 10], mr_TransactionID = ''x'', mr_Disruptive = True,
      mr_DisruptiveAction = DisruptiveActionDeny, mr_Log = True, mr_Audit = True, mr_ServerIPAddress = [],
      mr_ClientIPAddress = [], mr_MatchedDatas = [new_match_data V_Args ''k'' ''v''], mr_Rule = sample_metadata\<rparr>"

text \<open>A URI with a line break gives a line without one when there is no message.\<close>

theorem ErrorLog_control_characters_witness:
  "\<exists>line. ErrorLog (\<lambda>r. False) sample_matched_rule = Some line \<and> printable line"
proof -
  obtain line where l: "ErrorLog (\<lambda>r. False) sample_matched_rule = Some line"
    by (simp add: ErrorLog_def sample_matched_rule_def)
  have "first_message (mr_MatchedDatas sample_matched_rule) = []"
    by (simp add: first_message_def sample_matched_rule_def new_match_data_def)
  with ErrorLog_control_characters [OF l] l show ?thesis by auto
qed

end
