(* ===== verification/Transaction.thy ===== *)
theory Transaction
  imports Macro Transform_Cache Corazarules Body_Buffer
begin

text \<open>
  The transaction of \<open>internal/corazawaf/transaction.go\<close>: its variables, its settings, and
  the operations that feed it with request data and read its fields. The pointers of
  \<open>TransactionVariables\<close> are two functions, from the variable a \<open>Single\<close> or a \<open>Map\<close> is
  created for to its contents; the name views, the concatenations and the size view share
  the data of the maps they are built on. The state of the WAF a transaction reads is the
  record \<open>waf_config\<close>. Not part of the state: the debug logger, the stop watches, the
  reusable slice \<open>fieldMatches\<close>, and the byte-presence cache of the regex prefilter.
  \<open>tx_errorLog\<close> is the sequence of calls of \<open>WAF.ErrorLogCb\<close>.
\<close>

section \<open>Variables\<close>

record tx_vars =
  singles :: "rule_variable \<Rightarrow> string"
  maps :: "rule_variable \<Rightarrow> coll_map"

text \<open>Build option \<open>coraza.rule.case_sensitive_args_keys\<close>, off by default.\<close>

definition shouldUseCaseSensitiveNamedCollection :: bool where
  "shouldUseCaseSensitiveNamedCollection = False"

definition NewTransactionVariables :: tx_vars where
  "NewTransactionVariables =
     \<lparr>singles = (\<lambda>v. []),
      maps = (\<lambda>v. if shouldUseCaseSensitiveNamedCollection \<and> v \<in> {V_ArgsGet, V_ArgsPost, V_ArgsPath}
                   then NewCaseSensitiveKeyMap v else NewMap v)\<rparr>"

text \<open>The variables \<open>Collection\<close> returns a \<open>Single\<close> for, and those it returns a \<open>Map\<close> for.\<close>

definition single_variables :: "rule_variable list" where
  "single_variables =
     [V_ResponseContentType, V_UniqueID, V_FilesCombinedSize, V_FullRequestLength, V_InboundDataError,
      V_MatchedVar, V_MatchedVarName, V_MultipartDataAfter, V_OutboundDataError, V_QueryString,
      V_RemoteAddr, V_RemoteHost, V_RemotePort, V_ReqbodyError, V_ReqbodyErrorMsg,
      V_ReqbodyProcessorError, V_ReqbodyProcessorErrorMsg, V_ReqbodyProcessor, V_RequestBasename,
      V_RequestBody, V_RequestBodyLength, V_RequestFilename, V_RequestLine, V_RequestMethod,
      V_RequestProtocol, V_RequestURI, V_RequestURIRaw, V_ResponseBody, V_ResponseContentLength,
      V_ResponseProtocol, V_ResponseStatus, V_ServerAddr, V_ServerName, V_ServerPort,
      V_HighestSeverity, V_StatusLine, V_Duration, V_ResBodyProcessor, V_UrlencodedError,
      V_MultipartStrictError, V_Time, V_TimeDay, V_TimeEpoch, V_TimeHour, V_TimeMin, V_TimeMon,
      V_TimeSec, V_TimeWday, V_TimeYear]"

definition map_variables :: "rule_variable list" where
  "map_variables =
     [V_ArgsGet, V_ArgsPost, V_ArgsPath, V_FilesSizes, V_FilesNames, V_FilesTmpContent,
      V_MultipartFilename, V_MultipartName, V_MatchedVars, V_Files, V_RequestCookies,
      V_RequestHeaders, V_ResponseHeaders, V_Geo, V_FilesTmpNames, V_TX, V_Rule, V_Env,
      V_ResponseArgs, V_ResponseXML, V_RequestXML, V_MultipartPartHeaders]"

text \<open>The name views and the collection each of them is a view of.\<close>

definition name_views :: "(rule_variable \<times> rule_variable) list" where
  "name_views =
     [(V_ResponseHeadersNames, V_ResponseHeaders), (V_RequestHeadersNames, V_RequestHeaders),
      (V_MatchedVarsNames, V_MatchedVars), (V_RequestCookiesNames, V_RequestCookies),
      (V_ArgsGetNames, V_ArgsGet), (V_ArgsPostNames, V_ArgsPost)]"

text \<open>\<open>Collection\<close>: \<open>JSON\<close> is nil, and what has no collection is \<open>Noop\<close>.\<close>

definition Collection :: "tx_vars \<Rightarrow> rule_variable \<Rightarrow> collection option" where
  "Collection vs idx =
     (if idx \<in> set single_variables then Some (Single idx (singles vs idx))
      else if idx \<in> set map_variables then Some (CKeyed (KMap (maps vs idx)))
      else if idx = V_ArgsCombinedSize then Some (SizeCollection V_ArgsCombinedSize [maps vs V_ArgsGet, maps vs V_ArgsPost])
      else if idx = V_Args then
        Some (CKeyed (ConcatKeyed V_Args [KMap (maps vs V_ArgsGet), KMap (maps vs V_ArgsPost), KMap (maps vs V_ArgsPath)]))
      else if idx = V_ArgsNames then
        Some (CKeyed (ConcatKeyed V_ArgsNames
          [KNames V_ArgsGetNames (maps vs V_ArgsGet), KNames V_ArgsPostNames (maps vs V_ArgsPost),
           KNames V_Unknown (maps vs V_ArgsPath)]))
      else if idx = V_JSON then None
      else if idx = V_XML then Some (CKeyed (KMap (maps vs V_RequestXML)))
      else case alist_get name_views idx of
        Some base \<Rightarrow> Some (CKeyed (KNames idx (maps vs base)))
      | None \<Rightarrow> Some Noop)"

text \<open>
  \<open>All\<close> visits these variables in order; \<open>reset\<close> resets the ones that are a \<open>Single\<close> or a
  \<open>Map\<close>. The views and concatenations have no data of their own.
\<close>

definition all_variables :: "rule_variable list" where
  "all_variables =
     [V_Args, V_ArgsCombinedSize, V_ArgsGet, V_ArgsGetNames, V_ArgsNames, V_ArgsPath, V_ArgsPost,
      V_ArgsPostNames, V_Duration, V_Env, V_Files, V_FilesCombinedSize, V_FilesNames, V_FilesSizes,
      V_FilesTmpContent, V_FilesTmpNames, V_FullRequestLength, V_Geo, V_HighestSeverity,
      V_InboundDataError, V_MatchedVar, V_MatchedVarName, V_MatchedVars, V_MatchedVarsNames,
      V_MultipartDataAfter, V_MultipartFilename, V_MultipartName, V_MultipartPartHeaders,
      V_MultipartStrictError, V_OutboundDataError, V_QueryString, V_RemoteAddr, V_RemoteHost,
      V_RemotePort, V_ReqbodyError, V_ReqbodyErrorMsg, V_ReqbodyProcessor, V_ReqbodyProcessorError,
      V_ReqbodyProcessorErrorMsg, V_RequestBasename, V_RequestBody, V_RequestBodyLength,
      V_RequestCookies, V_RequestCookiesNames, V_RequestFilename, V_RequestHeaders,
      V_RequestHeadersNames, V_RequestLine, V_RequestMethod, V_RequestProtocol, V_RequestURI,
      V_RequestURIRaw, V_RequestXML, V_ResponseBody, V_ResponseContentLength, V_ResponseContentType,
      V_ResponseHeaders, V_ResponseHeadersNames, V_ResponseProtocol, V_ResponseStatus, V_ResponseXML,
      V_ResponseArgs, V_ResBodyProcessor, V_Rule, V_ServerAddr, V_ServerName, V_ServerPort,
      V_StatusLine, V_TX, V_UniqueID, V_UrlencodedError, V_XML, V_Time, V_TimeDay, V_TimeEpoch,
      V_TimeHour, V_TimeMin, V_TimeMon, V_TimeSec, V_TimeWday, V_TimeYear]"

definition stored_singles :: "rule_variable list" where
  "stored_singles =
     single_variables @ [V_ResBodyError, V_ResBodyErrorMsg, V_ResBodyProcessorError, V_ResBodyProcessorErrorMsg]"

definition reset_variable :: "rule_variable \<Rightarrow> tx_vars \<Rightarrow> tx_vars" where
  "reset_variable v vs =
     (if v \<in> set stored_singles then vs\<lparr>singles := (singles vs)(v := [])\<rparr>
      else if v \<in> set map_variables then vs\<lparr>maps := (maps vs)(v := Map_Reset (maps vs v))\<rparr>
      else if v = V_XML then vs\<lparr>maps := (maps vs)(V_RequestXML := Map_Reset (maps vs V_RequestXML))\<rparr>
      else vs)"

definition reset_variables :: "tx_vars \<Rightarrow> tx_vars" where
  "reset_variables vs = fold reset_variable all_variables vs"

section \<open>State\<close>

record ruleVariableException =
  rve_KeyStr :: string
  rve_KeyRx :: "regex option"

record ruleVariableParams =
  rvp_Count :: bool
  rvp_Variable :: rule_variable
  rvp_KeyRx :: "regex option"
  rvp_KeyStr :: string
  rvp_Exceptions :: "ruleVariableException list"

text \<open>
  The fields of \<open>WAF\<close>; the rules are added in \<open>Rule\<close>. Writers and formatters of the audit log are
  named by the name they are registered under, the debug logger is its level, and the callback for
  errors is whether there is one.
\<close>

record audit_log_config =
  alc_Target :: string
  alc_FileMode :: int
  alc_Dir :: string
  alc_DirMode :: int
  alc_Formatter :: string

record waf_config =
  waf_RequestBodyAccess :: bool
  waf_RequestBodyLimit :: int
  waf_RequestBodyJsonDepthLimit :: int
  waf_requestBodyInMemoryLimit :: "int option"
  waf_ResponseBodyAccess :: bool
  waf_ResponseBodyLimit :: int
  waf_RuleEngine :: rule_engine_status
  waf_ResponseBodyMimeTypes :: "string list"
  waf_WebAppID :: string
  waf_ComponentNames :: "string list"
  waf_AbortOnRemoteRulesFail :: bool
  waf_ServerSignature :: string
  waf_TmpDir :: string
  waf_SensorID :: string
  waf_DataDir :: string
  waf_UploadKeepFiles :: upload_keep_files_status
  waf_UploadFileMode :: int
  waf_UploadFileLimit :: int
  waf_UploadDir :: string
  waf_RequestBodyNoFilesLimit :: int
  waf_RequestBodyLimitAction :: body_limit_action
  waf_ResponseBodyLimitAction :: body_limit_action
  waf_ArgumentSeparator :: string
  waf_ProducerConnector :: string
  waf_ProducerConnectorVersion :: string
  waf_LogLevel :: int
  waf_ErrorLogCb :: bool
  waf_AuditEngine :: audit_engine_status
  waf_AuditLogParts :: audit_log_parts
  waf_AuditLogFormat :: string
  waf_AuditLogRelevantStatus :: "regex option"
  waf_auditLogWriter :: string
  waf_AuditLogWriterConfig :: audit_log_config
  waf_auditLogWriterInitialized :: bool
  waf_ArgumentLimit :: int
  waf_RxPreFilterEnabled :: bool

record transaction =
  tx_id :: string
  tx_matchedRules :: "matched_rule list"
  tx_interruption :: "interruption option"
  tx_detectionOnlyInterruption :: "interruption option"
  tx_SkipAfter :: string
  tx_AllowType :: allow_type
  tx_AuditEngine :: audit_engine_status
  tx_AuditLogParts :: audit_log_parts
  tx_AuditLogFormat :: string
  tx_ForceRequestBodyVariable :: bool
  tx_RequestBodyAccess :: bool
  tx_RequestBodyLimit :: int
  tx_ForceResponseBodyVariable :: bool
  tx_ResponseBodyAccess :: bool
  tx_ResponseBodyLimit :: int
  tx_RuleEngine :: rule_engine_status
  tx_lastPhase :: rule_phase
  tx_requestBodyBuffer :: body_buffer
  tx_responseBodyBuffer :: body_buffer
  tx_ruleRemoveByID :: "int list"
  tx_ruleRemoveByIDRanges :: "(int \<times> int) list"
  tx_ruleRemoveTargetByID :: "(int \<times> ruleVariableParams list) list"
  tx_Skip :: int
  tx_Capture :: bool
  tx_Timestamp :: int
  tx_audit :: bool
  tx_variables :: tx_vars
  tx_transformationCache :: transformationCache
  tx_transformationStepCache :: transformationStepCache
  tx_errorLog :: "matched_rule list"

definition get_single :: "transaction \<Rightarrow> rule_variable \<Rightarrow> string" where
  "get_single tx v = singles (tx_variables tx) v"

definition set_single :: "rule_variable \<Rightarrow> string \<Rightarrow> transaction \<Rightarrow> transaction" where
  "set_single v x tx = tx\<lparr>tx_variables := (tx_variables tx)\<lparr>singles := (singles (tx_variables tx))(v := x)\<rparr>\<rparr>"

definition get_map :: "transaction \<Rightarrow> rule_variable \<Rightarrow> coll_map" where
  "get_map tx v = maps (tx_variables tx) v"

definition set_map :: "rule_variable \<Rightarrow> coll_map \<Rightarrow> transaction \<Rightarrow> transaction" where
  "set_map v c tx = tx\<lparr>tx_variables := (tx_variables tx)\<lparr>maps := (maps (tx_variables tx))(v := c)\<rparr>\<rparr>"

text \<open>\<open>SetIndex(key, 0, value)\<close>: index 0 is never out of range.\<close>

definition set_index0 :: "case_table \<Rightarrow> coll_map \<Rightarrow> string \<Rightarrow> string \<Rightarrow> coll_map" where
  "set_index0 ct c key x = (case Map_SetIndex ct c key 0 x of Some c' \<Rightarrow> c' | None \<Rightarrow> c)"

definition tx_Collection :: "transaction \<Rightarrow> collection_view" where
  "tx_Collection tx = Collection (tx_variables tx)"

text \<open>The value \<open>new(Transaction)\<close> of the pool, with empty body buffers and new variables.\<close>

definition zero_transaction :: "body_buffer \<Rightarrow> body_buffer \<Rightarrow> transaction" where
  "zero_transaction reqb resb =
     \<lparr>tx_id = [], tx_matchedRules = [], tx_interruption = None, tx_detectionOnlyInterruption = None,
      tx_SkipAfter = [], tx_AllowType = AllowTypeUnset, tx_AuditEngine = AuditEngineOn, tx_AuditLogParts = [],
      tx_AuditLogFormat = [], tx_ForceRequestBodyVariable = False, tx_RequestBodyAccess = False,
      tx_RequestBodyLimit = 0, tx_ForceResponseBodyVariable = False, tx_ResponseBodyAccess = False,
      tx_ResponseBodyLimit = 0, tx_RuleEngine = RuleEngineOn, tx_lastPhase = PhaseUnknown,
      tx_requestBodyBuffer = reqb, tx_responseBodyBuffer = resb, tx_ruleRemoveByID = [],
      tx_ruleRemoveByIDRanges = [], tx_ruleRemoveTargetByID = [], tx_Skip = 0, tx_Capture = False,
      tx_Timestamp = 0, tx_audit = False, tx_variables = NewTransactionVariables,
      tx_transformationCache = [], tx_transformationStepCache = \<lparr>sc_values = [], sc_retainedBytes = 0\<rparr>,
      tx_errorLog = []\<rparr>"

section \<open>Interruption\<close>

definition IsRuleEngineOff :: "transaction \<Rightarrow> bool" where
  "IsRuleEngineOff tx = (tx_RuleEngine tx = RuleEngineOff)"

definition IsInterrupted :: "transaction \<Rightarrow> bool" where
  "IsInterrupted tx = (tx_interruption tx \<noteq> None)"

definition IsDetectionOnlyInterrupted :: "transaction \<Rightarrow> bool" where
  "IsDetectionOnlyInterrupted tx = (tx_detectionOnlyInterruption tx \<noteq> None)"

definition Interrupt :: "interruption \<Rightarrow> transaction \<Rightarrow> transaction" where
  "Interrupt i tx =
     (case tx_RuleEngine tx of
        RuleEngineOn \<Rightarrow> tx\<lparr>tx_interruption := Some i\<rparr>
      | RuleEngineDetectionOnly \<Rightarrow>
          if tx_detectionOnlyInterruption tx = None then tx\<lparr>tx_detectionOnlyInterruption := Some i\<rparr> else tx
      | RuleEngineOff \<Rightarrow> tx)"

definition Allow :: "allow_type \<Rightarrow> transaction \<Rightarrow> transaction" where
  "Allow a tx = (if tx_RuleEngine tx = RuleEngineOn then tx\<lparr>tx_AllowType := a\<rparr> else tx)"

section \<open>Request data\<close>

text \<open>\<open>for k, vr := range values { for _, v := range vr { add(k, v) } }\<close>\<close>

definition each_value :: "(string \<Rightarrow> string \<Rightarrow> 's \<Rightarrow> 's) \<Rightarrow> values_map \<Rightarrow> 's \<Rightarrow> 's" where
  "each_value f m s = fold (\<lambda>(k, vs). fold (f k) vs) m s"

definition AddRequestHeader :: "case_table \<Rightarrow> string \<Rightarrow> string \<Rightarrow> transaction \<Rightarrow> transaction" where
  "AddRequestHeader ct key value tx =
     (if key = [] then tx
      else
        let keyl = to_lower ct key;
            tx = set_map V_RequestHeaders (Map_Add ct (get_map tx V_RequestHeaders) key value) tx
        in if keyl = ''content-type'' then
             (let val = to_lower ct value
              in if val = ''application/x-www-form-urlencoded'' then set_single V_ReqbodyProcessor ''URLENCODED'' tx
                 else if has_prefix val ''multipart/form-data'' then set_single V_ReqbodyProcessor ''MULTIPART'' tx
                 else tx)
           else if keyl = ''cookie'' then
             each_value (\<lambda>k v tx. set_map V_RequestCookies (Map_Add ct (get_map tx V_RequestCookies) k v) tx)
               (ParseCookies value) tx
           else tx)"

definition AddResponseHeader :: "case_table \<Rightarrow> string \<Rightarrow> string \<Rightarrow> transaction \<Rightarrow> transaction" where
  "AddResponseHeader ct key value tx =
     (if key = [] then tx
      else
        let keyl = to_lower ct key;
            tx = set_map V_ResponseHeaders (Map_Add ct (get_map tx V_ResponseHeaders) key value) tx
        in if keyl = ''content-type'' then set_single V_ResponseContentType (fst (cut value CHR '';'')) tx else tx)"

definition CaptureField :: "case_table \<Rightarrow> int \<Rightarrow> string \<Rightarrow> transaction \<Rightarrow> transaction" where
  "CaptureField ct index value tx =
     (if tx_Capture tx then set_map V_TX (set_index0 ct (get_map tx V_TX) (itoa index) value) tx else tx)"

definition resetCaptures :: "case_table \<Rightarrow> transaction \<Rightarrow> transaction" where
  "resetCaptures ct tx =
     fold (\<lambda>i tx. set_map V_TX (set_index0 ct (get_map tx V_TX) [to_byte i] []) tx) [48..<58] tx"

definition matchVariable :: "case_table \<Rightarrow> match_data \<Rightarrow> transaction \<Rightarrow> transaction" where
  "matchVariable ct m tx =
     (let varName = (if md_Key m \<noteq> [] then variable_name (md_Variable m) @ '':'' @ md_Key m
                     else variable_name (md_Variable m));
          tx = set_map V_MatchedVars (Map_Add ct (get_map tx V_MatchedVars) varName (md_Value m)) tx
      in set_single V_MatchedVarName varName (set_single V_MatchedVar (md_Value m) tx))"

definition checkArgumentLimit :: "'a waf_config_scheme \<Rightarrow> coll_map \<Rightarrow> bool" where
  "checkArgumentLimit w c = (waf_ArgumentLimit w \<le> int (Map_Len c))"

definition add_argument :: "case_table \<Rightarrow> 'a waf_config_scheme \<Rightarrow> rule_variable \<Rightarrow> string \<Rightarrow> string \<Rightarrow> transaction \<Rightarrow> transaction" where
  "add_argument ct w v key value tx =
     (if checkArgumentLimit w (get_map tx v) then tx
      else set_map v (Map_Add ct (get_map tx v) key value) tx)"

definition AddGetRequestArgument :: "case_table \<Rightarrow> 'a waf_config_scheme \<Rightarrow> string \<Rightarrow> string \<Rightarrow> transaction \<Rightarrow> transaction" where
  "AddGetRequestArgument ct w key value tx = add_argument ct w V_ArgsGet key value tx"

definition AddPostRequestArgument :: "case_table \<Rightarrow> 'a waf_config_scheme \<Rightarrow> string \<Rightarrow> string \<Rightarrow> transaction \<Rightarrow> transaction" where
  "AddPostRequestArgument ct w key value tx = add_argument ct w V_ArgsPost key value tx"

definition AddPathRequestArgument :: "case_table \<Rightarrow> 'a waf_config_scheme \<Rightarrow> string \<Rightarrow> string \<Rightarrow> transaction \<Rightarrow> transaction" where
  "AddPathRequestArgument ct w key value tx = add_argument ct w V_ArgsPath key value tx"

definition AddResponseArgument :: "case_table \<Rightarrow> 'a waf_config_scheme \<Rightarrow> string \<Rightarrow> string \<Rightarrow> transaction \<Rightarrow> transaction" where
  "AddResponseArgument ct w key value tx =
     (if waf_ArgumentLimit w \<le> int (Map_Len (get_map tx V_ResponseArgs)) then tx
      else set_map V_ResponseArgs (Map_Add ct (get_map tx V_ResponseArgs) key value) tx)"

definition ExtractGetArguments :: "case_table \<Rightarrow> 'a waf_config_scheme \<Rightarrow> string \<Rightarrow> transaction \<Rightarrow> transaction" where
  "ExtractGetArguments ct w uri tx = each_value (AddGetRequestArgument ct w) (ParseQuery uri CHR ''&'') tx"

definition ProcessConnection :: "string \<Rightarrow> int \<Rightarrow> string \<Rightarrow> int \<Rightarrow> transaction \<Rightarrow> transaction" where
  "ProcessConnection client cPort server sPort tx =
     set_single V_ServerPort (itoa sPort) (set_single V_ServerAddr server
       (set_single V_RemotePort (itoa cPort) (set_single V_RemoteAddr client tx)))"

text \<open>
  What \<open>url.ParseRequestURI\<close> returns: the decoded path, the raw query and the URL printed
  again, or the error.
\<close>

record parsed_url =
  url_Path :: string
  url_RawQuery :: string
  url_String :: string

fun last_index_any :: "char list \<Rightarrow> string \<Rightarrow> nat option" where
  "last_index_any cs [] = None"
| "last_index_any cs (x # xs) =
     (case last_index_any cs xs of
        Some i \<Rightarrow> Some (Suc i)
      | None \<Rightarrow> (if x \<in> set cs then Some 0 else None))"

definition ProcessURI :: "case_table \<Rightarrow> (string \<Rightarrow> parsed_url result) \<Rightarrow> 'a waf_config_scheme \<Rightarrow>
    string \<Rightarrow> string \<Rightarrow> string \<Rightarrow> transaction \<Rightarrow> transaction" where
  "ProcessURI ct ParseRequestURI w uri method httpVersion tx =
     (let tx = set_single V_RequestMethod method tx;
          tx = set_single V_RequestProtocol httpVersion tx;
          tx = set_single V_RequestURIRaw uri tx;
          tx = set_single V_RequestLine (method @ '' '' @ uri @ '' '' @ httpVersion) tx;
          uri = (case index_byte uri CHR ''#'' of Some i \<Rightarrow> take i uri | None \<Rightarrow> uri);
          (path, query, tx) =
            (case ParseRequestURI uri of
               Inl (Error err) \<Rightarrow> (uri, [], set_single V_RequestURI uri (set_single V_UrlencodedError err tx))
             | Inr u \<Rightarrow> (url_Path u, url_RawQuery u,
                 set_single V_RequestURI (url_String u) (ExtractGetArguments ct w (url_RawQuery u) tx)));
          base = (case last_index_any [CHR ''/'', CHR 92] path of
                    Some offset \<Rightarrow> if Suc offset < length path then drop (Suc offset) path else path
                  | None \<Rightarrow> path)
      in set_single V_QueryString query (set_single V_RequestFilename path (set_single V_RequestBasename base tx)))"

definition SetServerName :: "string \<Rightarrow> transaction \<Rightarrow> transaction" where
  "SetServerName serverName tx = set_single V_ServerName serverName tx"

section \<open>Fields\<close>

text \<open>The loop of \<open>lowercaseStringsEqual\<close> over the common prefix.\<close>

fun lowercase_loop :: "case_table \<Rightarrow> string \<Rightarrow> string \<Rightarrow> string \<Rightarrow> string \<Rightarrow> bool" where
  "lowercase_loop ct left right (l # ls) (r # rs) =
     (if \<not> is_ascii l \<or> \<not> is_ascii r then to_lower ct left = to_lower ct right
      else if lower_byte l \<noteq> lower_byte r then False
      else lowercase_loop ct left right ls rs)"
| "lowercase_loop ct left right ls rs = (length left = length right)"

definition lowercaseStringsEqual :: "case_table \<Rightarrow> string \<Rightarrow> string \<Rightarrow> bool" where
  "lowercaseStringsEqual ct left right = lowercase_loop ct left right left right"

text \<open>The loop of \<open>isRuleVariableException\<close>; \<open>ready\<close> is \<open>lowerKeyReady\<close>.\<close>

fun exception_loop :: "case_table \<Rightarrow> string \<Rightarrow> bool \<Rightarrow> ruleVariableException list \<Rightarrow> bool" where
  "exception_loop ct key ready [] = False"
| "exception_loop ct key ready (e # es) =
     (if rve_KeyStr e = [] \<and> rve_KeyRx e = None then True
      else
        let ready' = (ready \<or> rve_KeyRx e \<noteq> None)
        in if (case rve_KeyRx e of Some rx \<Rightarrow> rx (to_lower ct key) | None \<Rightarrow> False) then True
           else if ready' then
             (if to_lower ct (rve_KeyStr e) = to_lower ct key then True else exception_loop ct key ready' es)
           else if lowercaseStringsEqual ct (rve_KeyStr e) key then True
           else exception_loop ct key ready' es)"

definition isRuleVariableException :: "case_table \<Rightarrow> string \<Rightarrow> ruleVariableException list \<Rightarrow> bool" where
  "isRuleVariableException ct key exceptions = exception_loop ct key False exceptions"

definition GetField :: "case_table \<Rightarrow> transaction \<Rightarrow> ruleVariableParams \<Rightarrow> match_data list" where
  "GetField ct tx rv =
     (case tx_Collection tx (rvp_Variable rv) of
        None \<Rightarrow> []
      | Some col \<Rightarrow>
          let matches =
                (case rvp_KeyRx rv of
                   Some rx \<Rightarrow> (case col of CKeyed m \<Rightarrow> keyed_FindRegex m rx | _ \<Rightarrow> [])
                 | None \<Rightarrow>
                     if rvp_KeyStr rv \<noteq> [] then (case col of CKeyed m \<Rightarrow> keyed_FindString ct m (rvp_KeyStr rv) | _ \<Rightarrow> [])
                     else FindAll col);
              matches =
                (if rvp_Exceptions rv \<noteq> []
                 then filter (\<lambda>c. \<not> isRuleVariableException ct (md_Key c) (rvp_Exceptions rv)) matches
                 else matches)
          in if rvp_Count rv then [new_match_data (rvp_Variable rv) (rvp_KeyStr rv) (itoa (int (length matches)))]
             else matches)"

definition getFieldMatches :: "case_table \<Rightarrow> transaction \<Rightarrow> ruleVariableParams \<Rightarrow> match list" where
  "getFieldMatches ct tx rv =
     (case tx_Collection tx (rvp_Variable rv) of
        None \<Rightarrow> []
      | Some col \<Rightarrow>
          let matches =
                (case rvp_KeyRx rv of
                   Some rx \<Rightarrow> (case col of CKeyed m \<Rightarrow> keyed_AppendMatchesRegex m [] rx | _ \<Rightarrow> [])
                 | None \<Rightarrow>
                     if rvp_KeyStr rv \<noteq> [] then (case col of CKeyed m \<Rightarrow> keyed_AppendMatchesString ct m [] (rvp_KeyStr rv) | _ \<Rightarrow> [])
                     else AppendMatches col []);
              matches =
                (if rvp_Exceptions rv \<noteq> []
                 then filter (\<lambda>c. \<not> isRuleVariableException ct (Key c) (rvp_Exceptions rv)) matches
                 else matches)
          in if rvp_Count rv
             then [\<lparr>Variable = rvp_Variable rv, Key = rvp_KeyStr rv, Value = itoa (int (length matches))\<rparr>]
             else matches)"

section \<open>Removal of rules and targets\<close>

text \<open>Build option \<open>coraza.rule.multiphase_evaluation\<close>, off by default.\<close>

definition multiphaseEvaluation :: bool where
  "multiphaseEvaluation = False"

definition add_target :: "int \<Rightarrow> ruleVariableParams \<Rightarrow> transaction \<Rightarrow> transaction" where
  "add_target i c tx =
     tx\<lparr>tx_ruleRemoveTargetByID := alist_put i
        ((case alist_get (tx_ruleRemoveTargetByID tx) i of None \<Rightarrow> [] | Some cs \<Rightarrow> cs) @ [c]) (tx_ruleRemoveTargetByID tx)\<rparr>"

definition RemoveRuleTargetByID :: "int \<Rightarrow> rule_variable \<Rightarrow> string \<Rightarrow> regex option \<Rightarrow> transaction \<Rightarrow> transaction" where
  "RemoveRuleTargetByID i v key keyRx tx =
     (let c = \<lparr>rvp_Count = False, rvp_Variable = v, rvp_KeyRx = keyRx, rvp_KeyStr = key, rvp_Exceptions = []\<rparr>
      in if multiphaseEvaluation \<and> v = V_Args then
           add_target i (c\<lparr>rvp_Variable := V_ArgsPost\<rparr>) (add_target i (c\<lparr>rvp_Variable := V_ArgsGet\<rparr>) tx)
         else if multiphaseEvaluation \<and> v = V_ArgsNames then
           add_target i (c\<lparr>rvp_Variable := V_ArgsPostNames\<rparr>) (add_target i (c\<lparr>rvp_Variable := V_ArgsGetNames\<rparr>) tx)
         else add_target i c tx)"

definition RemoveRuleByID :: "int \<Rightarrow> transaction \<Rightarrow> transaction" where
  "RemoveRuleByID i tx = tx\<lparr>tx_ruleRemoveByID := (if i \<in> set (tx_ruleRemoveByID tx) then tx_ruleRemoveByID tx else i # tx_ruleRemoveByID tx)\<rparr>"

definition RemoveRuleByIDRange :: "int \<Rightarrow> int \<Rightarrow> transaction \<Rightarrow> transaction" where
  "RemoveRuleByIDRange start stop tx = tx\<lparr>tx_ruleRemoveByIDRanges := tx_ruleRemoveByIDRanges tx @ [(start, stop)]\<rparr>"

definition resetTransformationCaches :: "transaction \<Rightarrow> transaction" where
  "resetTransformationCaches tx =
     tx\<lparr>tx_transformationCache := [], tx_transformationStepCache := \<lparr>sc_values = [], sc_retainedBytes = 0\<rparr>\<rparr>"

definition generateRequestBodyError :: "error \<Rightarrow> transaction \<Rightarrow> transaction" where
  "generateRequestBodyError err tx =
     (case err of Error e \<Rightarrow>
        set_single V_ReqbodyProcessorErrorMsg e (set_single V_ReqbodyProcessorError ''1''
          (set_single V_ReqbodyErrorMsg (get_single tx V_ReqbodyProcessor @ '': '' @ e) (set_single V_ReqbodyError ''1'' tx))))"

definition generateResponseBodyError :: "error \<Rightarrow> transaction \<Rightarrow> transaction" where
  "generateResponseBodyError err tx =
     (case err of Error e \<Rightarrow>
        set_single V_ResBodyProcessorErrorMsg e (set_single V_ResBodyProcessorError ''1''
          (set_single V_ResBodyErrorMsg (get_single tx V_ResBodyProcessor @ '': '' @ e) (set_single V_ResBodyError ''1'' tx))))"

definition hasLogRelevantMatchedRules :: "transaction \<Rightarrow> bool" where
  "hasLogRelevantMatchedRules tx = list_ex mr_Log (tx_matchedRules tx)"

section \<open>Lemmas\<close>

lemma get_set_single [simp]:
  "get_single (set_single v x tx) u = (if u = v then x else get_single tx u)"
  "get_single (set_map v c tx) u = get_single tx u"
  "get_map (set_map v c tx) u = (if u = v then c else get_map tx u)"
  "get_map (set_single v x tx) u = get_map tx u"
  by (simp_all add: get_single_def set_single_def get_map_def set_map_def)

subsection \<open>Exceptions\<close>

lemma to_lower_Cons_ascii: "is_ascii c \<Longrightarrow> to_lower ct (c # s) = lower_byte c # to_lower ct s"
  using rune_chunks_ascii_Cons [of c s] encode_ascii [of "lower_byte c"] is_ascii_lower_byte [of c]
  by (simp add: to_lower_runes runes_def is_ascii_def lower_rune_def)

lemma encode_rune_not_Nil: "encode_rune r \<noteq> []"
  using length_encode_rune [of r] by (auto split: if_splits)

lemma to_lower_eq_Nil [simp]: "to_lower ct s = [] \<longleftrightarrow> s = []"
proof
  assume "to_lower ct s = []"
  then have "rune_chunks s = []" by (cases "rune_chunks s") (auto simp: to_lower_runes runes_def encode_rune_not_Nil)
  then show "s = []" using concat_rune_chunks [of s] by simp
qed simp

text \<open>The comparison without allocation compares the lower-case forms.\<close>

lemma lowercase_loop_iff:
  "left = p @ ls \<Longrightarrow> right = q @ rs \<Longrightarrow> length p = length q \<Longrightarrow>
   (to_lower ct left = to_lower ct right \<longleftrightarrow> to_lower ct ls = to_lower ct rs) \<Longrightarrow>
   lowercase_loop ct left right ls rs = (to_lower ct left = to_lower ct right)"
proof (induction ls arbitrary: p q rs)
  case Nil
  then show ?case by (cases rs) (auto simp: eq_commute [of "[]"])
next
  case (Cons l ls)
  show ?case
  proof (cases rs)
    case Nil
    then show ?thesis using Cons.prems by auto
  next
    case r: (Cons r rs')
    show ?thesis
    proof (cases "is_ascii l \<and> is_ascii r")
      case True
      then have step: "to_lower ct (l # ls) = to_lower ct rs \<longleftrightarrow> lower_byte l = lower_byte r \<and> to_lower ct ls = to_lower ct rs'"
        using r by (simp add: to_lower_Cons_ascii)
      show ?thesis
      proof (cases "lower_byte l = lower_byte r")
        case eq: True
        have "lowercase_loop ct left right ls rs' = (to_lower ct left = to_lower ct right)"
          by (rule Cons.IH [of "p @ [l]" "q @ [r]"]) (use Cons.prems r step eq in auto)
        then show ?thesis using True eq r by simp
      next
        case False
        then show ?thesis using True r step Cons.prems by simp
      qed
    next
      case False
      then show ?thesis using r by auto
    qed
  qed
qed

lemma lowercaseStringsEqual_iff: "lowercaseStringsEqual ct l r = (to_lower ct l = to_lower ct r)"
  unfolding lowercaseStringsEqual_def by (rule lowercase_loop_iff [of l "[]" l r "[]" r]) auto

text \<open>When one exception covers a key.\<close>

definition exception_covers :: "case_table \<Rightarrow> string \<Rightarrow> ruleVariableException \<Rightarrow> bool" where
  "exception_covers ct key e =
     ((rve_KeyStr e = [] \<and> rve_KeyRx e = None) \<or>
      (\<exists>rx. rve_KeyRx e = Some rx \<and> rx (to_lower ct key)) \<or>
      to_lower ct (rve_KeyStr e) = to_lower ct key)"

lemma exception_loop_iff: "exception_loop ct key ready es = list_ex (exception_covers ct key) es"
  by (induction es arbitrary: ready)
    (auto simp: exception_covers_def lowercaseStringsEqual_iff Let_def split: option.splits)

lemma isRuleVariableException_iff:
  "isRuleVariableException ct key es = list_ex (exception_covers ct key) es"
  by (simp add: isRuleVariableException_def exception_loop_iff)

subsection \<open>Fields\<close>

lemma getFieldMatches_GetField: "getFieldMatches ct tx rv = map match_of (GetField ct tx rv)"
proof (cases "tx_Collection tx (rvp_Variable rv)")
  case None
  then show ?thesis by (simp add: getFieldMatches_def GetField_def)
next
  case (Some col)
  have f: "filter (\<lambda>c. \<not> isRuleVariableException ct (Key c) es) (map match_of ms) =
      map match_of (filter (\<lambda>c. \<not> isRuleVariableException ct (md_Key c) es) ms)" for es ms
    by (simp add: filter_map comp_def match_of_def)
  show ?thesis
    using Some
    by (auto simp: getFieldMatches_def GetField_def Let_def f AppendMatches_FindAll keyed_appends
        match_of_def new_match_data_def split: option.splits collection.splits)
qed

subsection \<open>Variables\<close>

text \<open>
  The shape of the variables: every map belongs to the variable it is created for, keeps its
  case sensitivity, and satisfies the map invariant.
\<close>

definition vars_ok :: "case_table \<Rightarrow> tx_vars \<Rightarrow> bool" where
  "vars_ok ct vs =
     (\<forall>v. Map_inv ct (maps vs v) \<and> m_variable (maps vs v) = v \<and>
          isCaseSensitive (maps vs v) = isCaseSensitive (maps NewTransactionVariables v))"

lemma vars_ok_New [simp]: "vars_ok ct NewTransactionVariables"
  by (simp add: vars_ok_def NewTransactionVariables_def NewMap_def [symmetric] NewCaseSensitiveKeyMap_def [symmetric])
    (simp add: NewMap_def NewCaseSensitiveKeyMap_def)

lemma map_op_shape [simp]:
  "m_variable (Map_Add ct c k x) = m_variable c" "isCaseSensitive (Map_Add ct c k x) = isCaseSensitive c"
  "m_variable (Map_Set ct c k xs) = m_variable c" "isCaseSensitive (Map_Set ct c k xs) = isCaseSensitive c"
  "m_variable (Map_Remove ct c k) = m_variable c" "isCaseSensitive (Map_Remove ct c k) = isCaseSensitive c"
  "m_variable (Map_Reset c) = m_variable c" "isCaseSensitive (Map_Reset c) = isCaseSensitive c"
  by (simp_all add: Map_Add_def Map_Set_def Map_Remove_def Map_Reset_def Let_def)

lemma set_index0_shape [simp]:
  "m_variable (set_index0 ct c k x) = m_variable c" "isCaseSensitive (set_index0 ct c k x) = isCaseSensitive c"
  by (auto simp: set_index0_def Map_SetIndex_def Let_def split: option.splits)

lemma set_index0_inv [intro]: "Map_inv ct c \<Longrightarrow> Map_inv ct (set_index0 ct c k x)"
  by (auto simp: set_index0_def split: option.splits intro: Map_inv_SetIndex)

lemma vars_ok_set_single [simp]: "vars_ok ct (tx_variables (set_single v x tx)) = vars_ok ct (tx_variables tx)"
  by (simp add: vars_ok_def set_single_def)

lemma vars_ok_set_map:
  "vars_ok ct (tx_variables tx) \<Longrightarrow> Map_inv ct c \<Longrightarrow> m_variable c = v \<Longrightarrow>
   isCaseSensitive c = isCaseSensitive (get_map tx v) \<Longrightarrow> vars_ok ct (tx_variables (set_map v c tx))"
  by (auto simp: vars_ok_def set_map_def get_map_def)

lemma vars_ok_get_map:
  "vars_ok ct (tx_variables tx) \<Longrightarrow> Map_inv ct (get_map tx v) \<and> m_variable (get_map tx v) = v"
  by (simp add: vars_ok_def get_map_def)

lemma vars_ok_Map_Add [simp, intro]:
  "vars_ok ct (tx_variables tx) \<Longrightarrow> vars_ok ct (tx_variables (set_map v (Map_Add ct (get_map tx v) k x) tx))"
  using vars_ok_get_map [of ct tx v] by (auto intro: vars_ok_set_map)

lemma vars_ok_set_index0 [simp, intro]:
  "vars_ok ct (tx_variables tx) \<Longrightarrow> vars_ok ct (tx_variables (set_map v (set_index0 ct (get_map tx v) k x) tx))"
  using vars_ok_get_map [of ct tx v] by (auto intro: vars_ok_set_map)

lemma vars_ok_Map_Set [simp, intro]:
  "vars_ok ct (tx_variables tx) \<Longrightarrow> vars_ok ct (tx_variables (set_map v (Map_Set ct (get_map tx v) k xs) tx))"
  using vars_ok_get_map [of ct tx v] by (auto intro: vars_ok_set_map)

lemma vars_ok_Map_Remove [simp, intro]:
  "vars_ok ct (tx_variables tx) \<Longrightarrow> vars_ok ct (tx_variables (set_map v (Map_Remove ct (get_map tx v) k) tx))"
  using vars_ok_get_map [of ct tx v] by (auto intro: vars_ok_set_map)

lemma vars_ok_Map_Reset [simp, intro]:
  "vars_ok ct (tx_variables tx) \<Longrightarrow> vars_ok ct (tx_variables (set_map v (Map_Reset (get_map tx v)) tx))"
  using vars_ok_get_map [of ct tx v] by (auto intro: vars_ok_set_map)

lemma each_value_inv:
  "P s \<Longrightarrow> (\<And>k v s. P s \<Longrightarrow> P (f k v s)) \<Longrightarrow> P (each_value f m s)"
proof (induction m arbitrary: s)
  case (Cons p m)
  have "P (fold (f k) vs s)" if "P s" for k vs s
    using that Cons.prems(2) by (induction vs arbitrary: s) auto
  with Cons show ?case by (cases p) (simp add: each_value_def)
qed (simp add: each_value_def)

lemma AddRequestHeader_vars_ok [simp, intro]:
  assumes "vars_ok ct (tx_variables tx)"
  shows "vars_ok ct (tx_variables (AddRequestHeader ct k x tx))"
proof -
  let ?tx = "set_map V_RequestHeaders (Map_Add ct (get_map tx V_RequestHeaders) k x) tx"
  have "vars_ok ct (tx_variables ?tx)" using assms by auto
  moreover from this have "vars_ok ct (tx_variables (each_value
      (\<lambda>k v tx. set_map V_RequestCookies (Map_Add ct (get_map tx V_RequestCookies) k v) tx) (ParseCookies x) ?tx))"
    by (rule each_value_inv) auto
  ultimately show ?thesis using assms by (auto simp: AddRequestHeader_def Let_def)
qed

lemma AddResponseHeader_vars_ok [simp, intro]:
  "vars_ok ct (tx_variables tx) \<Longrightarrow> vars_ok ct (tx_variables (AddResponseHeader ct k x tx))"
  by (auto simp: AddResponseHeader_def Let_def)

lemma CaptureField_vars_ok [simp, intro]:
  "vars_ok ct (tx_variables tx) \<Longrightarrow> vars_ok ct (tx_variables (CaptureField ct i x tx))"
  by (auto simp: CaptureField_def)

lemma matchVariable_vars_ok [simp, intro]:
  "vars_ok ct (tx_variables tx) \<Longrightarrow> vars_ok ct (tx_variables (matchVariable ct m tx))"
  by (auto simp: matchVariable_def Let_def)

lemma ExtractGetArguments_vars_ok [simp, intro]:
  "vars_ok ct (tx_variables tx) \<Longrightarrow> vars_ok ct (tx_variables (ExtractGetArguments ct w uri tx))"
  unfolding ExtractGetArguments_def
  by (rule each_value_inv [where P = "\<lambda>tx. vars_ok ct (tx_variables tx)"])
    (auto simp: AddGetRequestArgument_def add_argument_def)

lemma ProcessURI_vars_ok [simp, intro]:
  "vars_ok ct (tx_variables tx) \<Longrightarrow> vars_ok ct (tx_variables (ProcessURI ct pu w uri m h tx))"
  by (simp add: ProcessURI_def Let_def split: sum.splits error.splits)

subsection \<open>Argument limit\<close>

lemma Map_Len_Add: "Map_Len (Map_Add ct c k x) \<le> Suc (Map_Len c)"
  by (simp add: Map_Len_def Map_Add_def Let_def length_alist_put)

lemma add_argument_limit:
  "int (Map_Len (get_map tx v)) \<le> waf_ArgumentLimit w \<Longrightarrow>
   int (Map_Len (get_map (add_argument ct w u k x tx) v)) \<le> waf_ArgumentLimit w"
  using Map_Len_Add [of ct "get_map tx v" k x] by (auto simp: add_argument_def checkArgumentLimit_def)

subsection \<open>Reset\<close>

lemma singles_not_maps: "list_all (\<lambda>v. \<not> List.member map_variables v) stored_singles"
  by code_simp

lemma variables_disjoint:
  "v \<in> set stored_singles \<Longrightarrow> v \<notin> set map_variables"
  "V_XML \<notin> set stored_singles" "V_XML \<notin> set map_variables"
  "V_RequestXML \<in> set map_variables"
  using singles_not_maps
  by (auto simp: list_all_iff List.member_iff) (simp_all add: stored_singles_def single_variables_def map_variables_def)

lemma Map_Reset_twice [simp]: "Map_Reset (Map_Reset c) = Map_Reset c"
  by (simp add: Map_Reset_def)

lemma reset_fold:
  "singles (fold reset_variable xs vs) v = (if v \<in> set xs \<and> v \<in> set stored_singles then [] else singles vs v)"
  "maps (fold reset_variable xs vs) v =
     (if v \<in> set xs \<and> v \<in> set map_variables \<or> v = V_RequestXML \<and> V_XML \<in> set xs
      then Map_Reset (maps vs v) else maps vs v)"
  by (induction xs arbitrary: vs) (auto simp: reset_variable_def variables_disjoint)

lemma all_variables_cover: "set single_variables \<subseteq> set all_variables" "set map_variables \<subseteq> set all_variables"
  by (simp_all add: single_variables_def map_variables_def all_variables_def)

lemma reset_single: "v \<in> set single_variables \<Longrightarrow> singles (reset_variables vs) v = []"
  using all_variables_cover(1) by (auto simp: reset_variables_def reset_fold stored_singles_def)

lemma reset_map: "v \<in> set map_variables \<Longrightarrow> maps (reset_variables vs) v = Map_Reset (maps vs v)"
  using all_variables_cover(2) by (auto simp: reset_variables_def reset_fold)

lemma reset_map_New:
  assumes "vars_ok ct vs" "v \<in> set map_variables"
  shows "maps (reset_variables vs) v = maps NewTransactionVariables v"
proof -
  have "m_variable (maps vs v) = v" "isCaseSensitive (maps vs v) = isCaseSensitive (maps NewTransactionVariables v)"
    using assms(1) by (auto simp: vars_ok_def)
  then show ?thesis
    using assms(2)
    by (simp add: reset_map Map_Reset_def NewTransactionVariables_def NewMap_def NewCaseSensitiveKeyMap_def split: if_splits)
qed

lemma name_views_maps: "alist_get name_views v = Some b \<Longrightarrow> b \<in> set map_variables"
  by (auto simp: name_views_def map_variables_def split: if_splits)

lemma Collection_cong:
  assumes "\<And>v. v \<in> set single_variables \<Longrightarrow> singles vs v = singles us v"
    and "\<And>v. v \<in> set map_variables \<Longrightarrow> maps vs v = maps us v"
  shows "Collection vs idx = Collection us idx"
proof -
  have "maps vs v = maps us v" if "v \<in> {V_ArgsGet, V_ArgsPost, V_ArgsPath, V_RequestXML}" for v
    using that assms(2) by (auto simp: map_variables_def)
  moreover have "maps vs b = maps us b" if "alist_get name_views idx = Some b" for b
    using assms(2) name_views_maps [OF that] by blast
  ultimately show ?thesis
    using assms by (auto simp: Collection_def split: option.splits)
qed

lemma ExtractGetArguments_limit:
  "int (Map_Len (get_map tx V_ArgsGet)) \<le> waf_ArgumentLimit w \<Longrightarrow>
   int (Map_Len (get_map (ExtractGetArguments ct w uri tx) V_ArgsGet)) \<le> waf_ArgumentLimit w"
  unfolding ExtractGetArguments_def
  by (rule each_value_inv [where P = "\<lambda>tx. int (Map_Len (get_map tx V_ArgsGet)) \<le> waf_ArgumentLimit w"])
    (auto simp: AddGetRequestArgument_def add_argument_limit)

section \<open>Properties\<close>

text \<open>
  C35: the matches a rule variable selects, computed into the reusable slice without
  allocation, are those of the reference \<open>GetField\<close>; and an exception excludes a key exactly
  when it is empty, its expression matches the lower-case key, or its key equals it up to case.
\<close>

theorem getFieldMatches_refines:
  "getFieldMatches ct tx rv = map match_of (GetField ct tx rv) \<and>
   isRuleVariableException ct key es = list_ex (exception_covers ct key) es"
  by (simp add: getFieldMatches_GetField isRuleVariableException_iff)

text \<open>
  a target removed by a regular expression, as \<open>ctl:ruleRemoveTargetById=...;ARGS:/re/\<close>
  records it with an empty key, also excludes the element with the empty name, whatever the
  expression.
\<close>

theorem removed_regex_target_excludes_empty_key:
  "isRuleVariableException ct [] [\<lparr>rve_KeyStr = [], rve_KeyRx = Some rx\<rparr>]"
  by (simp add: isRuleVariableException_iff exception_covers_def)

text \<open>
  C40: processing a URI keeps the variables well-formed and never stores more argument names
  than the argument limit.
\<close>

theorem ProcessURI_arguments:
  assumes "vars_ok ct (tx_variables tx)" "int (Map_Len (get_map tx V_ArgsGet)) \<le> waf_ArgumentLimit w"
  shows "vars_ok ct (tx_variables (ProcessURI ct pu w uri m h tx)) \<and>
    int (Map_Len (get_map (ProcessURI ct pu w uri m h tx) V_ArgsGet)) \<le> waf_ArgumentLimit w"
proof -
  have lim: "int (Map_Len (get_map (ExtractGetArguments ct w q t) V_ArgsGet)) \<le> waf_ArgumentLimit w"
    if "get_map t V_ArgsGet = get_map tx V_ArgsGet" for q t
    using assms(2) that by (intro ExtractGetArguments_limit) simp
  show ?thesis
    using assms by (simp add: ProcessURI_def Let_def lim split: sum.splits error.splits)
qed

text \<open>A transaction and a configuration for witnesses.\<close>

definition sample_waf_config :: waf_config where
  "sample_waf_config =
     \<lparr>waf_RequestBodyAccess = True, waf_RequestBodyLimit = 8, waf_RequestBodyJsonDepthLimit = 4,
      waf_requestBodyInMemoryLimit = None, waf_ResponseBodyAccess = True, waf_ResponseBodyLimit = 8,
      waf_RuleEngine = RuleEngineOn, waf_ResponseBodyMimeTypes = [], waf_WebAppID = [], waf_ComponentNames = [],
      waf_AbortOnRemoteRulesFail = False, waf_ServerSignature = [], waf_TmpDir = [], waf_SensorID = [], waf_DataDir = [],
      waf_UploadKeepFiles = UploadKeepFilesOff, waf_UploadFileMode = 0, waf_UploadFileLimit = 0, waf_UploadDir = [],
      waf_RequestBodyNoFilesLimit = 0, waf_RequestBodyLimitAction = BodyLimitActionReject,
      waf_ResponseBodyLimitAction = BodyLimitActionReject, waf_ArgumentSeparator = [], waf_ProducerConnector = [],
      waf_ProducerConnectorVersion = [], waf_LogLevel = 0, waf_ErrorLogCb = True, waf_AuditEngine = AuditEngineOff,
      waf_AuditLogParts = [], waf_AuditLogFormat = [], waf_AuditLogRelevantStatus = None,
      waf_auditLogWriter = ''serial'',
      waf_AuditLogWriterConfig = \<lparr>alc_Target = [], alc_FileMode = 0, alc_Dir = [], alc_DirMode = 0, alc_Formatter = []\<rparr>,
      waf_auditLogWriterInitialized = False, waf_ArgumentLimit = 2, waf_RxPreFilterEnabled = False\<rparr>"

definition sample_transaction :: transaction where
  "sample_transaction =
     (let b = NewBodyBuffer \<lparr>TmpPath = [], MemoryLimit = 8, Limit = 8\<rparr> in zero_transaction b b)"

lemma sample_transaction_simps [simp]:
  "tx_variables sample_transaction = NewTransactionVariables"
  "get_map sample_transaction v = NewMap v"
  by (simp_all add: sample_transaction_def zero_transaction_def get_map_def NewTransactionVariables_def
      shouldUseCaseSensitiveNamedCollection_def Let_def)

theorem ProcessURI_arguments_witness:
  "int (Map_Len (get_map (ProcessURI (\<lambda>r. r) (\<lambda>u. Inr \<lparr>url_Path = ''/'', url_RawQuery = ''a=1&b=2&c=3'', url_String = u\<rparr>)
     sample_waf_config ''/?a=1&b=2&c=3'' ''GET'' ''HTTP/1.1'' sample_transaction) V_ArgsGet)) \<le> 2"
  using ProcessURI_arguments [of "\<lambda>r. r" sample_transaction sample_waf_config
      "\<lambda>u. Inr \<lparr>url_Path = ''/'', url_RawQuery = ''a=1&b=2&c=3'', url_String = u\<rparr>" "''/?a=1&b=2&c=3''" "''GET''" "''HTTP/1.1''"]
  by (simp add: sample_waf_config_def Map_Len_def NewMap_def)

text \<open>
  after the variables of a finished transaction are reset, everything a rule can read of
  them is as in new variables: nothing of one request shows in the next one.
\<close>

theorem reset_variables_isolates:
  assumes "vars_ok ct vs"
  shows "Collection (reset_variables vs) v = Collection NewTransactionVariables v"
  by (rule Collection_cong) (use assms in \<open>auto simp: reset_single reset_map_New NewTransactionVariables_def\<close>)

theorem reset_variables_isolates_witness:
  "Collection (reset_variables (tx_variables (AddRequestHeader (\<lambda>r. r) ''Cookie'' ''a=1'' sample_transaction))) V_RequestCookies =
     Collection NewTransactionVariables V_RequestCookies"
  by (rule reset_variables_isolates [of "\<lambda>r. r"]) auto

text \<open>
  the four response-body error variables are not among the variables \<open>All\<close> visits, so
  \<open>reset\<close> leaves the values of the finished transaction in them.
\<close>

theorem reset_keeps_response_body_errors:
  "singles (reset_variables vs) V_ResBodyError = singles vs V_ResBodyError \<and>
   singles (reset_variables vs) V_ResBodyErrorMsg = singles vs V_ResBodyErrorMsg \<and>
   singles (reset_variables vs) V_ResBodyProcessorError = singles vs V_ResBodyProcessorError \<and>
   singles (reset_variables vs) V_ResBodyProcessorErrorMsg = singles vs V_ResBodyProcessorErrorMsg"
  unfolding reset_variables_def reset_fold by (simp add: all_variables_def)

end
