(* ===== verification/Bufio.thy ===== *)
theory Bufio
  imports Utf8
begin

text \<open>
  Line scanning with \<open>bufio.Scanner\<close>, as the rule files and the data files of operators are
  read: lines end with a newline, a trailing carriage return is dropped, and a line that does
  not fit the scanner's buffer of 64 KiB ends the scan with an error.
\<close>

definition max_scan_token :: nat where
  "max_scan_token = 65536"

definition drop_cr :: "string \<Rightarrow> string" where
  "drop_cr l = (if l \<noteq> [] \<and> last l = CHR 13 then butlast l else l)"

text \<open>The lines of the input; a final empty line is not a token.\<close>

definition raw_lines :: "string \<Rightarrow> string list" where
  "raw_lines s = (let ls = split_byte s (CHR 10) in if last ls = [] then butlast ls else ls)"

text \<open>The tokens \<open>Scan\<close> delivers, and whether it stopped with \<open>ErrTooLong\<close>.\<close>

fun scan_tokens :: "string list \<Rightarrow> string list \<times> bool" where
  "scan_tokens [] = ([], False)"
| "scan_tokens (l # ls) =
     (if max_scan_token \<le> length l then ([], True)
      else case scan_tokens ls of (ts, err) \<Rightarrow> (drop_cr l # ts, err))"

definition scan_lines :: "string \<Rightarrow> string list \<times> bool" where
  "scan_lines s = scan_tokens (raw_lines s)"

section \<open>Lemmas\<close>

lemma scan_tokens_all:
  "list_all (\<lambda>l. length l < max_scan_token) ls \<Longrightarrow> scan_tokens ls = (map drop_cr ls, False)"
  by (induction ls) auto

lemma scan_tokens_too_long:
  "list_all (\<lambda>l. length l < max_scan_token) ls \<Longrightarrow> max_scan_token \<le> length l \<Longrightarrow>
   scan_tokens (ls @ l # rest) = (map drop_cr ls, True)"
  by (induction ls) auto

lemma raw_lines_no_newline: "l \<in> set (raw_lines s) \<Longrightarrow> CHR 10 \<notin> set l"
proof -
  have "CHR 10 \<notin> set l" if "l \<in> set (split_byte s (CHR 10))" for l
    using that by (induction s arbitrary: l) (auto split: if_splits list.splits)
  then show "l \<in> set (raw_lines s) \<Longrightarrow> CHR 10 \<notin> set l"
    by (auto simp: raw_lines_def Let_def split: if_splits dest: in_set_butlastD)
qed

text \<open>The newline-terminated concatenation of short lines is scanned back to these lines.\<close>

lemma split_byte_line:
  "c \<notin> set l \<Longrightarrow> split_byte (l @ c # s) c = l # split_byte s c"
  by (induction l) auto

lemma raw_lines_print:
  "list_all (\<lambda>l. CHR 10 \<notin> set l) ls \<Longrightarrow> raw_lines (concat (map (\<lambda>l. l @ [CHR 10]) ls)) = ls"
proof -
  assume "list_all (\<lambda>l. CHR 10 \<notin> set l) ls"
  then have "split_byte (concat (map (\<lambda>l. l @ [CHR 10]) ls)) (CHR 10) = ls @ [[]]"
    by (induction ls) (auto simp: split_byte_line)
  then show ?thesis by (simp add: raw_lines_def)
qed

lemma scan_lines_print:
  assumes "list_all (\<lambda>l. CHR 10 \<notin> set l \<and> length l < max_scan_token \<and> (l = [] \<or> last l \<noteq> CHR 13)) ls"
  shows "scan_lines (concat (map (\<lambda>l. l @ [CHR 10]) ls)) = (ls, False)"
proof -
  have "map drop_cr ls = ls" using assms by (intro map_idI) (auto simp: drop_cr_def list_all_iff)
  then show ?thesis
    using assms by (simp add: scan_lines_def raw_lines_print scan_tokens_all list_all_iff)
qed

end
