(* ===== verification/Operators.thy ===== *)
theory Operators
  imports Transaction Bufio
begin

text \<open>
  The operators of \<open>internal/operators\<close>: their constructors, which compile the argument of
  the rule, and their \<open>Evaluate\<close> methods. Evaluation returns the verdict and the transaction,
  which capturing operators change, or \<open>None\<close> where the code panics. What other packages
  compile is represented by what it computes: a regular expression by its match and submatch
  functions, an Aho-Corasick matcher by the list of its matches, a subnet by its membership
  test, \<open>libinjection\<close>, the resolver and the external program by their results.
\<close>

section \<open>String and number comparison\<close>

text \<open>A verdict that leaves the transaction alone.\<close>

definition verdict :: "transaction \<Rightarrow> (string \<Rightarrow> bool) \<Rightarrow> string option \<Rightarrow> (bool \<times> transaction) option" where
  "verdict tx p d = map_option (\<lambda>data. (p data, tx)) d"

definition beginsWith_Evaluate :: "case_table \<Rightarrow> macro \<Rightarrow> transaction \<Rightarrow> string \<Rightarrow> (bool \<times> transaction) option" where
  "beginsWith_Evaluate ct m tx value = verdict tx (\<lambda>data. has_prefix value data) (Expand ct (tx_Collection tx) m)"

definition contains_Evaluate :: "case_table \<Rightarrow> macro \<Rightarrow> transaction \<Rightarrow> string \<Rightarrow> (bool \<times> transaction) option" where
  "contains_Evaluate ct m tx value = verdict tx (\<lambda>data. contains_str value data) (Expand ct (tx_Collection tx) m)"

definition endsWith_Evaluate :: "case_table \<Rightarrow> macro \<Rightarrow> transaction \<Rightarrow> string \<Rightarrow> (bool \<times> transaction) option" where
  "endsWith_Evaluate ct m tx value = verdict tx (\<lambda>data. has_suffix value data) (Expand ct (tx_Collection tx) m)"

definition streq_Evaluate :: "case_table \<Rightarrow> macro \<Rightarrow> transaction \<Rightarrow> string \<Rightarrow> (bool \<times> transaction) option" where
  "streq_Evaluate ct m tx value = verdict tx (\<lambda>data. data = value) (Expand ct (tx_Collection tx) m)"

definition strmatch_Evaluate :: "case_table \<Rightarrow> macro \<Rightarrow> transaction \<Rightarrow> string \<Rightarrow> (bool \<times> transaction) option" where
  "strmatch_Evaluate ct m tx value = verdict tx (\<lambda>data. contains_str value data) (Expand ct (tx_Collection tx) m)"

definition within_Evaluate :: "case_table \<Rightarrow> macro \<Rightarrow> transaction \<Rightarrow> string \<Rightarrow> (bool \<times> transaction) option" where
  "within_Evaluate ct m tx value = verdict tx (\<lambda>data. contains_str data value) (Expand ct (tx_Collection tx) m)"

definition eq_Evaluate :: "case_table \<Rightarrow> macro \<Rightarrow> transaction \<Rightarrow> string \<Rightarrow> (bool \<times> transaction) option" where
  "eq_Evaluate ct m tx value = verdict tx (\<lambda>data. fst (atoi data) = fst (atoi value)) (Expand ct (tx_Collection tx) m)"

definition ge_Evaluate :: "case_table \<Rightarrow> macro \<Rightarrow> transaction \<Rightarrow> string \<Rightarrow> (bool \<times> transaction) option" where
  "ge_Evaluate ct m tx value = verdict tx (\<lambda>data. fst (atoi data) \<le> fst (atoi value)) (Expand ct (tx_Collection tx) m)"

definition gt_Evaluate :: "case_table \<Rightarrow> macro \<Rightarrow> transaction \<Rightarrow> string \<Rightarrow> (bool \<times> transaction) option" where
  "gt_Evaluate ct m tx value = verdict tx (\<lambda>data. fst (atoi data) < fst (atoi value)) (Expand ct (tx_Collection tx) m)"

definition le_Evaluate :: "case_table \<Rightarrow> macro \<Rightarrow> transaction \<Rightarrow> string \<Rightarrow> (bool \<times> transaction) option" where
  "le_Evaluate ct m tx value = verdict tx (\<lambda>data. fst (atoi value) \<le> fst (atoi data)) (Expand ct (tx_Collection tx) m)"

definition lt_Evaluate :: "case_table \<Rightarrow> macro \<Rightarrow> transaction \<Rightarrow> string \<Rightarrow> (bool \<times> transaction) option" where
  "lt_Evaluate ct m tx value = verdict tx (\<lambda>data. fst (atoi value) < fst (atoi data)) (Expand ct (tx_Collection tx) m)"

section \<open>Validation\<close>

definition validateByte :: "int \<Rightarrow> error option" where
  "validateByte b = (if b < 0 \<or> 255 < b then Some (Error (''invalid byte '' @ itoa b)) else None)"

text \<open>\<open>strconv.Atoi\<close> followed by \<open>validateByte\<close>.\<close>

definition parse_byte :: "string \<Rightarrow> int result" where
  "parse_byte s = result_bind (atoi_result s) (\<lambda>b. case validateByte b of Some e \<Rightarrow> Inl e | None \<Rightarrow> Inr b)"

text \<open>One element \<open>b\<close> or \<open>s-e\<close> of the list: the bytes it makes valid.\<close>

definition byte_range :: "string \<Rightarrow> (int \<times> int) result" where
  "byte_range br =
     (case cut (trim_space br) CHR ''-'' of (start, stop, found) \<Rightarrow>
        if \<not> found then result_bind (parse_byte start) (\<lambda>b. Inr (b, b))
        else result_bind (parse_byte start) (\<lambda>s. result_bind (parse_byte stop) (\<lambda>e. Inr (s, e))))"

fun byte_ranges :: "string list \<Rightarrow> bool list \<Rightarrow> bool list result" where
  "byte_ranges [] validBytes = Inr validBytes"
| "byte_ranges (br # brs) validBytes =
     (case byte_range br of
        Inl e \<Rightarrow> Inl e
      | Inr (s, e) \<Rightarrow> byte_ranges brs (fold (\<lambda>i vb. vb[nat i := True]) [s..e] validBytes))"

definition validateByteRange_Evaluate :: "bool list \<Rightarrow> string \<Rightarrow> bool" where
  "validateByteRange_Evaluate validBytes data =
     (if data = [] then False else list_ex (\<lambda>c. \<not> validBytes ! byte c) data)"

datatype urlEncodingResult = urlEncodingValid | urlEncodingInvalidNonHex | urlEncodingInvalidTruncated

definition isHexDigit :: "char \<Rightarrow> bool" where
  "isHexDigit c = (is_digit c \<or> (CHR ''a'' \<le> c \<and> c \<le> CHR ''f'') \<or> (CHR ''A'' \<le> c \<and> c \<le> CHR ''F''))"

fun validateURLEncodingInternal :: "string \<Rightarrow> urlEncodingResult" where
  "validateURLEncodingInternal [] = urlEncodingValid"
| "validateURLEncodingInternal (c # s) =
     (if c \<noteq> CHR ''%'' then validateURLEncodingInternal s
      else case s of
        h1 # h2 # rest \<Rightarrow>
          if \<not> isHexDigit h1 \<or> \<not> isHexDigit h2 then urlEncodingInvalidNonHex else validateURLEncodingInternal rest
      | _ \<Rightarrow> urlEncodingInvalidTruncated)"

definition validateURLEncoding_Evaluate :: "string \<Rightarrow> bool" where
  "validateURLEncoding_Evaluate value = (value \<noteq> [] \<and> validateURLEncodingInternal value \<noteq> urlEncodingValid)"

definition validateUtf8Encoding_Evaluate :: "string \<Rightarrow> bool" where
  "validateUtf8Encoding_Evaluate value = (\<not> valid_string value)"

text \<open>
  \<open>nidCl\<close>: the loop over the decimal digits of \<open>rut\<close>, lowest first. The expression
  \<open>[^\dk]\<close> matches every rune but ASCII digits and \<open>k\<close>, so its removal filters the bytes.
\<close>

function nid_sum :: "nat \<Rightarrow> nat \<Rightarrow> nat \<Rightarrow> nat" where
  "nid_sum rut acc factor =
     (if rut = 0 then acc
      else nid_sum (rut div 10) (acc + rut mod 10 * factor) (if factor = 7 then 2 else Suc factor))"
  by pat_completeness auto
termination by (relation "measure fst") auto

declare nid_sum.simps [simp del]

definition nidCl :: "case_table \<Rightarrow> string \<Rightarrow> bool option" where
  "nidCl ct nid =
     (if length nid < 8 then Some False
      else
        let nid = filter (\<lambda>c. is_digit c \<or> c = CHR ''k'') (to_lower ct nid)
        in if nid = [] then None
           else
             let rut = fst (atoi (butlast nid)); dv = [last nid];
                 val = nid_sum (nat rut) 0 2 mod 11;
                 ndv = (if val = 0 then ''0'' else if val = 1 then ''k'' else itoa (11 - int val))
             in Some (ndv = dv))"

definition digitToInt :: "char \<Rightarrow> int" where
  "digitToInt d = int ((byte d + 208) mod 256)"

text \<open>The loop over the digits: \<open>sequence\<close>, \<open>equals\<close> and the previous digit.\<close>

fun nid_scan :: "string \<Rightarrow> int \<Rightarrow> bool \<Rightarrow> bool \<Rightarrow> bool \<times> bool" where
  "nid_scan [] prev sq eqs = (sq, eqs)"
| "nid_scan (c # s) prev sq eqs =
     (let curr = digitToInt c in nid_scan s curr (sq \<and> curr = prev + 1) (eqs \<and> prev = curr))"

definition nidUs :: "string \<Rightarrow> bool" where
  "nidUs nid0 =
     (let nid = filter is_digit nid0
      in if length nid < 9 then False
         else
           let area = fst (atoi (take 3 nid)); grp = fst (atoi (take 2 (drop 3 nid)));
               serial = fst (atoi (take 4 (drop 5 nid)))
           in if area = 0 \<or> grp = 0 \<or> serial = 0 \<or> 740 \<le> area \<or> area = 666 then False
              else case nid_scan (tl nid) (digitToInt (hd nid)) True True of
                (sq, eqs) \<Rightarrow> \<not> sq \<and> \<not> eqs)"

datatype nid_kind = NidCl | NidUs

definition nid_fn :: "case_table \<Rightarrow> nid_kind \<Rightarrow> string \<Rightarrow> bool option" where
  "nid_fn ct k nid = (case k of NidCl \<Rightarrow> nidCl ct nid | NidUs \<Rightarrow> Some (nidUs nid))"

text \<open>The loop over the matches; the first group of a match is the match itself.\<close>

fun nid_loop :: "case_table \<Rightarrow> nid_kind \<Rightarrow> nat \<Rightarrow> string list \<Rightarrow> bool \<Rightarrow> transaction \<Rightarrow> (bool \<times> transaction) option" where
  "nid_loop ct k i [] res tx = Some (res, tx)"
| "nid_loop ct k i (m # ms) res tx =
     (if 10 \<le> i then Some (res, tx)
      else case nid_fn ct k m of
        None \<Rightarrow> None
      | Some True \<Rightarrow> nid_loop ct k (Suc i) ms True (CaptureField ct (int i) m tx)
      | Some False \<Rightarrow> nid_loop ct k (Suc i) ms res tx)"

definition validateNid_Evaluate ::
    "case_table \<Rightarrow> nid_kind \<Rightarrow> (string \<Rightarrow> string list) \<Rightarrow> transaction \<Rightarrow> string \<Rightarrow> (bool \<times> transaction) option" where
  "validateNid_Evaluate ct k find_all tx value = nid_loop ct k 0 (take 11 (find_all value)) False tx"

section \<open>Regular expressions\<close>

text \<open>
  A compiled expression: \<open>MatchString\<close>, and the submatches \<open>FindStringSubmatchIndex\<close> returns,
  a pair of indices or none for a group that took no part.
\<close>

record compiled_rx =
  crx_MatchString :: "string \<Rightarrow> bool"
  crx_Submatch :: "string \<Rightarrow> (nat \<times> nat) option list option"

record rx_operator =
  rx_re :: compiled_rx
  rx_accelerated :: "compiled_rx option"
  rx_minLen :: nat
  rx_prefilter :: "(string \<Rightarrow> bool) option"
  rx_stateFilter :: "(string \<Rightarrow> bool) option"
  rx_exactMatch :: string
  rx_exactMatchCI :: bool

definition acceleratedRXMinInputBytes :: nat where
  "acceleratedRXMinInputBytes = 512"

text \<open>\<open>strings.EqualFold\<close>; \<open>ft\<close> gives the representative of a rune's fold orbit.\<close>

definition fold_rune :: "(nat \<Rightarrow> nat) \<Rightarrow> nat \<Rightarrow> nat" where
  "fold_rune ft r = (if r < 128 then byte (lower_byte (to_byte r)) else ft r)"

definition equal_fold :: "(nat \<Rightarrow> nat) \<Rightarrow> string \<Rightarrow> string \<Rightarrow> bool" where
  "equal_fold ft s t = (map (fold_rune ft) (runes s) = map (fold_rune ft) (runes t))"

definition capture_group :: "string \<Rightarrow> (nat \<times> nat) option \<Rightarrow> string" where
  "capture_group value g = (case g of Some (a, b) \<Rightarrow> take (b - a) (drop a value) | None \<Rightarrow> [])"

fun capture_groups :: "case_table \<Rightarrow> string \<Rightarrow> nat \<Rightarrow> (nat \<times> nat) option list \<Rightarrow> transaction \<Rightarrow> transaction" where
  "capture_groups ct value i [] tx = tx"
| "capture_groups ct value i (g # gs) tx =
     (if i = 9 then tx
      else capture_groups ct value (Suc i) gs (CaptureField ct (int i) (capture_group value g) tx))"

definition captureRXMatch :: "case_table \<Rightarrow> transaction \<Rightarrow> string \<Rightarrow> (nat \<times> nat) option list option \<Rightarrow> bool \<times> transaction" where
  "captureRXMatch ct tx value m =
     (case m of None \<Rightarrow> (False, tx) | Some gs \<Rightarrow> (True, capture_groups ct value 0 gs tx))"

definition run_rx :: "case_table \<Rightarrow> compiled_rx \<Rightarrow> transaction \<Rightarrow> string \<Rightarrow> bool \<times> transaction" where
  "run_rx ct re tx value =
     (if tx_Capture tx then captureRXMatch ct tx value (crx_Submatch re value)
      else (crx_MatchString re value, tx))"

definition rx_Evaluate :: "case_table \<Rightarrow> (nat \<Rightarrow> nat) \<Rightarrow> rx_operator \<Rightarrow> transaction \<Rightarrow> string \<Rightarrow> bool \<times> transaction" where
  "rx_Evaluate ct ft r tx value =
     (if length value < rx_minLen r then (False, tx)
      else if rx_exactMatch r \<noteq> [] \<and> \<not> tx_Capture tx \<and> CHR 10 \<notin> set value then
        (if rx_exactMatchCI r then equal_fold ft value (rx_exactMatch r) else value = rx_exactMatch r, tx)
      else if (case rx_stateFilter r of
                 Some f \<Rightarrow> \<not> f value
               | None \<Rightarrow> (case rx_prefilter r of Some f \<Rightarrow> \<not> f value | None \<Rightarrow> False)) then (False, tx)
      else case rx_accelerated r of
        Some acc \<Rightarrow>
          if acceleratedRXMinInputBytes \<le> length value \<and> list_all is_ascii value then run_rx ct acc tx value
          else run_rx ct (rx_re r) tx value
      | None \<Rightarrow> run_rx ct (rx_re r) tx value)"

definition binaryRX_Evaluate :: "case_table \<Rightarrow> compiled_rx \<Rightarrow> (string \<Rightarrow> bool) option \<Rightarrow> transaction \<Rightarrow> string \<Rightarrow> bool \<times> transaction" where
  "binaryRX_Evaluate ct re prefilter tx value =
     (if (case prefilter of Some f \<Rightarrow> \<not> f value | None \<Rightarrow> False) then (False, tx) else run_rx ct re tx value)"

section \<open>Phrase match\<close>

record pm_operator =
  pm_matcher :: "string \<Rightarrow> (nat \<times> nat) list"
  pm_nonCapturing :: "(string \<Rightarrow> bool) option"
  pm_minLen :: nat

text \<open>The loop of \<open>minPatternLen\<close>; \<open>minimum = 0\<close> stands for no pattern seen.\<close>

fun min_pattern_loop :: "string list \<Rightarrow> nat \<Rightarrow> nat" where
  "min_pattern_loop [] minimum = minimum"
| "min_pattern_loop (p # ps) minimum =
     (if p = [] then 0
      else min_pattern_loop ps (if minimum = 0 \<or> length p < minimum then length p else minimum))"

definition minPatternLen :: "string list \<Rightarrow> nat" where
  "minPatternLen patterns = min_pattern_loop patterns 0"

definition anyEmpty :: "string list \<Rightarrow> bool" where
  "anyEmpty values = list_ex (\<lambda>v. v = []) values"

text \<open>The capturing loop: at most ten matches.\<close>

fun pm_capture :: "case_table \<Rightarrow> string \<Rightarrow> nat \<Rightarrow> (nat \<times> nat) list \<Rightarrow> transaction \<Rightarrow> bool \<times> transaction" where
  "pm_capture ct value n [] tx = (0 < n, tx)"
| "pm_capture ct value n ((a, b) # ms) tx =
     (let tx' = CaptureField ct (int n) (take (b - a) (drop a value)) tx
      in if Suc n = 10 then (True, tx') else pm_capture ct value (Suc n) ms tx')"

definition pmEvaluate :: "case_table \<Rightarrow> (string \<Rightarrow> (nat \<times> nat) list) \<Rightarrow> transaction \<Rightarrow> string \<Rightarrow> bool \<times> transaction" where
  "pmEvaluate ct matcher tx value =
     (if \<not> tx_Capture tx then (matcher value \<noteq> [], tx) else pm_capture ct value 0 (matcher value) tx)"

definition pm_Evaluate :: "case_table \<Rightarrow> pm_operator \<Rightarrow> transaction \<Rightarrow> string \<Rightarrow> bool \<times> transaction" where
  "pm_Evaluate ct o1 tx value =
     (if length value < pm_minLen o1 then (False, tx)
      else case pm_nonCapturing o1 of
        Some f \<Rightarrow>
          if \<not> f value then (False, tx)
          else if \<not> tx_Capture tx then (True, tx)
          else pmEvaluate ct (pm_matcher o1) tx value
      | None \<Rightarrow> pmEvaluate ct (pm_matcher o1) tx value)"

section \<open>Other operators\<close>

definition containsPrintableASCII :: "string \<Rightarrow> bool" where
  "containsPrintableASCII value = list_ex (\<lambda>c. 32 \<le> byte c \<and> byte c \<le> 126) value"

definition detectSQLi_Evaluate :: "case_table \<Rightarrow> (string \<Rightarrow> bool \<times> string) \<Rightarrow> transaction \<Rightarrow> string \<Rightarrow> bool \<times> transaction" where
  "detectSQLi_Evaluate ct IsSQLi tx value =
     (if \<not> containsPrintableASCII value then (False, tx)
      else case IsSQLi value of (res, fingerprint) \<Rightarrow>
        if \<not> res then (False, tx) else (True, CaptureField ct 0 fingerprint tx))"

definition detectXSS_Evaluate :: "(string \<Rightarrow> bool) \<Rightarrow> string \<Rightarrow> bool" where
  "detectXSS_Evaluate IsXSS value = (list_ex (\<lambda>c. c = CHR ''<'' \<or> c = CHR ''='') value \<and> IsXSS value)"

definition ipMatch_Evaluate :: "(string \<Rightarrow> bool) list \<Rightarrow> string \<Rightarrow> bool" where
  "ipMatch_Evaluate subnets value = list_ex (\<lambda>contains. contains value) subnets"

text \<open>\<open>restpath\<close>: the names of the groups and the text of each group of the match.\<close>

definition restpath_Evaluate :: "case_table \<Rightarrow> (string \<Rightarrow> string list option) \<Rightarrow> string list \<Rightarrow> transaction \<Rightarrow> string \<Rightarrow> bool \<times> transaction" where
  "restpath_Evaluate ct submatch names tx value =
     (case submatch value of
        None \<Rightarrow> (False, tx)
      | Some gs \<Rightarrow>
          (True, fold (\<lambda>(i, n, g) tx. if i \<noteq> 0 \<and> n \<noteq> [] then set_map V_ArgsPath (set_index0 ct (get_map tx V_ArgsPath) n g) tx else tx)
             (enumerate 0 (zip names gs)) tx))"

text \<open>The outcome of the lookups of \<open>rbl\<close>: a timeout, or the hosts and the TXT records.\<close>

datatype rbl_lookup = RblTimeout | RblAnswer "string list result" "string list result"

definition rbl_Evaluate :: "case_table \<Rightarrow> string \<Rightarrow> (string \<Rightarrow> rbl_lookup) \<Rightarrow> transaction \<Rightarrow> string \<Rightarrow> bool \<times> transaction" where
  "rbl_Evaluate ct service lookup tx ipAddr =
     (case lookup (ipAddr @ ''.'' @ service) of
        RblTimeout \<Rightarrow> (False, tx)
      | RblAnswer (Inl e) txt \<Rightarrow> (False, tx)
      | RblAnswer (Inr hosts) txt \<Rightarrow>
          if hosts = [] then (True, tx)
          else case txt of
            Inl e \<Rightarrow> (False, tx)
          | Inr [] \<Rightarrow> (True, tx)
          | Inr (status # _) \<Rightarrow>
              (True, CaptureField ct 0 status (set_map V_TX (Map_Set ct (get_map tx V_TX) ''httpbl_msg'' [status]) tx)))"

text \<open>The output of the program, or none for a failure or the timeout.\<close>

definition inspectFile_Evaluate :: "(string \<Rightarrow> string option) \<Rightarrow> string \<Rightarrow> bool" where
  "inspectFile_Evaluate run value =
     (case run value of None \<Rightarrow> False | Some output \<Rightarrow> output \<noteq> [] \<and> hd output \<noteq> CHR ''1'')"

text \<open>
  \<open>validateSchema\<close>: \<open>isValidJSON\<close> is the verdict of the compiled schema. The text is taken from
  the transaction variables the JSON body processor fills, as far as the last phase allows.
\<close>

definition first_value :: "string list \<Rightarrow> string" where
  "first_value xs = (case xs of x # _ \<Rightarrow> x | [] \<Rightarrow> [])"

definition validateSchema_body :: "case_table \<Rightarrow> transaction \<Rightarrow> string" where
  "validateSchema_body ct tx =
     (let resp = (if PhaseResponseBody \<le> tx_lastPhase tx then first_value (Map_Get ct (get_map tx V_TX) ''json_response_body'') else [])
      in if resp \<noteq> [] then resp
         else if PhaseRequestBody \<le> tx_lastPhase tx then first_value (Map_Get ct (get_map tx V_TX) ''json_request_body'')
         else [])"

definition validateSchema_Evaluate :: "case_table \<Rightarrow> (string \<Rightarrow> bool) \<Rightarrow> transaction \<Rightarrow> string \<Rightarrow> bool" where
  "validateSchema_Evaluate ct isValidJSON tx data =
     (let bodyData = validateSchema_body ct tx
      in if bodyData \<noteq> [] then \<not> isValidJSON bodyData
         else if data = [] then False
         else \<not> isValidJSON data)"

section \<open>All operators\<close>

datatype operator =
    BeginsWith macro | Contains macro | EndsWith macro | StrEq macro | StrMatch macro | Within macro
  | Eq macro | Ge macro | Gt macro | Le macro | Lt macro
  | UnconditionalMatch | NoMatch
  | ValidateByteRange "bool list" | ValidateURLEncoding | ValidateUtf8Encoding
  | ValidateNid nid_kind "string \<Rightarrow> string list"
  | Rx rx_operator | BinaryRX compiled_rx "(string \<Rightarrow> bool) option"
  | PM pm_operator
  | DetectSQLi "string \<Rightarrow> bool \<times> string" | DetectXSS "string \<Rightarrow> bool"
  | IPMatch "(string \<Rightarrow> bool) list"
  | RestPath "string \<Rightarrow> string list option" "string list"
  | RBL string "string \<Rightarrow> rbl_lookup"
  | InspectFile "string \<Rightarrow> string option"
  | ValidateSchema "string \<Rightarrow> bool"

definition op_Evaluate :: "case_table \<Rightarrow> (nat \<Rightarrow> nat) \<Rightarrow> operator \<Rightarrow> transaction \<Rightarrow> string \<Rightarrow> (bool \<times> transaction) option" where
  "op_Evaluate ct ft op tx value =
     (case op of
        BeginsWith m \<Rightarrow> beginsWith_Evaluate ct m tx value
      | Contains m \<Rightarrow> contains_Evaluate ct m tx value
      | EndsWith m \<Rightarrow> endsWith_Evaluate ct m tx value
      | StrEq m \<Rightarrow> streq_Evaluate ct m tx value
      | StrMatch m \<Rightarrow> strmatch_Evaluate ct m tx value
      | Within m \<Rightarrow> within_Evaluate ct m tx value
      | Eq m \<Rightarrow> eq_Evaluate ct m tx value
      | Ge m \<Rightarrow> ge_Evaluate ct m tx value
      | Gt m \<Rightarrow> gt_Evaluate ct m tx value
      | Le m \<Rightarrow> le_Evaluate ct m tx value
      | Lt m \<Rightarrow> lt_Evaluate ct m tx value
      | UnconditionalMatch \<Rightarrow> Some (True, tx)
      | NoMatch \<Rightarrow> Some (False, tx)
      | ValidateByteRange vb \<Rightarrow> Some (validateByteRange_Evaluate vb value, tx)
      | ValidateURLEncoding \<Rightarrow> Some (validateURLEncoding_Evaluate value, tx)
      | ValidateUtf8Encoding \<Rightarrow> Some (validateUtf8Encoding_Evaluate value, tx)
      | ValidateNid k f \<Rightarrow> validateNid_Evaluate ct k f tx value
      | Rx r \<Rightarrow> Some (rx_Evaluate ct ft r tx value)
      | BinaryRX re pf \<Rightarrow> Some (binaryRX_Evaluate ct re pf tx value)
      | PM p \<Rightarrow> Some (pm_Evaluate ct p tx value)
      | DetectSQLi f \<Rightarrow> Some (detectSQLi_Evaluate ct f tx value)
      | DetectXSS f \<Rightarrow> Some (detectXSS_Evaluate f value, tx)
      | IPMatch ns \<Rightarrow> Some (ipMatch_Evaluate ns value, tx)
      | RestPath f names \<Rightarrow> Some (restpath_Evaluate ct f names tx value)
      | RBL service lookup \<Rightarrow> Some (rbl_Evaluate ct service lookup tx value)
      | InspectFile run \<Rightarrow> Some (inspectFile_Evaluate run value, tx)
      | ValidateSchema f \<Rightarrow> Some (validateSchema_Evaluate ct f tx value, tx))"

section \<open>Construction\<close>

text \<open>
  What the constructors take from other packages: the compilers of expressions and of
  Aho-Corasick matchers, the analysis of \<open>rxprefilter.go\<close>, subnet parsing, \<open>libinjection\<close>,
  the resolver, program execution and the file system of the configuration.
\<close>

datatype file_error = NotExist | OtherError error

record op_env =
  env_regexp :: "string \<Rightarrow> compiled_rx result"
  env_find_all :: "string \<Rightarrow> (string \<Rightarrow> string list) result"
  env_restpath :: "string \<Rightarrow> ((string \<Rightarrow> string list option) \<times> string list) result"
  env_binaryregexp :: "string \<Rightarrow> compiled_rx result"
  env_binary_prefilter :: "string \<Rightarrow> (string \<Rightarrow> bool) option"
  env_accelerated :: "string \<Rightarrow> compiled_rx option result"
  env_minMatchLength :: "string \<Rightarrow> nat"
  env_prefilter :: "string \<Rightarrow> (string \<Rightarrow> bool) option"
  env_stateFilter :: "string \<Rightarrow> (string \<Rightarrow> bool) option"
  env_exactMatch :: "string \<Rightarrow> (string \<times> bool) option"
  env_ahocorasick :: "bool \<Rightarrow> string list \<Rightarrow> string \<Rightarrow> (nat \<times> nat) list"
  env_indexedMatcher :: "string list \<Rightarrow> string \<Rightarrow> bool"
  env_ParseCIDR :: "string \<Rightarrow> (string \<Rightarrow> bool) option"
  env_IsSQLi :: "string \<Rightarrow> bool \<times> string"
  env_IsXSS :: "string \<Rightarrow> bool"
  env_resolver :: "string \<Rightarrow> rbl_lookup"
  env_schema :: "string \<Rightarrow> (string \<Rightarrow> bool) result"
  env_exec :: "string \<Rightarrow> string \<Rightarrow> string option"
  env_ReadFile :: "string \<Rightarrow> file_error + string"
  env_IsAbs :: "string \<Rightarrow> bool"
  env_Join :: "string \<Rightarrow> string \<Rightarrow> string"

record OperatorOptions =
  opt_Arguments :: string
  opt_Path :: "string list"
  opt_Datasets :: "(string \<times> string list) list"
  opt_RxPreFilterEnabled :: bool

definition macro_operator :: "case_table \<Rightarrow> (macro \<Rightarrow> operator) \<Rightarrow> OperatorOptions \<Rightarrow> operator result" where
  "macro_operator ct C options = result_bind (NewMacro ct (opt_Arguments options)) (\<lambda>m. Inr (C m))"

definition newBeginsWith :: "case_table \<Rightarrow> OperatorOptions \<Rightarrow> operator result" where
  "newBeginsWith ct options = macro_operator ct BeginsWith options"

definition newContains :: "case_table \<Rightarrow> OperatorOptions \<Rightarrow> operator result" where
  "newContains ct options = macro_operator ct Contains options"

definition newEndsWith :: "case_table \<Rightarrow> OperatorOptions \<Rightarrow> operator result" where
  "newEndsWith ct options = macro_operator ct EndsWith options"

definition newStrEq :: "case_table \<Rightarrow> OperatorOptions \<Rightarrow> operator result" where
  "newStrEq ct options = macro_operator ct StrEq options"

definition newStrmatch :: "case_table \<Rightarrow> OperatorOptions \<Rightarrow> operator result" where
  "newStrmatch ct options = macro_operator ct StrMatch options"

definition newWithin :: "case_table \<Rightarrow> OperatorOptions \<Rightarrow> operator result" where
  "newWithin ct options = macro_operator ct Within options"

definition newEq :: "case_table \<Rightarrow> OperatorOptions \<Rightarrow> operator result" where
  "newEq ct options = macro_operator ct Eq options"

definition newGE :: "case_table \<Rightarrow> OperatorOptions \<Rightarrow> operator result" where
  "newGE ct options = macro_operator ct Ge options"

definition newGT :: "case_table \<Rightarrow> OperatorOptions \<Rightarrow> operator result" where
  "newGT ct options = macro_operator ct Gt options"

definition newLE :: "case_table \<Rightarrow> OperatorOptions \<Rightarrow> operator result" where
  "newLE ct options = macro_operator ct Le options"

definition newLT :: "case_table \<Rightarrow> OperatorOptions \<Rightarrow> operator result" where
  "newLT ct options = macro_operator ct Lt options"

definition newValidateByteRange :: "OperatorOptions \<Rightarrow> operator result" where
  "newValidateByteRange options =
     (let data = opt_Arguments options
      in if data = [] then Inr UnconditionalMatch
         else result_bind (byte_ranges (split_byte data CHR '','') (replicate 256 False)) (\<lambda>vb. Inr (ValidateByteRange vb)))"

definition newValidateNID :: "op_env \<Rightarrow> OperatorOptions \<Rightarrow> operator result" where
  "newValidateNID env options =
     (case cut (opt_Arguments options) CHR '' '' of (typ, expr, found) \<Rightarrow>
        if \<not> found then Inl (Error ''invalid @validateNid argument'')
        else if typ = ''cl'' then result_bind (env_find_all env expr) (\<lambda>f. Inr (ValidateNid NidCl f))
        else if typ = ''us'' then result_bind (env_find_all env expr) (\<lambda>f. Inr (ValidateNid NidUs f))
        else Inl (Error ''invalid @validateNid argument''))"

definition newPM :: "case_table \<Rightarrow> op_env \<Rightarrow> OperatorOptions \<Rightarrow> operator result" where
  "newPM ct env options =
     (let dict = split_byte (to_lower ct (opt_Arguments options)) CHR '' ''
      in Inr (PM \<lparr>pm_matcher = env_ahocorasick env True dict,
                  pm_nonCapturing = (if \<not> anyEmpty dict then Some (env_indexedMatcher env dict) else None),
                  pm_minLen = minPatternLen dict\<rparr>))"

definition newPMFromDataset :: "op_env \<Rightarrow> OperatorOptions \<Rightarrow> operator result" where
  "newPMFromDataset env options =
     (case alist_get (opt_Datasets options) (opt_Arguments options) of
        None \<Rightarrow> Inl (Error (''dataset '' @ opt_Arguments options @ '' not found''))
      | Some dataset \<Rightarrow>
          Inr (PM \<lparr>pm_matcher = env_ahocorasick env True dataset, pm_nonCapturing = None,
                   pm_minLen = minPatternLen dataset\<rparr>))"

text \<open>The directories in order; a file that does not exist is looked for in the next one.\<close>

fun load_from_dirs :: "op_env \<Rightarrow> string \<Rightarrow> string list \<Rightarrow> string result" where
  "load_from_dirs env filename [] = Inl (Error ''file does not exist'')"
| "load_from_dirs env filename (p # dirs) =
     (case env_ReadFile env (env_Join env p filename) of
        Inr content \<Rightarrow> Inr content
      | Inl NotExist \<Rightarrow> load_from_dirs env filename dirs
      | Inl (OtherError e) \<Rightarrow> Inl e)"

definition loadFromFile :: "op_env \<Rightarrow> string \<Rightarrow> string list \<Rightarrow> string result" where
  "loadFromFile env filename dirs =
     (if env_IsAbs env filename then
        (case env_ReadFile env filename of
           Inr content \<Rightarrow> Inr content
         | Inl NotExist \<Rightarrow> Inl (Error ''file does not exist'')
         | Inl (OtherError e) \<Rightarrow> Inl e)
      else if dirs = [] then Inl (Error ''empty dirs'')
      else load_from_dirs env filename dirs)"

text \<open>The lines of a data file without comments and blank lines.\<close>

definition data_lines :: "string \<Rightarrow> string list" where
  "data_lines data =
     filter (\<lambda>l. l \<noteq> [] \<and> hd l \<noteq> CHR ''#'') (map trim_space (fst (scan_lines data)))"

definition newPMFromFile :: "case_table \<Rightarrow> op_env \<Rightarrow> OperatorOptions \<Rightarrow> operator result" where
  "newPMFromFile ct env options =
     result_bind (loadFromFile env (opt_Arguments options) (opt_Path options)) (\<lambda>data.
       let lines = map (to_lower ct) (data_lines data)
       in Inr (PM \<lparr>pm_matcher = env_ahocorasick env False lines,
                   pm_nonCapturing = (if \<not> anyEmpty lines then Some (env_indexedMatcher env lines) else None),
                   pm_minLen = minPatternLen lines\<rparr>))"

definition cidr_of :: "string \<Rightarrow> string" where
  "cidr_of sb =
     (if CHR '':'' \<in> set sb \<and> CHR ''/'' \<notin> set sb then sb @ ''/128''
      else if CHR ''.'' \<in> set sb \<and> CHR ''/'' \<notin> set sb then sb @ ''/32''
      else sb)"

definition newIPMatch :: "op_env \<Rightarrow> OperatorOptions \<Rightarrow> operator result" where
  "newIPMatch env options =
     Inr (IPMatch (List.map_filter (\<lambda>sb. if sb = [] then None else env_ParseCIDR env (cidr_of sb))
       (map trim_space (split_byte (opt_Arguments options) CHR '',''))))"

definition newIPMatchFromDataset :: "op_env \<Rightarrow> OperatorOptions \<Rightarrow> operator result" where
  "newIPMatchFromDataset env options =
     (case alist_get (opt_Datasets options) (opt_Arguments options) of
        None \<Rightarrow> Inl (Error (''dataset '' @ opt_Arguments options @ '' not found''))
      | Some dataset \<Rightarrow>
          if dataset = [] then Inl (Error (''dataset '' @ opt_Arguments options @ '' not found''))
          else newIPMatch env (options\<lparr>opt_Arguments := join_str '','' dataset\<rparr>))"

definition newIPMatchFromFile :: "op_env \<Rightarrow> OperatorOptions \<Rightarrow> operator result" where
  "newIPMatchFromFile env options =
     result_bind (loadFromFile env (opt_Arguments options) (opt_Path options)) (\<lambda>data.
       newIPMatch env (options\<lparr>opt_Arguments := concat (map (\<lambda>l. '','' @ l) (data_lines data))\<rparr>))"

text \<open>\<open>strconv.UnquoteChar\<close> on a \<open>\x\<close> escape: the byte of two hexadecimal digits.\<close>

definition unquote_x :: "string \<Rightarrow> char option" where
  "unquote_x sub =
     (case drop 2 sub of
        h1 # h2 # _ \<Rightarrow> if ValidHex h1 \<and> ValidHex h2 then Some (X2c h1 h2) else None
      | _ \<Rightarrow> None)"

function decode_hex_escapes :: "string \<Rightarrow> string" where
  "decode_hex_escapes [] = []"
| "decode_hex_escapes (c # s) =
     (if c \<noteq> CHR 92 then c # decode_hex_escapes s
      else if length s \<le> 2 then c # s
      else if hd s \<noteq> CHR ''x'' then c # decode_hex_escapes s
      else
        let sub = c # s;
            (sub', advance) =
              (if 6 \<le> length sub \<and> sub ! 2 = CHR ''{'' then
                 (case index_byte sub CHR ''}'' of
                    Some e \<Rightarrow> ([CHR 92, CHR ''x''] @ take (e - 3) (drop 3 sub), e)
                  | None \<Rightarrow> (sub, 3))
               else (sub, 3))
        in case unquote_x sub' of
             None \<Rightarrow> c # decode_hex_escapes s
           | Some b \<Rightarrow> b # decode_hex_escapes (drop advance s))"
  by pat_completeness auto
termination by (relation "measure length") auto

definition matchesArbitraryBytes :: "string \<Rightarrow> bool" where
  "matchesArbitraryBytes expr = (\<not> valid_string (decode_hex_escapes expr))"

text \<open>Build option \<open>coraza.rule.no_regex_multiline\<close>, off by default.\<close>

definition shouldNotUseMultilineRegexesOperatorByDefault :: bool where
  "shouldNotUseMultilineRegexesOperatorByDefault = False"

definition newBinaryRX :: "op_env \<Rightarrow> OperatorOptions \<Rightarrow> operator result" where
  "newBinaryRX env options =
     result_bind (env_binaryregexp env (opt_Arguments options)) (\<lambda>re.
       Inr (BinaryRX re (if opt_RxPreFilterEnabled options then env_binary_prefilter env (opt_Arguments options) else None)))"

definition newRX :: "op_env \<Rightarrow> OperatorOptions \<Rightarrow> operator result" where
  "newRX env options =
     (let data = (if shouldNotUseMultilineRegexesOperatorByDefault then ''(?s)'' else ''(?sm)'') @ opt_Arguments options;
          pf = opt_RxPreFilterEnabled options
      in if matchesArbitraryBytes data then newBinaryRX env options
         else result_bind (env_regexp env data) (\<lambda>re.
           Inr (Rx
             \<lparr>rx_re = re,
              rx_accelerated = (if pf then (case env_accelerated env data of Inr a \<Rightarrow> a | Inl _ \<Rightarrow> None) else None),
              rx_minLen = (if pf then env_minMatchLength env data else 0),
              rx_prefilter = (if pf then env_prefilter env data else None),
              rx_stateFilter = (if pf then env_stateFilter env data else None),
              rx_exactMatch = (if pf then (case env_exactMatch env (opt_Arguments options) of Some (l, ci) \<Rightarrow> l | None \<Rightarrow> []) else []),
              rx_exactMatchCI = (if pf then (case env_exactMatch env (opt_Arguments options) of Some (l, ci) \<Rightarrow> l \<noteq> [] \<and> ci | None \<Rightarrow> False) else False)\<rparr>)))"

text \<open>
  \<open>newRESTPath\<close>: the names between braces, and the expression in which the first occurrence of
  each placeholder is a named group.
\<close>

function path_tokens :: "string \<Rightarrow> string list" where
  "path_tokens [] = []"
| "path_tokens (c # s) =
     (let name = takeWhile (\<lambda>x. x \<noteq> CHR ''}'') s; rest = dropWhile (\<lambda>x. x \<noteq> CHR ''}'') s
      in if c = CHR ''{'' \<and> name \<noteq> [] \<and> rest \<noteq> [] then name # path_tokens (tl rest) else path_tokens s)"
  by pat_completeness auto
termination
  by (relation "measure length") (auto simp: less_Suc_eq_le intro: le_trans [OF diff_le_self length_dropWhile_le])

fun replace_first :: "string \<Rightarrow> string \<Rightarrow> string \<Rightarrow> string" where
  "replace_first [] old new = (if old = [] then new else [])"
| "replace_first (c # s) old new =
     (if has_prefix (c # s) old then new @ drop (length old) (c # s) else c # replace_first s old new)"

definition restpath_expression :: "string \<Rightarrow> string" where
  "restpath_expression arguments =
     (let data = concat (map (\<lambda>c. if c = CHR ''/'' then [CHR 92, CHR ''/''] else [c]) arguments)
      in fold (\<lambda>name data. replace_first data (''{'' @ name @ ''}'') (''(?P<'' @ name @ ''>[^?/]+)''))
           (path_tokens data) data)"

definition newRESTPath :: "op_env \<Rightarrow> OperatorOptions \<Rightarrow> operator result" where
  "newRESTPath env options =
     result_bind (env_restpath env (restpath_expression (opt_Arguments options))) (\<lambda>(submatch, names).
       Inr (RestPath submatch names))"

text \<open>\<open>filepath.Ext\<close>: from the last dot of the last path element.\<close>

definition filepath_ext :: "string \<Rightarrow> string" where
  "filepath_ext path =
     (case last_index_any [CHR ''.'', CHR ''/''] path of
        Some i \<Rightarrow> if path ! i = CHR ''.'' then drop i path else []
      | None \<Rightarrow> [])"

definition NewValidateSchema :: "case_table \<Rightarrow> op_env \<Rightarrow> OperatorOptions \<Rightarrow> operator result" where
  "NewValidateSchema ct env options =
     (let schemaPath = opt_Arguments options; ext = to_lower ct (filepath_ext schemaPath)
      in if schemaPath = [] then Inl (Error ''missing schema file path'')
         else if ext \<noteq> ''.json'' then Inl (Error (''unsupported schema type: '' @ ext @ '', only JSON is supported''))
         else case env_ReadFile env schemaPath of
           Inl e \<Rightarrow> Inl (Error ''reading schema from root FS'')
         | Inr schemaData \<Rightarrow> result_bind (env_schema env schemaData) (\<lambda>f. Inr (ValidateSchema f)))"

text \<open>The registry: \<open>Get\<close>.\<close>

definition operators_Get :: "case_table \<Rightarrow> op_env \<Rightarrow> string \<Rightarrow> OperatorOptions \<Rightarrow> operator result" where
  "operators_Get ct env name options =
     (if name = ''beginsWith'' then newBeginsWith ct options
      else if name = ''contains'' then newContains ct options
      else if name = ''detectSQLi'' then Inr (DetectSQLi (env_IsSQLi env))
      else if name = ''detectXSS'' then Inr (DetectXSS (env_IsXSS env))
      else if name = ''endsWith'' then newEndsWith ct options
      else if name = ''eq'' then newEq ct options
      else if name = ''ge'' then newGE ct options
      else if name = ''geoLookup'' then Inr UnconditionalMatch
      else if name = ''gt'' then newGT ct options
      else if name = ''inspectFile'' then Inr (InspectFile (env_exec env (opt_Arguments options)))
      else if name = ''ipMatch'' then newIPMatch env options
      else if name = ''ipMatchFromDataset'' then newIPMatchFromDataset env options
      else if name = ''ipMatchFromFile'' \<or> name = ''ipMatchF'' then newIPMatchFromFile env options
      else if name = ''le'' then newLE ct options
      else if name = ''lt'' then newLT ct options
      else if name = ''noMatch'' then Inr NoMatch
      else if name = ''pm'' then newPM ct env options
      else if name = ''pmFromDataset'' then newPMFromDataset env options
      else if name = ''pmFromFile'' \<or> name = ''pmf'' then newPMFromFile ct env options
      else if name = ''rbl'' then Inr (RBL (opt_Arguments options) (env_resolver env))
      else if name = ''restpath'' then newRESTPath env options
      else if name = ''rx'' then newRX env options
      else if name = ''streq'' then newStrEq ct options
      else if name = ''strmatch'' then newStrmatch ct options
      else if name = ''unconditionalMatch'' then Inr UnconditionalMatch
      else if name = ''validateByteRange'' then newValidateByteRange options
      else if name = ''validateNid'' then newValidateNID env options
      else if name = ''validateSchema'' then NewValidateSchema ct env options
      else if name = ''validateUrlEncoding'' then Inr ValidateURLEncoding
      else if name = ''validateUtf8Encoding'' then Inr ValidateUtf8Encoding
      else if name = ''within'' then newWithin ct options
      else Inl (Error (''operator '' @ name @ '' not found'')))"

section \<open>Lemmas\<close>

subsection \<open>Effect on the transaction\<close>

text \<open>Only the variables of the transaction change.\<close>

definition vars_only :: "transaction \<Rightarrow> transaction \<Rightarrow> bool" where
  "vars_only tx tx' = (tx' = tx\<lparr>tx_variables := tx_variables tx'\<rparr>)"

lemma vars_only_refl [simp]: "vars_only tx tx"
  by (simp add: vars_only_def)

lemma vars_only_trans: "vars_only a b \<Longrightarrow> vars_only b c \<Longrightarrow> vars_only a c"
  unfolding vars_only_def by (metis transaction.surjective transaction.update_convs(27))

lemma vars_only_set [simp]: "vars_only tx (set_single v x tx)" "vars_only tx (set_map v c tx)"
  by (simp_all add: vars_only_def set_single_def set_map_def)

lemma vars_only_CaptureField [simp]: "vars_only tx (CaptureField ct i x tx)"
  by (simp add: CaptureField_def)

text \<open>
  What an operator may do to the transaction: change the collections \<open>TX\<close> and \<open>ARGS_PATH\<close> and
  keep the variables well-formed.
\<close>

definition op_effect :: "case_table \<Rightarrow> transaction \<Rightarrow> transaction \<Rightarrow> bool" where
  "op_effect ct tx tx' =
     (vars_only tx tx' \<and> (vars_ok ct (tx_variables tx) \<longrightarrow> vars_ok ct (tx_variables tx')) \<and>
      singles (tx_variables tx') = singles (tx_variables tx) \<and>
      (\<forall>v. v \<noteq> V_TX \<and> v \<noteq> V_ArgsPath \<longrightarrow> maps (tx_variables tx') v = maps (tx_variables tx) v))"

lemma op_effect_refl [simp]: "op_effect ct tx tx"
  by (simp add: op_effect_def)

lemma op_effect_trans: "op_effect ct a b \<Longrightarrow> op_effect ct b c \<Longrightarrow> op_effect ct a c"
  by (auto simp: op_effect_def intro: vars_only_trans)

lemma singles_set_map [simp]: "singles (tx_variables (set_map v c tx)) = singles (tx_variables tx)"
  by (simp add: set_map_def)

lemma maps_set_map [simp]: "maps (tx_variables (set_map v c tx)) = (maps (tx_variables tx))(v := c)"
  by (simp add: set_map_def)

lemma op_effect_set_index0:
  "v = V_TX \<or> v = V_ArgsPath \<Longrightarrow> op_effect ct tx (set_map v (set_index0 ct (get_map tx v) k x) tx)"
  by (auto simp: op_effect_def)

lemma op_effect_Map_Set: "op_effect ct tx (set_map V_TX (Map_Set ct (get_map tx V_TX) k xs) tx)"
  by (simp add: op_effect_def)

lemma op_effect_CaptureField [simp]: "op_effect ct tx (CaptureField ct i x tx)"
  by (simp add: CaptureField_def op_effect_set_index0)

lemma op_effect_fold:
  "(\<And>x tx. op_effect ct tx (f x tx)) \<Longrightarrow> op_effect ct tx (fold f xs tx)"
proof (induction xs arbitrary: tx)
  case (Cons x xs)
  then show ?case using op_effect_trans [of ct tx "f x tx"] by simp
qed simp

lemma capture_groups_effect: "op_effect ct tx (capture_groups ct value i gs tx)"
proof (induction ct "value" i gs tx rule: capture_groups.induct)
  case (2 ct val i g gs tx)
  then show ?case by (auto intro: op_effect_trans [OF op_effect_CaptureField])
qed simp

lemma run_rx_effect: "op_effect ct tx (snd (run_rx ct re tx value))"
  by (auto simp: run_rx_def captureRXMatch_def capture_groups_effect split: option.splits)

lemma pm_capture_effect: "op_effect ct tx (snd (pm_capture ct value n ms tx))"
proof (induction ct "value" n ms tx rule: pm_capture.induct)
  case (2 ct val n a b ms tx)
  then show ?case by (auto simp: Let_def intro: op_effect_trans [OF op_effect_CaptureField])
qed simp

lemma nid_loop_effect: "nid_loop ct k i ms res tx = Some (b, tx') \<Longrightarrow> op_effect ct tx tx'"
proof (induction ct k i ms res tx rule: nid_loop.induct)
  case (2 ct k i m ms res tx)
  then show ?case
    by (auto split: if_splits option.splits bool.splits intro: op_effect_trans [OF op_effect_CaptureField])
qed simp

lemma restpath_effect: "op_effect ct tx (snd (restpath_Evaluate ct f names tx value))"
  by (auto simp: restpath_Evaluate_def op_effect_set_index0 intro!: op_effect_fold split: option.splits)

lemma rbl_effect: "op_effect ct tx (snd (rbl_Evaluate ct service lookup tx value))"
  by (auto simp: rbl_Evaluate_def split: rbl_lookup.splits sum.splits list.splits
      intro: op_effect_trans [OF op_effect_Map_Set op_effect_CaptureField])

lemmas macro_operator_defs =
  beginsWith_Evaluate_def contains_Evaluate_def endsWith_Evaluate_def streq_Evaluate_def strmatch_Evaluate_def
  within_Evaluate_def eq_Evaluate_def ge_Evaluate_def gt_Evaluate_def le_Evaluate_def lt_Evaluate_def

lemma op_Evaluate_effect:
  "op_Evaluate ct ft op tx value = Some (b, tx') \<Longrightarrow> op_effect ct tx tx'"
proof (cases op)
  case (Rx r)
  have "op_effect ct tx (snd (rx_Evaluate ct ft r tx value))"
    by (auto simp: rx_Evaluate_def run_rx_effect split: option.splits)
  then show "op_Evaluate ct ft op tx value = Some (b, tx') \<Longrightarrow> ?thesis" using Rx by (auto simp: op_Evaluate_def)
next
  case (BinaryRX re pf)
  have "op_effect ct tx (snd (binaryRX_Evaluate ct re pf tx value))"
    by (auto simp: binaryRX_Evaluate_def run_rx_effect split: option.splits)
  then show "op_Evaluate ct ft op tx value = Some (b, tx') \<Longrightarrow> ?thesis" using BinaryRX by (auto simp: op_Evaluate_def)
next
  case (PM p)
  have "op_effect ct tx (snd (pm_Evaluate ct p tx value))"
    by (auto simp: pm_Evaluate_def pmEvaluate_def pm_capture_effect split: option.splits)
  then show "op_Evaluate ct ft op tx value = Some (b, tx') \<Longrightarrow> ?thesis" using PM by (auto simp: op_Evaluate_def)
next
  case (DetectSQLi f)
  have "op_effect ct tx (snd (detectSQLi_Evaluate ct f tx value))"
    by (auto simp: detectSQLi_Evaluate_def split: prod.splits)
  then show "op_Evaluate ct ft op tx value = Some (b, tx') \<Longrightarrow> ?thesis" using DetectSQLi by (auto simp: op_Evaluate_def)
next
  case (RestPath f names)
  then show "op_Evaluate ct ft op tx value = Some (b, tx') \<Longrightarrow> ?thesis"
    using restpath_effect [of ct tx f names "value"] by (auto simp: op_Evaluate_def)
next
  case (RBL service lookup)
  then show "op_Evaluate ct ft op tx value = Some (b, tx') \<Longrightarrow> ?thesis"
    using rbl_effect [of ct tx service lookup "value"] by (auto simp: op_Evaluate_def)
next
  case (ValidateNid k f)
  then show "op_Evaluate ct ft op tx value = Some (b, tx') \<Longrightarrow> ?thesis"
    using nid_loop_effect by (auto simp: op_Evaluate_def validateNid_Evaluate_def)
qed (auto simp: op_Evaluate_def macro_operator_defs verdict_def)

text \<open>Evaluation does not panic when the macro of the operator expands and no national ID is checked.\<close>

fun op_macro :: "operator \<Rightarrow> macro option" where
  "op_macro (BeginsWith m) = Some m"
| "op_macro (Contains m) = Some m"
| "op_macro (EndsWith m) = Some m"
| "op_macro (StrEq m) = Some m"
| "op_macro (StrMatch m) = Some m"
| "op_macro (Within m) = Some m"
| "op_macro (Eq m) = Some m"
| "op_macro (Ge m) = Some m"
| "op_macro (Gt m) = Some m"
| "op_macro (Le m) = Some m"
| "op_macro (Lt m) = Some m"
| "op_macro _ = None"

definition op_safe :: "operator \<Rightarrow> bool" where
  "op_safe op =
     ((case op_macro op of Some m \<Rightarrow> list_all (\<lambda>t. tok_variable t \<noteq> V_JSON) (macro_tokens m) | None \<Rightarrow> True) \<and>
      (case op of ValidateNid NidCl f \<Rightarrow> False | _ \<Rightarrow> True))"

lemma Collection_total: "v \<noteq> V_JSON \<Longrightarrow> Collection vs v \<noteq> None"
  by (auto simp: Collection_def split: option.splits)

lemma tx_Collection_total: "v \<noteq> V_JSON \<Longrightarrow> tx_Collection tx v \<noteq> None"
  by (simp add: tx_Collection_def Collection_total)

definition macro_safe :: "macro \<Rightarrow> bool" where
  "macro_safe m = list_all (\<lambda>t. tok_variable t \<noteq> V_JSON) (macro_tokens m)"

lemma Expand_safe: "macro_safe m \<Longrightarrow> \<exists>x. Expand ct (tx_Collection tx) m = Some x"
proof -
  assume "macro_safe m"
  then have "macro_total (tx_Collection tx) m"
    using tx_Collection_total by (auto simp: macro_safe_def macro_total_def list_all_iff)
  then show ?thesis by (rule Expand_total)
qed

lemma nid_loop_us: "\<exists>r. nid_loop ct NidUs i ms res tx = Some r"
  by (induction ct NidUs i ms res tx rule: nid_loop.induct) (auto simp: nid_fn_def split: bool.splits)

lemma op_Evaluate_safe:
  assumes "op_safe op"
  shows "\<exists>r. op_Evaluate ct ft op tx value = Some r"
proof -
  have m: "\<exists>r. verdict tx p (Expand ct (tx_Collection tx) m) = Some r" if "op_macro op = Some m" for p m
    using assms Expand_safe [of m ct tx] that by (auto simp: op_safe_def macro_safe_def verdict_def)
  have nid: "\<exists>r. op_Evaluate ct ft op tx value = Some r" if "op = ValidateNid k f" for k f
    using that assms nid_loop_us [of ct 0] by (cases k) (auto simp: op_safe_def op_Evaluate_def validateNid_Evaluate_def)
  show ?thesis
    by (cases op) (use m nid in \<open>auto simp: op_Evaluate_def macro_operator_defs\<close>)
qed

subsection \<open>Byte ranges\<close>

lemma parse_byte_bounds: "parse_byte s = Inr b \<Longrightarrow> 0 \<le> b \<and> b \<le> 255"
  by (auto simp: parse_byte_def result_bind_eq_Inr validateByte_def split: if_splits)

lemma byte_range_bounds: "byte_range br = Inr (s, e) \<Longrightarrow> 0 \<le> s \<and> s \<le> 255 \<and> 0 \<le> e \<and> e \<le> 255"
  by (auto simp: byte_range_def result_bind_eq_Inr split: prod.splits if_splits dest: parse_byte_bounds)

lemma set_range_length [simp]: "length (fold (\<lambda>i vb. vb[nat i := True]) xs vb) = length vb"
  by (induction xs arbitrary: vb) auto

lemma nth_set_True: "n < length vb \<Longrightarrow> vb[i := True] ! n = (i = n \<or> vb ! n)"
  by (cases "i = n") auto

lemma set_range_nth:
  "n < length vb \<Longrightarrow> \<forall>i \<in> set xs. 0 \<le> i \<Longrightarrow>
   fold (\<lambda>i vb. vb[nat i := True]) xs vb ! n = (vb ! n \<or> int n \<in> set xs)"
  by (induction xs arbitrary: vb) (auto simp: nth_set_True nat_eq_iff)

text \<open>The bytes the elements of the list make valid.\<close>

fun in_ranges :: "string list \<Rightarrow> nat \<Rightarrow> bool" where
  "in_ranges [] n = False"
| "in_ranges (br # brs) n =
     ((case byte_range br of Inl e \<Rightarrow> False | Inr (s, e) \<Rightarrow> s \<le> int n \<and> int n \<le> e) \<or> in_ranges brs n)"

lemma byte_ranges_nth:
  "byte_ranges brs vb = Inr vb' \<Longrightarrow> length vb = 256 \<Longrightarrow>
   length vb' = 256 \<and> (\<forall>n < 256. vb' ! n = (vb ! n \<or> in_ranges brs n))"
proof (induction brs arbitrary: vb)
  case (Cons br brs)
  then obtain s e where se: "byte_range br = Inr (s, e)"
    and rest: "byte_ranges brs (fold (\<lambda>i vb. vb[nat i := True]) [s..e] vb) = Inr vb'"
    by (auto split: sum.splits)
  have "0 \<le> i" if "i \<in> set [s..e]" for i using that byte_range_bounds [OF se] by auto
  then have "fold (\<lambda>i vb. vb[nat i := True]) [s..e] vb ! n = (vb ! n \<or> s \<le> int n \<and> int n \<le> e)" if "n < 256" for n
    using set_range_nth [of n vb "[s..e]"] that Cons.prems by auto
  with Cons.IH [OF rest] Cons.prems se show ?case by auto
qed simp

lemma byte_ranges_defined: "list_all (\<lambda>br. \<not> isl (byte_range br)) brs \<Longrightarrow> \<exists>vb'. byte_ranges brs vb = Inr vb'"
  by (induction brs arbitrary: vb) (auto simp: isl_def split: sum.splits)

lemma newValidateByteRange_exact:
  assumes "newValidateByteRange options = Inr (ValidateByteRange vb)"
  shows "validateByteRange_Evaluate vb value =
    (\<exists>c \<in> set value. \<not> in_ranges (split_byte (opt_Arguments options) CHR '','') (byte c))"
proof -
  have "byte_ranges (split_byte (opt_Arguments options) CHR '','') (replicate 256 False) = Inr vb"
    using assms by (auto simp: newValidateByteRange_def Let_def result_bind_eq_Inr split: if_splits)
  from byte_ranges_nth [OF this] have "vb ! byte c = in_ranges (split_byte (opt_Arguments options) CHR '','') (byte c)" for c
    by simp
  then show ?thesis by (auto simp: validateByteRange_Evaluate_def list_ex_iff)
qed

subsection \<open>URL encoding\<close>

declare validateURLEncodingInternal.simps(2) [simp del]

lemma url_encoding_step:
  "c \<noteq> CHR ''%'' \<Longrightarrow> validateURLEncodingInternal (c # s) = validateURLEncodingInternal s"
  "validateURLEncodingInternal [CHR ''%''] = urlEncodingInvalidTruncated"
  "validateURLEncodingInternal [CHR ''%'', h] = urlEncodingInvalidTruncated"
  "validateURLEncodingInternal (CHR ''%'' # h1 # h2 # s) =
     (if isHexDigit h1 \<and> isHexDigit h2 then validateURLEncodingInternal s else urlEncodingInvalidNonHex)"
  by (simp_all add: validateURLEncodingInternal.simps(2))

lemma not_hex_percent: "isHexDigit h \<Longrightarrow> h \<noteq> CHR ''%''"
  by (auto simp: isHexDigit_def byte_class_defs less_eq_char_def)

text \<open>Every percent sign is followed by two hexadecimal digits.\<close>

definition percent_ok :: "string \<Rightarrow> bool" where
  "percent_ok s = (\<forall>a b. s = a @ CHR ''%'' # b \<longrightarrow> (\<exists>h1 h2 t. b = h1 # h2 # t \<and> isHexDigit h1 \<and> isHexDigit h2))"

lemma percent_ok_Nil [simp]: "percent_ok []"
  by (simp add: percent_ok_def)

lemma percent_ok_Cons:
  "percent_ok (c # s) \<longleftrightarrow>
     (c = CHR ''%'' \<longrightarrow> (\<exists>h1 h2 t. s = h1 # h2 # t \<and> isHexDigit h1 \<and> isHexDigit h2)) \<and> percent_ok s"
  unfolding percent_ok_def by (auto simp: Cons_eq_append_conv)

lemma url_encoding_valid_iff: "validateURLEncodingInternal s = urlEncodingValid \<longleftrightarrow> percent_ok s"
proof (induction s rule: length_induct)
  case (1 s)
  consider "s = []" | c t where "s = c # t" "c \<noteq> CHR ''%''" | "s = [CHR ''%'']" | h where "s = [CHR ''%'', h]"
    | h1 h2 t where "s = CHR ''%'' # h1 # h2 # t"
    by (metis list.exhaust)
  then show ?case
  proof cases
    case (5 h1 h2 t)
    then show ?thesis
      using "1" not_hex_percent [of h1] not_hex_percent [of h2]
      by (auto simp: url_encoding_step percent_ok_Cons)
  qed (use 1 in \<open>auto simp: url_encoding_step percent_ok_Cons\<close>)
qed

subsection \<open>Phrase match\<close>

text \<open>
  ASCII case-insensitive occurrence, and the contract of the matchers: a matcher finds
  something exactly when a phrase occurs.
\<close>

definition occurs_ci :: "string \<Rightarrow> string \<Rightarrow> bool" where
  "occurs_ci p value = contains_str (map lower_byte value) (map lower_byte p)"

definition pm_ok :: "string list \<Rightarrow> pm_operator \<Rightarrow> bool" where
  "pm_ok dict o1 =
     ((\<forall>v. pm_matcher o1 v \<noteq> [] \<longleftrightarrow> (\<exists>p \<in> set dict. occurs_ci p v)) \<and>
      (\<forall>f v. pm_nonCapturing o1 = Some f \<longrightarrow> f v = (\<exists>p \<in> set dict. occurs_ci p v)) \<and>
      pm_minLen o1 = minPatternLen dict)"

lemma occurs_ci_length: "occurs_ci p v \<Longrightarrow> length p \<le> length v"
  by (auto simp: occurs_ci_def contains_str_iff dest: arg_cong [where f = length])

lemma min_pattern_loop_le:
  "p \<in> set ps \<Longrightarrow> min_pattern_loop ps m \<le> length p"
  "0 < m \<Longrightarrow> min_pattern_loop ps m \<le> m"
proof (induction ps arbitrary: m)
  case (Cons q ps)
  {
    case 1
    then show ?case using Cons.IH(1) Cons.IH(2) [of "length q"] Cons.IH(2) [of m]
      by (auto split: if_splits)
  next
    case 2
    then show ?case using Cons.IH(2) [of "length q"] Cons.IH(2) [of m] by (auto intro: le_trans)
  }
qed auto

lemma pm_capture_verdict: "fst (pm_capture ct value n ms tx) \<longleftrightarrow> 0 < n \<or> ms \<noteq> []"
  by (induction ct "value" n ms tx rule: pm_capture.induct) (auto simp: Let_def)

lemma pm_Evaluate_verdict:
  assumes "pm_ok dict o1"
  shows "fst (pm_Evaluate ct o1 tx value) \<longleftrightarrow> (\<exists>p \<in> set dict. occurs_ci p value)"
proof (cases "length value < pm_minLen o1")
  case True
  have "\<not> occurs_ci p value" if "p \<in> set dict" for p
    using True assms min_pattern_loop_le(1) [OF that, of 0] occurs_ci_length [of p "value"]
    by (auto simp: pm_ok_def minPatternLen_def)
  with True show ?thesis by (simp add: pm_Evaluate_def)
next
  case False
  then show ?thesis using assms
    by (auto simp: pm_Evaluate_def pm_ok_def pmEvaluate_def pm_capture_verdict split: option.splits)
qed

subsection \<open>Regular expressions\<close>

text \<open>
  What the shortcuts of a compiled \<open>@rx\<close> promise about the expression itself.
\<close>

definition rx_ok :: "(nat \<Rightarrow> nat) \<Rightarrow> rx_operator \<Rightarrow> bool" where
  "rx_ok ft r =
     (let re = rx_re r in
      (\<forall>v. crx_MatchString re v = (crx_Submatch re v \<noteq> None)) \<and>
      (\<forall>v. crx_MatchString re v \<longrightarrow> rx_minLen r \<le> length v) \<and>
      (\<forall>f v. rx_stateFilter r = Some f \<and> crx_MatchString re v \<longrightarrow> f v) \<and>
      (\<forall>f v. rx_prefilter r = Some f \<and> crx_MatchString re v \<longrightarrow> f v) \<and>
      (\<forall>v. rx_exactMatch r \<noteq> [] \<and> CHR 10 \<notin> set v \<longrightarrow>
         crx_MatchString re v = (if rx_exactMatchCI r then equal_fold ft v (rx_exactMatch r) else v = rx_exactMatch r)) \<and>
      (\<forall>a v. rx_accelerated r = Some a \<and> list_all is_ascii v \<longrightarrow>
         crx_MatchString a v = crx_MatchString re v \<and> crx_Submatch a v = crx_Submatch re v))"

lemma run_rx_no_match: "\<not> crx_MatchString re v \<Longrightarrow> crx_Submatch re v = None \<Longrightarrow> run_rx ct re tx v = (False, tx)"
  by (simp add: run_rx_def captureRXMatch_def)

lemma rx_okD:
  assumes "rx_ok ft r"
  shows "crx_MatchString (rx_re r) v = (crx_Submatch (rx_re r) v \<noteq> None)"
    and "crx_MatchString (rx_re r) v \<Longrightarrow> rx_minLen r \<le> length v"
    and "rx_stateFilter r = Some f \<Longrightarrow> crx_MatchString (rx_re r) v \<Longrightarrow> f v"
    and "rx_prefilter r = Some f \<Longrightarrow> crx_MatchString (rx_re r) v \<Longrightarrow> f v"
    and "rx_exactMatch r \<noteq> [] \<Longrightarrow> CHR 10 \<notin> set v \<Longrightarrow>
      crx_MatchString (rx_re r) v = (if rx_exactMatchCI r then equal_fold ft v (rx_exactMatch r) else v = rx_exactMatch r)"
    and "rx_accelerated r = Some a \<Longrightarrow> list_all is_ascii v \<Longrightarrow>
      crx_MatchString a v = crx_MatchString (rx_re r) v \<and> crx_Submatch a v = crx_Submatch (rx_re r) v"
  using assms unfolding rx_ok_def Let_def by blast+

text \<open>The verdict of the filters, and the expression that runs when they let the value pass.\<close>

definition rx_filtered :: "rx_operator \<Rightarrow> string \<Rightarrow> bool" where
  "rx_filtered r v =
     (case rx_stateFilter r of
        Some f \<Rightarrow> \<not> f v
      | None \<Rightarrow> (case rx_prefilter r of Some f \<Rightarrow> \<not> f v | None \<Rightarrow> False))"

lemma rx_filtered_no_match: "rx_ok ft r \<Longrightarrow> rx_filtered r v \<Longrightarrow> \<not> crx_MatchString (rx_re r) v"
  using rx_okD(3,4) [of ft r] by (auto simp: rx_filtered_def split: option.splits)

lemma rx_accelerated_run:
  "rx_ok ft r \<Longrightarrow> rx_accelerated r = Some a \<Longrightarrow> list_all is_ascii v \<Longrightarrow> run_rx ct a tx v = run_rx ct (rx_re r) tx v"
  using rx_okD(6) [of ft r a v] by (simp add: run_rx_def)

lemma rx_Evaluate_run:
  assumes "rx_ok ft r"
  shows "rx_Evaluate ct ft r tx v = run_rx ct (rx_re r) tx v"
proof -
  have nm: "run_rx ct (rx_re r) tx v = (False, tx)" if "\<not> crx_MatchString (rx_re r) v"
    using that rx_okD(1) [OF assms, of v] run_rx_no_match [of "rx_re r" v] by simp
  consider "length v < rx_minLen r"
    | "\<not> length v < rx_minLen r" "rx_exactMatch r \<noteq> [] \<and> \<not> tx_Capture tx \<and> CHR 10 \<notin> set v"
    | "\<not> length v < rx_minLen r" "\<not> (rx_exactMatch r \<noteq> [] \<and> \<not> tx_Capture tx \<and> CHR 10 \<notin> set v)" "rx_filtered r v"
    | "\<not> length v < rx_minLen r" "\<not> (rx_exactMatch r \<noteq> [] \<and> \<not> tx_Capture tx \<and> CHR 10 \<notin> set v)" "\<not> rx_filtered r v"
    by blast
  then show ?thesis
  proof cases
    case 1
    then show ?thesis using nm rx_okD(2) [OF assms, of v] by (fastforce simp: rx_Evaluate_def)
  next
    case 2
    then show ?thesis using rx_okD(5) [OF assms, of v] by (simp add: rx_Evaluate_def run_rx_def)
  next
    case 3
    then show ?thesis
      using nm rx_filtered_no_match [OF assms] unfolding rx_Evaluate_def rx_filtered_def [symmetric] by auto
  next
    case 4
    then show ?thesis
      unfolding rx_Evaluate_def rx_filtered_def [symmetric]
      using rx_accelerated_run [OF assms] by (auto split: option.split)
  qed
qed

subsection \<open>National IDs\<close>

text \<open>The check digit of a Chilean RUT.\<close>

definition check_digit :: "nat \<Rightarrow> char" where
  "check_digit rut =
     (let val = nid_sum rut 0 2 mod 11
      in if val = 0 then CHR ''0'' else if val = 1 then CHR ''k'' else to_byte (48 + (11 - val)))"

lemma itoa_single: "2 \<le> v \<Longrightarrow> v < 11 \<Longrightarrow> itoa (11 - int v) = [to_byte (48 + (11 - v))]"
proof -
  assume "2 \<le> v" "v < 11"
  then have eq: "11 - int v = int (11 - v)" and "11 - v < 10" by auto
  then show ?thesis unfolding eq by (simp add: itoa_def itoa_nat.simps)
qed

lemma lower_digits: "list_all is_digit s \<Longrightarrow> to_lower ct s = s"
proof -
  assume d: "list_all is_digit s"
  then have "list_all is_ascii s" by (auto simp: list_all_iff is_ascii_def byte_is_digit)
  moreover have "map lower_byte s = s"
    using d by (intro map_idI) (auto simp: list_all_iff lower_byte_def byte_is_upper byte_is_digit)
  ultimately show ?thesis by (simp add: to_lower_ascii)
qed

lemma nidCl_check_digit:
  assumes "7 \<le> length (itoa_nat rut)" "int rut \<le> max_int64" "is_digit d \<or> d = CHR ''k''"
  shows "nidCl ct (itoa_nat rut @ [d]) = Some (d = check_digit rut)"
proof -
  let ?s = "itoa_nat rut @ [d]"
  have kd: "\<not> is_upper CHR ''k''" "is_ascii CHR ''k''"
    by (simp_all add: byte_class_defs is_ascii_def)
  have "list_all is_ascii ?s"
    using itoa_nat_digits [of rut] assms(3) kd by (auto simp: list_all_iff is_ascii_def byte_is_digit)
  moreover have "map lower_byte ?s = ?s"
    using itoa_nat_digits [of rut] assms(3) kd
    by (intro map_idI) (auto simp: list_all_iff lower_byte_def byte_is_upper byte_is_digit)
  ultimately have low: "to_lower ct ?s = ?s" by (simp add: to_lower_ascii)
  have fil: "filter (\<lambda>c. is_digit c \<or> c = CHR ''k'') ?s = ?s"
    using itoa_nat_digits [of rut] assms(3) by (auto simp: list_all_iff filter_id_conv)
  have "atoi (itoa (int rut)) = (int rut, False)"
    by (rule atoi_itoa) (use assms(2) in \<open>simp_all add: min_int64_def\<close>)
  then have at: "fst (atoi (itoa_nat rut)) = int rut" by (simp add: itoa_def)
  have v: "nid_sum rut 0 2 mod 11 < 11" by simp
  have len: "\<not> length ?s < 8" using assms(1) by simp
  have "nidCl ct ?s = Some ((if nid_sum rut 0 2 mod 11 = 0 then ''0'' else if nid_sum rut 0 2 mod 11 = 1 then ''k''
      else itoa (11 - int (nid_sum rut 0 2 mod 11))) = [d])"
    using len by (simp only: nidCl_def low fil Let_def if_False) (simp add: at)
  then show ?thesis
    using itoa_single [of "nid_sum rut 0 2 mod 11"] v
    by (auto simp: check_digit_def Let_def)
qed

lemma nidCl_panics:
  assumes "8 \<le> length nid" "list_all (\<lambda>c. \<not> is_digit c \<and> c \<noteq> CHR ''k'') (to_lower ct nid)"
  shows "nidCl ct nid = None"
proof -
  have "filter (\<lambda>c. is_digit c \<or> c = CHR ''k'') (to_lower ct nid) = []"
    using assms(2) by (auto simp: list_all_iff filter_empty_conv)
  then show ?thesis using assms(1) by (simp add: nidCl_def Let_def)
qed

subsection \<open>Properties\<close>



text \<open>A matcher of one phrase for the witness.\<close>

definition sample_pm :: pm_operator where
  "sample_pm =
     \<lparr>pm_matcher = (\<lambda>v. if occurs_ci ''evil'' v then [(0, 4)] else []), pm_nonCapturing = Some (occurs_ci ''evil''),
      pm_minLen = 4\<rparr>"

lemma sample_pm_ok: "pm_ok [''evil''] sample_pm"
  by (simp add: sample_pm_def pm_ok_def minPatternLen_def)



text \<open>
  C38: The validators decide what they document. A compiled \<open>@validateByteRange\<close> matches a value
  exactly when it has a byte outside the listed ranges, and \<open>@validateUrlEncoding\<close> matches exactly
  when some percent sign is not followed by two hexadecimal digits.
\<close>

theorem validators_exact:
  "(newValidateByteRange options = Inr (ValidateByteRange vb) \<longrightarrow>
     validateByteRange_Evaluate vb value =
       (\<exists>c \<in> set value. \<not> in_ranges (split_byte (opt_Arguments options) CHR '','') (byte c))) \<and>
   validateURLEncoding_Evaluate value = (\<not> percent_ok value)"
  using newValidateByteRange_exact [of options vb "value"]
  by (auto simp: validateURLEncoding_Evaluate_def url_encoding_valid_iff)

theorem validators_exact_witness:
  "(\<exists>vb. newValidateByteRange \<lparr>opt_Arguments = ''65,97-98'', opt_Path = [], opt_Datasets = [], opt_RxPreFilterEnabled = False\<rparr>
        = Inr (ValidateByteRange vb) \<and> validateByteRange_Evaluate vb ''aA%'') \<and>
   validateURLEncoding_Evaluate ''%4x'' = (\<not> percent_ok ''%4x'')"
proof -
  let ?o = "\<lparr>opt_Arguments = ''65,97-98'', opt_Path = [], opt_Datasets = [], opt_RxPreFilterEnabled = False\<rparr>"
  let ?brs = "split_byte ''65,97-98'' CHR '',''"
  have "list_all (\<lambda>br. \<not> isl (byte_range br)) ?brs" by code_simp
  then obtain vb where br: "byte_ranges ?brs (replicate 256 False) = Inr vb"
    by (rule exE [OF byte_ranges_defined])
  have nv: "newValidateByteRange ?o = Inr (ValidateByteRange vb)"
    unfolding newValidateByteRange_def Let_def OperatorOptions.simps br result_bind_simps
    by (simp only: list.distinct if_False)
  have "\<not> in_ranges ?brs (byte CHR ''%'')" by code_simp
  then have "\<not> in_ranges (split_byte (opt_Arguments ?o) CHR '','') (byte CHR ''%'')"
    unfolding OperatorOptions.simps .
  then have "\<exists>c \<in> set ''aA%''. \<not> in_ranges (split_byte (opt_Arguments ?o) CHR '','') (byte c)"
    by (rule bexI [where x = "CHR ''%''"]) simp
  then have "validateByteRange_Evaluate vb ''aA%''"
    by (subst mp [OF conjunct1 [OF validators_exact [of ?o vb "''aA%''"]] nv])
  then show ?thesis
    using nv conjunct2 [OF validators_exact [of ?o vb "''%4x''"]] by (intro conjI exI [where x = vb])
qed

text \<open>
  \<open>@validateNid cl\<close> decides the check digit, and panics on a match without digits. A Chilean
  number whose body is the decimal \<open>rut\<close> is accepted exactly with the check digit of that body;
  a match of eight or more bytes with neither a digit nor a \<open>k\<close> indexes an empty string.
\<close>

theorem nidCl_check_digit_and_panic:
  "(7 \<le> length (itoa_nat rut) \<and> int rut \<le> max_int64 \<and> (is_digit d \<or> d = CHR ''k'') \<longrightarrow>
      nidCl ct (itoa_nat rut @ [d]) = Some (d = check_digit rut)) \<and>
   (8 \<le> length nid \<and> list_all (\<lambda>c. \<not> is_digit c \<and> c \<noteq> CHR ''k'') (to_lower ct nid) \<longrightarrow> nidCl ct nid = None)"
  using nidCl_check_digit nidCl_panics by blast

theorem nidCl_check_digit_and_panic_witness:
  "nidCl (\<lambda>r. r) (itoa_nat 12345678 @ ''5'') = Some (CHR ''5'' = check_digit 12345678) \<and>
   nidCl (\<lambda>r. r) ''--------'' = None"
proof -
  have "7 \<le> length (itoa_nat 12345678)" by (simp add: itoa_nat.simps)
  moreover have "list_all (\<lambda>c. \<not> is_digit c \<and> c \<noteq> CHR ''k'') (to_lower (\<lambda>r. r) ''--------'')" by code_simp
  ultimately show ?thesis
    using nidCl_check_digit_and_panic [of 12345678 "CHR ''5''" "\<lambda>r. r" "''--------''"]
    by (simp add: max_int64_def byte_class_defs less_eq_char_def)
qed

end
