(* ===== verification/Rule.thy ===== *)
theory Rule
  imports Operators
begin

text \<open>
  The rule of \<open>internal/corazawaf/rule.go\<close>: its actions, operator, variables and
  transformations, the operations the parser builds it with, and the group of rules of
  \<open>rulegroup.go\<close> with its additions and deletions. An action is a value of one datatype whose
  constructors are the structs of \<open>internal/actions\<close>; a rule is a record of parameters with
  the optional rule it is chained to. What a rule does at run time is in \<open>Rule_Eval\<close>.
\<close>

section \<open>Actions\<close>

datatype ctlFunctionType =
    ctlUnknown | ctlRuleRemoveTargetByID | ctlRuleRemoveTargetByTag | ctlRuleRemoveTargetByMsg
  | ctlAuditEngine | ctlAuditLogParts | ctlForceRequestBodyVariable | ctlRequestBodyAccess
  | ctlRequestBodyLimit | ctlRuleEngine | ctlRuleRemoveByID | ctlRuleRemoveByMsg | ctlRuleRemoveByTag
  | ctlHashEngine | ctlHashEnforcement | ctlRequestBodyProcessor | ctlForceResponseBodyVariable
  | ctlResponseBodyProcessor | ctlResponseBodyAccess | ctlResponseBodyLimit | ctlDebugLogLevel

record ctl_params =
  ctl_action :: ctlFunctionType
  ctl_value :: string
  ctl_collection :: rule_variable
  ctl_colKey :: string
  ctl_colKeyRx :: "regex option"

text \<open>The macros of \<open>setvar\<close> are interfaces: \<open>None\<close> is the nil they are before \<open>Init\<close> sets them.\<close>

record setvar_params =
  sv_key :: "macro option"
  sv_value :: "macro option"
  sv_collection :: rule_variable
  sv_isRemove :: bool

datatype action =
    accuracyFn | allowFn allow_type | auditlogFn | blockFn | captureFn | chainFn | ctlFn ctl_params
  | denyFn | dropFn | execFn | expirevarFn | idFn | initcolFn string string | logFn | logdataFn
  | maturityFn | msgFn | multimatchFn | noauditlogFn | nologFn | passFn | phaseFn | redirectFn string
  | revFn | setenvFn string "macro option" | setvarFn setvar_params | severityFn | skipFn int
  | skipafterFn string | statusFn | tFn | tagFn | verFn

datatype action_type =
    ActionTypeMetadata | ActionTypeDisruptive | ActionTypeData | ActionTypeNondisruptive | ActionTypeFlow

fun action_Type :: "action \<Rightarrow> action_type" where
  "action_Type accuracyFn = ActionTypeMetadata"
| "action_Type (allowFn a) = ActionTypeDisruptive"
| "action_Type auditlogFn = ActionTypeNondisruptive"
| "action_Type blockFn = ActionTypeDisruptive"
| "action_Type captureFn = ActionTypeNondisruptive"
| "action_Type chainFn = ActionTypeFlow"
| "action_Type (ctlFn c) = ActionTypeNondisruptive"
| "action_Type denyFn = ActionTypeDisruptive"
| "action_Type dropFn = ActionTypeDisruptive"
| "action_Type execFn = ActionTypeNondisruptive"
| "action_Type expirevarFn = ActionTypeNondisruptive"
| "action_Type idFn = ActionTypeMetadata"
| "action_Type (initcolFn c k) = ActionTypeNondisruptive"
| "action_Type logFn = ActionTypeNondisruptive"
| "action_Type logdataFn = ActionTypeNondisruptive"
| "action_Type maturityFn = ActionTypeMetadata"
| "action_Type msgFn = ActionTypeMetadata"
| "action_Type multimatchFn = ActionTypeNondisruptive"
| "action_Type noauditlogFn = ActionTypeNondisruptive"
| "action_Type nologFn = ActionTypeNondisruptive"
| "action_Type passFn = ActionTypeDisruptive"
| "action_Type phaseFn = ActionTypeMetadata"
| "action_Type (redirectFn t) = ActionTypeDisruptive"
| "action_Type revFn = ActionTypeMetadata"
| "action_Type (setenvFn k v) = ActionTypeNondisruptive"
| "action_Type (setvarFn s) = ActionTypeNondisruptive"
| "action_Type severityFn = ActionTypeMetadata"
| "action_Type (skipFn n) = ActionTypeFlow"
| "action_Type (skipafterFn m) = ActionTypeFlow"
| "action_Type statusFn = ActionTypeData"
| "action_Type tFn = ActionTypeNondisruptive"
| "action_Type tagFn = ActionTypeMetadata"
| "action_Type verFn = ActionTypeMetadata"

section \<open>The rule\<close>

record ruleOperatorParams =
  rop_Operator :: operator
  rop_Function :: string
  rop_Data :: string
  rop_Negation :: bool

text \<open>
  Not represented: the memoizer, which only shares compiled expressions, and the phases
  inferred for the multiphase build.
\<close>

record rule_params = rule_transformations +
  r_metadata :: rule_metadata
  r_variables :: "ruleVariableParams list"
  r_operator :: "ruleOperatorParams option"
  r_actions :: "(string \<times> action) list"
  r_Capture :: bool
  r_DisruptiveStatus :: int
  r_Msg :: "macro option"
  r_LogData :: "macro option"
  r_Log :: bool
  r_Audit :: bool
  r_MultiMatch :: bool
  r_HasChain :: bool

datatype rule = Rule (rule_of: rule_params) (chain_of: "rule option")

abbreviation r_ID :: "rule_params \<Rightarrow> int" where
  "r_ID r \<equiv> rm_ID (r_metadata r)"

abbreviation r_ParentID :: "rule_params \<Rightarrow> int" where
  "r_ParentID r \<equiv> rm_ParentID (r_metadata r)"

abbreviation r_Phase :: "rule_params \<Rightarrow> rule_phase" where
  "r_Phase r \<equiv> rm_Phase (r_metadata r)"

definition noID :: int where "noID = 0"

definition NewRule :: rule_params where
  "NewRule =
     \<lparr>transformations = [], transformationsID = 0, transformationPrefixIDs = [],
      r_metadata =
        \<lparr>rm_ID = 0, rm_LogID = [], rm_File = [], rm_Line = 0, rm_Rev = [], rm_Severity = RuleSeverityUnset,
         rm_Version = [], rm_Tags = [], rm_Maturity = 0, rm_Accuracy = 0, rm_Operator = [],
         rm_Phase = PhaseRequestBody, rm_Raw = [], rm_SecMark = [], rm_ParentID = 0\<rparr>,
      r_variables = [], r_operator = None, r_actions = [], r_Capture = False, r_DisruptiveStatus = 0,
      r_Msg = None, r_LogData = None, r_Log = False, r_Audit = False, r_MultiMatch = False, r_HasChain = False\<rparr>"

definition AddAction :: "rule_params \<Rightarrow> string \<Rightarrow> action \<Rightarrow> rule_params" where
  "AddAction r name action = r\<lparr>r_actions := r_actions r @ [(name, action)]\<rparr>"

definition ClearDisruptiveActions :: "rule_params \<Rightarrow> rule_params" where
  "ClearDisruptiveActions r =
     r\<lparr>r_actions := filter (\<lambda>a. action_Type (snd a) \<noteq> ActionTypeDisruptive) (r_actions r)\<rparr>"

definition caseSensitiveVariable :: "rule_variable \<Rightarrow> bool" where
  "caseSensitiveVariable v =
     (v = V_Args \<or> v = V_ArgsNames \<or> v = V_ArgsGet \<or> v = V_ArgsPost \<or> v = V_ArgsGetNames \<or> v = V_ArgsPostNames)"

definition newRuleVariableParams :: "case_table \<Rightarrow> rule_variable \<Rightarrow> string \<Rightarrow> regex option \<Rightarrow> bool \<Rightarrow> ruleVariableParams" where
  "newRuleVariableParams ct v key re iscount =
     \<lparr>rvp_Count = iscount, rvp_Variable = v, rvp_KeyRx = re,
      rvp_KeyStr = (if caseSensitiveVariable v then key else to_lower ct key), rvp_Exceptions = []\<rparr>"

text \<open>The expression between slashes of a selector, lower-cased for case-insensitive collections.\<close>

definition selector_regex :: "case_table \<Rightarrow> (string \<Rightarrow> regex result) \<Rightarrow> rule_variable \<Rightarrow> string \<Rightarrow> regex option result" where
  "selector_regex ct compile v key =
     (case HasRegex key of (isRegex, rx) \<Rightarrow>
        if isRegex then
          result_bind (compile (if caseSensitiveVariable v then rx else to_lower ct rx)) (\<lambda>re. Inr (Some re))
        else Inr None)"

definition AddVariable :: "case_table \<Rightarrow> (string \<Rightarrow> regex result) \<Rightarrow> rule_params \<Rightarrow> rule_variable \<Rightarrow> string \<Rightarrow> bool \<Rightarrow> rule_params result" where
  "AddVariable ct compile r v key iscount =
     result_bind (selector_regex ct compile v key) (\<lambda>re.
       let add = (\<lambda>v r. r\<lparr>r_variables := r_variables r @ [newRuleVariableParams ct v key re iscount]\<rparr>)
       in if multiphaseEvaluation \<and> v = V_Args then Inr (add V_ArgsPost (add V_ArgsGet r))
          else if multiphaseEvaluation \<and> v = V_ArgsNames then Inr (add V_ArgsPostNames (add V_ArgsGetNames r))
          else Inr (add v r))"

definition needToSplitConcatenatedVariable :: "rule_variable \<Rightarrow> rule_variable \<Rightarrow> bool" where
  "needToSplitConcatenatedVariable v ve =
     ((v = V_Args \<or> v = V_ArgsNames) \<and>
      (ve = V_ArgsGet \<or> ve = V_ArgsPost \<or> ve = V_ArgsGetNames \<or> ve = V_ArgsPostNames))"

definition AddVariableNegation :: "case_table \<Rightarrow> (string \<Rightarrow> regex result) \<Rightarrow> rule_params \<Rightarrow> rule_variable \<Rightarrow> string \<Rightarrow> rule_params result" where
  "AddVariableNegation ct compile r v key =
     result_bind (selector_regex ct compile v key) (\<lambda>re.
       Inr (r\<lparr>r_variables :=
         map (\<lambda>rv. if (multiphaseEvaluation \<and> needToSplitConcatenatedVariable v (rvp_Variable rv)) \<or> rvp_Variable rv = v
                    then rv\<lparr>rvp_Exceptions := rvp_Exceptions rv @ [\<lparr>rve_KeyStr = key, rve_KeyRx = re\<rparr>]\<rparr>
                    else rv) (r_variables r)\<rparr>))"

definition SetOperator :: "rule_params \<Rightarrow> operator \<Rightarrow> string \<Rightarrow> string \<Rightarrow> rule_params" where
  "SetOperator r op functionName params =
     r\<lparr>r_operator := Some
        \<lparr>rop_Operator = op, rop_Function = functionName, rop_Data = params,
         rop_Negation = (functionName \<noteq> [] \<and> hd functionName = CHR ''!'')\<rparr>\<rparr>"

section \<open>Rule groups\<close>

definition FindByID :: "rule list \<Rightarrow> int \<Rightarrow> rule option" where
  "FindByID rules i = find (\<lambda>r. r_ID (rule_of r) = i) rules"

text \<open>Build option \<open>coraza.rule.mandatory_rule_id_check\<close>, off by default.\<close>

definition shouldDoMandatoryRuleIdCheck :: bool where
  "shouldDoMandatoryRuleIdCheck = False"

definition RuleGroup_Add :: "rule list \<Rightarrow> rule option \<Rightarrow> rule list result" where
  "RuleGroup_Add rules rule =
     (case rule of
        None \<Rightarrow> Inr rules
      | Some r \<Rightarrow>
          let i = r_ID (rule_of r)
          in if shouldDoMandatoryRuleIdCheck \<and> rm_SecMark (r_metadata (rule_of r)) = [] \<and> i = 0 then
               Inl (Error ''rule id is missing'')
             else if shouldDoMandatoryRuleIdCheck \<and> rm_SecMark (r_metadata (rule_of r)) = [] \<and> FindByID rules i \<noteq> None then
               Inl (Error (''duplicated rule id '' @ itoa i))
             else if \<not> shouldDoMandatoryRuleIdCheck \<and> i \<noteq> 0 \<and> FindByID rules i \<noteq> None then
               Inl (Error (''duplicated rule id '' @ itoa i))
             else Inr (rules @ [r]))"

definition DiscardPendingChain :: "rule list \<Rightarrow> rule list" where
  "DiscardPendingChain rules =
     (if rules \<noteq> [] \<and> r_HasChain (rule_of (last rules)) then butlast rules else rules)"

fun DeleteByID :: "rule list \<Rightarrow> int \<Rightarrow> rule list" where
  "DeleteByID [] i = []"
| "DeleteByID (r # rules) i = (if r_ID (rule_of r) = i then rules else r # DeleteByID rules i)"

definition DeleteByRange :: "rule list \<Rightarrow> int \<Rightarrow> int \<Rightarrow> rule list" where
  "DeleteByRange rules start stop = filter (\<lambda>r. r_ID (rule_of r) < start \<or> stop < r_ID (rule_of r)) rules"

text \<open>\<open>r.Msg.String()\<close> on a rule without a message is a call on a nil interface: a panic.\<close>

fun DeleteByMsg :: "rule list \<Rightarrow> string \<Rightarrow> rule list option" where
  "DeleteByMsg [] msg = Some []"
| "DeleteByMsg (r # rules) msg =
     (case r_Msg (rule_of r) of
        None \<Rightarrow> None
      | Some m \<Rightarrow>
          map_option (\<lambda>kept. if macro_String m \<noteq> msg then r # kept else kept) (DeleteByMsg rules msg))"

definition DeleteByTag :: "rule list \<Rightarrow> string \<Rightarrow> rule list" where
  "DeleteByTag rules tag = filter (\<lambda>r. \<not> InSlice tag (rm_Tags (r_metadata (rule_of r)))) rules"

definition RuleGroup_Count :: "rule list \<Rightarrow> nat" where
  "RuleGroup_Count rules = length rules"

text \<open>The WAF: its configuration and its rules.\<close>

record waf = waf_config +
  waf_Rules :: "rule list"

section \<open>Identifiers\<close>

text \<open>The identifiers that are set are distinct.\<close>

definition ids_distinct :: "rule list \<Rightarrow> bool" where
  "ids_distinct rules = distinct (filter (\<lambda>i. i \<noteq> 0) (map (\<lambda>r. r_ID (rule_of r)) rules))"

lemma FindByID_None: "FindByID rules i = None \<longleftrightarrow> i \<notin> (\<lambda>r. r_ID (rule_of r)) ` set rules"
  by (auto simp: FindByID_def find_None_iff)

lemma ids_distinct_Nil [simp]: "ids_distinct []"
  by (simp add: ids_distinct_def)

lemma ids_distinct_Cons:
  "ids_distinct (r # rules) \<longleftrightarrow>
     (r_ID (rule_of r) \<noteq> 0 \<longrightarrow> r_ID (rule_of r) \<notin> (\<lambda>r. r_ID (rule_of r)) ` set rules) \<and> ids_distinct rules"
  by (auto simp: ids_distinct_def)

lemma ids_distinct_filter: "ids_distinct rules \<Longrightarrow> ids_distinct (filter p rules)"
  by (induction rules) (auto simp: ids_distinct_Cons)

lemma ids_distinct_append1:
  "ids_distinct (rules @ [r]) \<longleftrightarrow>
     ids_distinct rules \<and> (r_ID (rule_of r) \<noteq> 0 \<longrightarrow> r_ID (rule_of r) \<notin> (\<lambda>r. r_ID (rule_of r)) ` set rules)"
  by (auto simp: ids_distinct_def)

lemma RuleGroup_Add_ids: "ids_distinct rules \<Longrightarrow> RuleGroup_Add rules ro = Inr rules' \<Longrightarrow> ids_distinct rules'"
  by (auto simp: RuleGroup_Add_def Let_def ids_distinct_append1 FindByID_None shouldDoMandatoryRuleIdCheck_def
      split: option.splits if_splits)

lemma DeleteByID_filter:
  "ids_distinct rules \<Longrightarrow> i \<noteq> 0 \<Longrightarrow> DeleteByID rules i = filter (\<lambda>r. r_ID (rule_of r) \<noteq> i) rules"
proof (induction rules)
  case (Cons r rules)
  then show ?case
    by (cases "r_ID (rule_of r) = i") (auto simp: ids_distinct_Cons image_iff intro!: filter_True [symmetric])
qed simp

lemma DeleteByID_ids: "ids_distinct rules \<Longrightarrow> ids_distinct (DeleteByID rules i)"
proof (induction rules)
  case (Cons r rules)
  have "set (DeleteByID rules i) \<subseteq> set rules" by (induction rules) auto
  with Cons show ?case by (auto simp: ids_distinct_Cons)
qed simp

lemma DeleteByMsg_filter:
  "DeleteByMsg rules msg = Some rules' \<Longrightarrow>
     rules' = filter (\<lambda>r. map_option macro_String (r_Msg (rule_of r)) \<noteq> Some msg) rules"
  by (induction rules arbitrary: rules') (auto split: option.splits)

lemma DeleteByMsg_defined: "DeleteByMsg rules msg \<noteq> None \<longleftrightarrow> list_all (\<lambda>r. r_Msg (rule_of r) \<noteq> None) rules"
  by (induction rules) (auto split: option.splits)

lemma ids_distinct_butlast: "ids_distinct rules \<Longrightarrow> ids_distinct (butlast rules)"
  by (induction rules rule: rev_induct) (auto simp: ids_distinct_append1)

lemma DiscardPendingChain_ids: "ids_distinct rules \<Longrightarrow> ids_distinct (DiscardPendingChain rules)"
  by (simp add: DiscardPendingChain_def ids_distinct_butlast)

text \<open>
  Rule identifiers stay unique. Every operation that changes a rule group keeps the set
  identifiers distinct; an addition is refused exactly when its identifier is set and taken, and
  deletion by identifier removes every rule that bears it.
\<close>

theorem rule_ids_unique:
  assumes "ids_distinct rules"
  shows "(\<forall>ro rules'. RuleGroup_Add rules ro = Inr rules' \<longrightarrow> ids_distinct rules') \<and>
    (\<forall>i. ids_distinct (DeleteByID rules i)) \<and>
    (\<forall>s e. ids_distinct (DeleteByRange rules s e)) \<and>
    (\<forall>t. ids_distinct (DeleteByTag rules t)) \<and>
    (\<forall>m rules'. DeleteByMsg rules m = Some rules' \<longrightarrow> ids_distinct rules') \<and>
    ids_distinct (DiscardPendingChain rules) \<and>
    (\<forall>r. isl (RuleGroup_Add rules (Some r)) = (r_ID (rule_of r) \<noteq> 0 \<and> FindByID rules (r_ID (rule_of r)) \<noteq> None)) \<and>
    (\<forall>i. i \<noteq> 0 \<longrightarrow> FindByID (DeleteByID rules i) i = None)"
  using assms RuleGroup_Add_ids [OF assms] DeleteByID_ids DiscardPendingChain_ids
  by (auto simp: DeleteByRange_def DeleteByTag_def ids_distinct_filter DeleteByID_filter FindByID_None
      RuleGroup_Add_def Let_def shouldDoMandatoryRuleIdCheck_def dest!: DeleteByMsg_filter)

theorem rule_ids_unique_witness:
  "ids_distinct (DeleteByID [Rule (NewRule\<lparr>r_metadata := (r_metadata NewRule)\<lparr>rm_ID := 7\<rparr>\<rparr>) None, Rule NewRule None] 7)"
  using rule_ids_unique [of "[Rule (NewRule\<lparr>r_metadata := (r_metadata NewRule)\<lparr>rm_ID := 7\<rparr>\<rparr>) None, Rule NewRule None]"]
  by (auto simp: ids_distinct_Cons NewRule_def)

text \<open>
  \<open>SecRuleRemoveByMsg\<close> needs every rule to have a message. The deletion by message returns
  exactly when no rule of the group lacks one, and then removes the rules with that message;
  a group with a marker or an action without a message makes it panic.
\<close>

theorem DeleteByMsg_panics:
  "(DeleteByMsg rules msg = None) = (\<exists>r \<in> set rules. r_Msg (rule_of r) = None) \<and>
   (DeleteByMsg rules msg = Some rules' \<longrightarrow>
      rules' = filter (\<lambda>r. map_option macro_String (r_Msg (rule_of r)) \<noteq> Some msg) rules)"
  using DeleteByMsg_defined [of rules msg] DeleteByMsg_filter [of rules msg rules'] by (auto simp: list_all_iff)

theorem DeleteByMsg_panics_witness:
  "DeleteByMsg [Rule NewRule None] ''attack'' = None \<and>
   (\<exists>r \<in> set [Rule NewRule None]. r_Msg (rule_of r) = None)"
  using DeleteByMsg_panics [of "[Rule NewRule None]" "''attack''" "[]"] by (simp add: NewRule_def)

end
