(* ===== verification/Actions.thy ===== *)
theory Actions
  imports Rule
begin

text \<open>
  The actions of \<open>internal/actions\<close>: for each of them \<open>Init\<close>, which reads the parameter and
  configures the rule, and \<open>Evaluate\<close>, which acts on the transaction. \<open>Get\<close> returns the zero
  value of an action. Initialisation may fail; evaluation may panic, which is \<open>None\<close>. The texts
  of errors name their cause and leave out quoted input.
\<close>

section \<open>Registry\<close>

definition zero_ctl :: ctl_params where
  "zero_ctl = \<lparr>ctl_action = ctlUnknown, ctl_value = [], ctl_collection = V_Unknown, ctl_colKey = [], ctl_colKeyRx = None\<rparr>"

definition zero_setvar :: setvar_params where
  "zero_setvar = \<lparr>sv_key = None, sv_value = None, sv_collection = V_Unknown, sv_isRemove = False\<rparr>"

definition actionmap :: "(string \<times> action) list" where
  "actionmap =
     [(''accuracy'', accuracyFn), (''allow'', allowFn AllowTypeUnset), (''auditlog'', auditlogFn), (''block'', blockFn),
      (''capture'', captureFn), (''chain'', chainFn), (''ctl'', ctlFn zero_ctl), (''deny'', denyFn), (''drop'', dropFn),
      (''exec'', execFn), (''expirevar'', expirevarFn), (''id'', idFn), (''initcol'', initcolFn [] []), (''log'', logFn),
      (''logdata'', logdataFn), (''maturity'', maturityFn), (''msg'', msgFn), (''multimatch'', multimatchFn),
      (''noauditlog'', noauditlogFn), (''nolog'', nologFn), (''pass'', passFn), (''phase'', phaseFn),
      (''redirect'', redirectFn []), (''rev'', revFn), (''setenv'', setenvFn [] None), (''setvar'', setvarFn zero_setvar),
      (''severity'', severityFn), (''skip'', skipFn 0), (''skipafter'', skipafterFn []), (''status'', statusFn),
      (''t'', tFn), (''tag'', tagFn), (''ver'', verFn)]"

definition actions_Get :: "case_table \<Rightarrow> string \<Rightarrow> action result" where
  "actions_Get ct name =
     (case alist_get actionmap (to_lower ct name) of
        Some a \<Rightarrow> Inr a
      | None \<Rightarrow> Inl (Error ''invalid action''))"

definition ErrUnexpectedArguments :: error where "ErrUnexpectedArguments = Error ''unexpected arguments''"
definition ErrMissingArguments :: error where "ErrMissingArguments = Error ''missing arguments''"
definition ErrInvalidKVArguments :: error where
  "ErrInvalidKVArguments = Error ''invalid arguments, expected syntax {action}:{key}={value}''"

section \<open>Init\<close>

text \<open>
  Most actions accept no argument, or require one. \<open>meta\<close> changes the metadata of a rule.
\<close>

type_synonym init = "rule_params \<Rightarrow> string \<Rightarrow> (rule_params \<times> action) result"

definition no_args :: "string \<Rightarrow> (rule_params \<times> action) \<Rightarrow> (rule_params \<times> action) result" where
  "no_args data r = (if data \<noteq> [] then Inl ErrUnexpectedArguments else Inr r)"

definition need_args :: "string \<Rightarrow> (rule_params \<times> action) result \<Rightarrow> (rule_params \<times> action) result" where
  "need_args data r = (if data = [] then Inl ErrMissingArguments else r)"

definition meta :: "(rule_metadata \<Rightarrow> rule_metadata) \<Rightarrow> rule_params \<Rightarrow> rule_params" where
  "meta f r = r\<lparr>r_metadata := f (r_metadata r)\<rparr>"

definition accuracy_Init :: init where
  "accuracy_Init r data =
     result_bind (atoi_result data) (\<lambda>acc.
       if acc < 1 \<or> 9 < acc then Inl (Error ''invalid argument, should be between 1 and 9'')
       else Inr (meta (\<lambda>m. m\<lparr>rm_Accuracy := acc\<rparr>) r, accuracyFn))"

definition allow_Init :: init where
  "allow_Init r data =
     (if data = ''phase'' then Inr (r, allowFn AllowTypePhase)
      else if data = ''request'' then Inr (r, allowFn AllowTypeRequest)
      else if data = [] then Inr (r, allowFn AllowTypeAll)
      else Inl (Error ''invalid argument''))"

definition auditlog_Init :: init where
  "auditlog_Init r data = no_args data (r\<lparr>r_Audit := True\<rparr>, auditlogFn)"

definition block_Init :: init where
  "block_Init r data = no_args data (r, blockFn)"

definition capture_Init :: init where
  "capture_Init r data = no_args data (r\<lparr>r_Capture := True\<rparr>, captureFn)"

definition chain_Init :: init where
  "chain_Init r data = no_args data (r\<lparr>r_HasChain := True\<rparr>, chainFn)"

definition deny_Init :: init where
  "deny_Init r data = no_args data (r, denyFn)"

definition drop_Init :: init where
  "drop_Init r data = no_args data (r, dropFn)"

definition exec_Init :: init where
  "exec_Init r data = no_args data (r, execFn)"

definition expirevar_Init :: init where
  "expirevar_Init r data = Inr (r, expirevarFn)"

definition id_Init :: init where
  "id_Init r data =
     need_args data (result_bind (atoi_result data) (\<lambda>i.
       if i \<le> 0 then Inl (Error ''invalid id argument, must be positive'')
       else Inr (meta (\<lambda>m. m\<lparr>rm_ID := i, rm_LogID := itoa i\<rparr>) r, idFn)))"

definition initcol_Init :: init where
  "initcol_Init r data =
     (case cut data CHR ''='' of (col, key, ok) \<Rightarrow>
        if \<not> ok then Inl ErrInvalidKVArguments else Inr (r, initcolFn col key))"

definition log_Init :: init where
  "log_Init r data = no_args data (r\<lparr>r_Log := True, r_Audit := True\<rparr>, logFn)"

definition logdata_Init :: "case_table \<Rightarrow> init" where
  "logdata_Init ct r data =
     need_args data (result_bind (NewMacro ct data) (\<lambda>m. Inr (r\<lparr>r_LogData := Some m\<rparr>, logdataFn)))"

definition maturity_Init :: init where
  "maturity_Init r data =
     result_bind (atoi_result data) (\<lambda>m.
       if m < 1 \<or> 9 < m then Inl (Error ''invalid argument, should be between 1 and 9'')
       else Inr (meta (\<lambda>md. md\<lparr>rm_Maturity := m\<rparr>) r, maturityFn))"

definition msg_Init :: "case_table \<Rightarrow> init" where
  "msg_Init ct r data0 =
     (let data = MaybeRemoveQuotes data0
      in need_args data (result_bind (NewMacro ct data) (\<lambda>m. Inr (r\<lparr>r_Msg := Some m\<rparr>, msgFn))))"

definition multimatch_Init :: init where
  "multimatch_Init r data = no_args data (r\<lparr>r_MultiMatch := True\<rparr>, multimatchFn)"

definition noauditlog_Init :: init where
  "noauditlog_Init r data = no_args data (r\<lparr>r_Audit := False\<rparr>, noauditlogFn)"

definition nolog_Init :: init where
  "nolog_Init r data = no_args data (r\<lparr>r_Log := False, r_Audit := False\<rparr>, nologFn)"

definition pass_Init :: init where
  "pass_Init r data = no_args data (r, passFn)"

definition phase_Init :: init where
  "phase_Init r data =
     need_args data (result_bind (ParseRulePhase data) (\<lambda>p. Inr (meta (\<lambda>m. m\<lparr>rm_Phase := p\<rparr>) r, phaseFn)))"

definition redirect_Init :: init where
  "redirect_Init r data = need_args data (Inr (r, redirectFn data))"

definition rev_Init :: init where
  "rev_Init r data = need_args data (Inr (meta (\<lambda>m. m\<lparr>rm_Rev := data\<rparr>) r, revFn))"

definition setenv_Init :: "case_table \<Rightarrow> init" where
  "setenv_Init ct r data =
     need_args data
       (case cut data CHR ''='' of (key, val, ok) \<Rightarrow>
          if \<not> ok then Inl ErrInvalidKVArguments
          else if key = [] then Inl (Error ''missing env key'')
          else if val = [] then Inl (Error ''missing env value'')
          else result_bind (NewMacro ct val) (\<lambda>m. Inr (r, setenvFn key (Some m))))"

text \<open>\<open>setvar\<close>: the value stays nil when there is no equals sign.\<close>

definition setvar_Init :: "case_table \<Rightarrow> init" where
  "setvar_Init ct r data0 =
     need_args data0
       (let isRemove = (hd data0 = CHR ''!''); data = (if isRemove then tl data0 else data0)
        in case cut data CHR ''='' of (key, val, valOk) \<Rightarrow>
          case cut key CHR ''.'' of (colKey, colVal, colOk) \<Rightarrow>
            if to_upper ct colKey \<noteq> ''TX'' then Inl (Error ''invalid arguments, expected collection TX'')
            else if trim_space colVal = [] then Inl (Error ''invalid arguments, expected syntax TX.{key}={value}'')
            else result_bind (Parse ct colKey) (\<lambda>col.
              result_bind (if colOk then result_bind (NewMacro ct colVal) (\<lambda>m. Inr (Some m)) else Inr None) (\<lambda>keyM.
                result_bind (if valOk then result_bind (NewMacro ct val) (\<lambda>m. Inr (Some m)) else Inr None) (\<lambda>valM.
                  Inr (r, setvarFn \<lparr>sv_key = keyM, sv_value = valM, sv_collection = col, sv_isRemove = isRemove\<rparr>)))))"

definition severity_Init :: "case_table \<Rightarrow> init" where
  "severity_Init ct r data =
     need_args data (result_bind (ParseRuleSeverity ct data) (\<lambda>s. Inr (meta (\<lambda>m. m\<lparr>rm_Severity := s\<rparr>) r, severityFn)))"

definition skip_Init :: init where
  "skip_Init r data =
     need_args data (result_bind (atoi_result data) (\<lambda>i.
       if i < 1 then Inl (Error ''invalid argument, must be greater than 1'') else Inr (r, skipFn i)))"

definition skipafter_Init :: init where
  "skipafter_Init r data0 =
     (let data = MaybeRemoveQuotes data0 in need_args data (Inr (r, skipafterFn data)))"

definition status_Init :: init where
  "status_Init r data =
     need_args data (result_bind (atoi_result data) (\<lambda>s. Inr (r\<lparr>r_DisruptiveStatus := s\<rparr>, statusFn)))"

definition tag_Init :: init where
  "tag_Init r data = need_args data (Inr (meta (\<lambda>m. m\<lparr>rm_Tags := rm_Tags m @ [data]\<rparr>) r, tagFn))"

definition ver_Init :: init where
  "ver_Init r data = need_args data (Inr (meta (\<lambda>m. m\<lparr>rm_Version := data\<rparr>) r, verFn))"

text \<open>
  \<open>t\<close> adds a registered transformation; the table of chain identifiers is global. \<open>none\<close> removes
  the transformations added so far.
\<close>

definition t_Init :: "(string \<Rightarrow> transformation option) \<Rightarrow> id_table \<Rightarrow> rule_params \<Rightarrow> string \<Rightarrow>
    ((rule_params \<times> action) \<times> id_table) result option" where
  "t_Init GetTransformation tbl r data =
     (if data = ''none'' then Some (Inr ((ClearTransformations r, tFn), tbl))
      else case GetTransformation data of
        None \<Rightarrow> Some (Inl (Error ''invalid transformation name''))
      | Some tt \<Rightarrow> map_option (\<lambda>res. result_bind res (\<lambda>(r', tbl'). Inr ((r', tFn), tbl'))) (AddTransformation tbl r data (Some tt)))"

section \<open>The ctl action\<close>

definition parseOnOff :: "case_table \<Rightarrow> string \<Rightarrow> bool \<times> bool" where
  "parseOnOff ct s =
     (let val = to_lower ct s
      in if val = ''on'' then (True, True) else if val = ''off'' then (False, True) else (False, False))"

definition parseRange :: "string \<Rightarrow> (int \<times> int) result" where
  "parseRange input =
     (case cut input CHR ''-'' of (in0, in1, ok) \<Rightarrow>
        if \<not> ok then Inl (Error ''no range separator found'')
        else result_bind (atoi_result in0) (\<lambda>start. result_bind (atoi_result in1) (\<lambda>stop.
          if stop < start then Inl (Error ''invalid range, start > end'') else Inr (start, stop))))"

definition parseIDOrRange :: "string \<Rightarrow> (int \<times> int) result" where
  "parseIDOrRange input =
     (if input = [] then Inl (Error ''empty input'')
      else case cut input CHR ''-'' of (_, _, ok) \<Rightarrow>
        if ok then parseRange input
        else result_bind (atoi_result input) (\<lambda>i. Inr (i, i)))"

definition ctl_functions :: "(string \<times> ctlFunctionType) list" where
  "ctl_functions =
     [(''auditEngine'', ctlAuditEngine), (''auditLogParts'', ctlAuditLogParts), (''requestBodyAccess'', ctlRequestBodyAccess),
      (''requestBodyLimit'', ctlRequestBodyLimit), (''requestBodyProcessor'', ctlRequestBodyProcessor),
      (''forceRequestBodyVariable'', ctlForceRequestBodyVariable), (''responseBodyProcessor'', ctlResponseBodyProcessor),
      (''responseBodyAccess'', ctlResponseBodyAccess), (''responseBodyLimit'', ctlResponseBodyLimit),
      (''forceResponseBodyVariable'', ctlForceResponseBodyVariable), (''ruleEngine'', ctlRuleEngine),
      (''ruleRemoveById'', ctlRuleRemoveByID), (''ruleRemoveByMsg'', ctlRuleRemoveByMsg),
      (''ruleRemoveByTag'', ctlRuleRemoveByTag), (''ruleRemoveTargetById'', ctlRuleRemoveTargetByID),
      (''ruleRemoveTargetByMsg'', ctlRuleRemoveTargetByMsg), (''ruleRemoveTargetByTag'', ctlRuleRemoveTargetByTag),
      (''hashEngine'', ctlHashEngine), (''hashEnforcement'', ctlHashEnforcement), (''debugLogLevel'', ctlDebugLogLevel)]"

definition parseCtl :: "case_table \<Rightarrow> (string \<Rightarrow> regex result) \<Rightarrow> string \<Rightarrow> ctl_params result" where
  "parseCtl ct compile data =
     (case cut data CHR ''='' of (action, ctlVal, ok) \<Rightarrow>
        if \<not> ok then Inl (Error ''invalid syntax'')
        else
          case cut ctlVal CHR '';'' of (val, col, ok2) \<Rightarrow>
          case (if ok2 then cut col CHR '':'' else ([], [], False)) of (colname, colkey0, _) \<Rightarrow>
          let colkey = trim_space colkey0;
              collection = (case Parse ct (trim_space colname) of Inr v \<Rightarrow> v | Inl _ \<Rightarrow> V_Unknown);
              finish = (\<lambda>colkey keyRx.
                case alist_get ctl_functions action of
                  None \<Rightarrow> Inl (Error ''unknown ctl action'')
                | Some act \<Rightarrow>
                    Inr \<lparr>ctl_action = act, ctl_value = val, ctl_collection = collection, ctl_colKey = colkey,
                         ctl_colKeyRx = keyRx\<rparr>)
          in case HasRegex colkey of (isRegex, rxPattern) \<Rightarrow>
            if isRegex then
              (if rxPattern = [] then Inl (Error ''empty regex pattern in ctl collection key'')
               else case compile rxPattern of
                 Inl _ \<Rightarrow> Inl (Error ''invalid regex in ctl collection key'')
               | Inr re \<Rightarrow> finish [] (Some re))
            else finish (to_lower ct colkey) None)"

definition ctl_Init :: "case_table \<Rightarrow> (string \<Rightarrow> regex result) \<Rightarrow> init" where
  "ctl_Init ct compile r data = result_bind (parseCtl ct compile data) (\<lambda>c. Inr (r, ctlFn c))"

text \<open>What a ctl does for every rule of the WAF that satisfies a condition.\<close>

definition for_rules :: "waf \<Rightarrow> (rule_params \<Rightarrow> bool) \<Rightarrow> (int \<Rightarrow> transaction \<Rightarrow> transaction) \<Rightarrow> transaction \<Rightarrow> transaction" where
  "for_rules w p f tx = fold (\<lambda>r tx. if p (rule_of r) then f (r_ID (rule_of r)) tx else tx) (waf_Rules w) tx"

definition has_msg :: "string \<Rightarrow> rule_params \<Rightarrow> bool" where
  "has_msg msg r = (case r_Msg r of Some m \<Rightarrow> macro_String m = msg | None \<Rightarrow> False)"

definition has_tag :: "string \<Rightarrow> rule_params \<Rightarrow> bool" where
  "has_tag tag r = InSlice tag (rm_Tags (r_metadata r))"

definition on_off :: "case_table \<Rightarrow> string \<Rightarrow> (bool \<Rightarrow> transaction \<Rightarrow> transaction) \<Rightarrow> transaction \<Rightarrow> transaction" where
  "on_off ct s f tx = (case parseOnOff ct s of (val, ok) \<Rightarrow> if ok then f val tx else tx)"

definition or_unchanged :: "'a result \<Rightarrow> ('a \<Rightarrow> transaction \<Rightarrow> transaction) \<Rightarrow> transaction \<Rightarrow> transaction" where
  "or_unchanged r f tx = (case r of Inl _ \<Rightarrow> tx | Inr x \<Rightarrow> f x tx)"

definition ctl_Evaluate :: "case_table \<Rightarrow> waf \<Rightarrow> ctl_params \<Rightarrow> transaction \<Rightarrow> transaction" where
  "ctl_Evaluate ct w a tx =
     (let val = ctl_value a;
          remove = (\<lambda>i. RemoveRuleTargetByID i (ctl_collection a) (ctl_colKey a) (ctl_colKeyRx a));
          request = (tx_lastPhase tx \<le> PhaseRequestHeaders);
          response = (tx_lastPhase tx \<le> PhaseResponseHeaders)
      in case ctl_action a of
        ctlRuleRemoveTargetByID \<Rightarrow>
          or_unchanged (parseIDOrRange val) (\<lambda>(start, stop). for_rules w (\<lambda>r. start \<le> r_ID r \<and> r_ID r \<le> stop) remove) tx
      | ctlRuleRemoveTargetByTag \<Rightarrow> for_rules w (has_tag val) remove tx
      | ctlRuleRemoveTargetByMsg \<Rightarrow> for_rules w (has_msg val) remove tx
      | ctlAuditEngine \<Rightarrow> or_unchanged (ParseAuditEngineStatus ct val) (\<lambda>ae tx. tx\<lparr>tx_AuditEngine := ae\<rparr>) tx
      | ctlAuditLogParts \<Rightarrow>
          or_unchanged (ApplyAuditLogParts (tx_AuditLogParts tx) val) (\<lambda>ps tx. tx\<lparr>tx_AuditLogParts := ps\<rparr>) tx
      | ctlForceRequestBodyVariable \<Rightarrow> on_off ct val (\<lambda>b tx. tx\<lparr>tx_ForceRequestBodyVariable := b\<rparr>) tx
      | ctlRequestBodyAccess \<Rightarrow> if request then on_off ct val (\<lambda>b tx. tx\<lparr>tx_RequestBodyAccess := b\<rparr>) tx else tx
      | ctlRequestBodyLimit \<Rightarrow>
          if request then or_unchanged (atoi_result val) (\<lambda>l tx. tx\<lparr>tx_RequestBodyLimit := l\<rparr>) tx else tx
      | ctlRequestBodyProcessor \<Rightarrow> if request then set_single V_ReqbodyProcessor (to_upper ct val) tx else tx
      | ctlRuleEngine \<Rightarrow> or_unchanged (ParseRuleEngineStatus ct val) (\<lambda>re tx. tx\<lparr>tx_RuleEngine := re\<rparr>) tx
      | ctlRuleRemoveByID \<Rightarrow>
          if CHR ''-'' \<notin> set val then or_unchanged (atoi_result val) RemoveRuleByID tx
          else or_unchanged (parseRange val) (\<lambda>(start, stop). RemoveRuleByIDRange start stop) tx
      | ctlRuleRemoveByMsg \<Rightarrow> for_rules w (has_msg val) RemoveRuleByID tx
      | ctlRuleRemoveByTag \<Rightarrow> for_rules w (has_tag val) RemoveRuleByID tx
      | ctlResponseBodyAccess \<Rightarrow> if response then on_off ct val (\<lambda>b tx. tx\<lparr>tx_ResponseBodyAccess := b\<rparr>) tx else tx
      | ctlResponseBodyLimit \<Rightarrow>
          if response then or_unchanged (atoi_result val) (\<lambda>l tx. tx\<lparr>tx_ResponseBodyLimit := l\<rparr>) tx else tx
      | ctlForceResponseBodyVariable \<Rightarrow> on_off ct val (\<lambda>b tx. tx\<lparr>tx_ForceResponseBodyVariable := b\<rparr>) tx
      | ctlResponseBodyProcessor \<Rightarrow> if response then set_single V_ResBodyProcessor (to_upper ct val) tx else tx
      | ctlHashEngine \<Rightarrow> tx
      | ctlHashEnforcement \<Rightarrow> tx
      | ctlDebugLogLevel \<Rightarrow> tx
      | ctlUnknown \<Rightarrow> tx)"

section \<open>Initialisation by kind\<close>

text \<open>\<open>f.Init(rule, value)\<close> on the action \<open>Get\<close> returned.\<close>

definition action_Init :: "case_table \<Rightarrow> (string \<Rightarrow> regex result) \<Rightarrow> (string \<Rightarrow> transformation option) \<Rightarrow> id_table \<Rightarrow>
    action \<Rightarrow> rule_params \<Rightarrow> string \<Rightarrow> ((rule_params \<times> action) \<times> id_table) result option" where
  "action_Init ct compile GetTransformation tbl a r data =
     (let plain = (\<lambda>res. Some (result_bind res (\<lambda>ra. Inr (ra, tbl))))
      in case a of
        accuracyFn \<Rightarrow> plain (accuracy_Init r data)
      | allowFn _ \<Rightarrow> plain (allow_Init r data)
      | auditlogFn \<Rightarrow> plain (auditlog_Init r data)
      | blockFn \<Rightarrow> plain (block_Init r data)
      | captureFn \<Rightarrow> plain (capture_Init r data)
      | chainFn \<Rightarrow> plain (chain_Init r data)
      | ctlFn _ \<Rightarrow> plain (ctl_Init ct compile r data)
      | denyFn \<Rightarrow> plain (deny_Init r data)
      | dropFn \<Rightarrow> plain (drop_Init r data)
      | execFn \<Rightarrow> plain (exec_Init r data)
      | expirevarFn \<Rightarrow> plain (expirevar_Init r data)
      | idFn \<Rightarrow> plain (id_Init r data)
      | initcolFn _ _ \<Rightarrow> plain (initcol_Init r data)
      | logFn \<Rightarrow> plain (log_Init r data)
      | logdataFn \<Rightarrow> plain (logdata_Init ct r data)
      | maturityFn \<Rightarrow> plain (maturity_Init r data)
      | msgFn \<Rightarrow> plain (msg_Init ct r data)
      | multimatchFn \<Rightarrow> plain (multimatch_Init r data)
      | noauditlogFn \<Rightarrow> plain (noauditlog_Init r data)
      | nologFn \<Rightarrow> plain (nolog_Init r data)
      | passFn \<Rightarrow> plain (pass_Init r data)
      | phaseFn \<Rightarrow> plain (phase_Init r data)
      | redirectFn _ \<Rightarrow> plain (redirect_Init r data)
      | revFn \<Rightarrow> plain (rev_Init r data)
      | setenvFn _ _ \<Rightarrow> plain (setenv_Init ct r data)
      | setvarFn _ \<Rightarrow> plain (setvar_Init ct r data)
      | severityFn \<Rightarrow> plain (severity_Init ct r data)
      | skipFn _ \<Rightarrow> plain (skip_Init r data)
      | skipafterFn _ \<Rightarrow> plain (skipafter_Init r data)
      | statusFn \<Rightarrow> plain (status_Init r data)
      | tFn \<Rightarrow> t_Init GetTransformation tbl r data
      | tagFn \<Rightarrow> plain (tag_Init r data)
      | verFn \<Rightarrow> plain (ver_Init r data))"

section \<open>Evaluate\<close>

definition rule_id :: "rule_params \<Rightarrow> int" where
  "rule_id r = (if r_ID r = noID then r_ParentID r else r_ID r)"

definition deny_Evaluate :: "rule_params \<Rightarrow> transaction \<Rightarrow> transaction" where
  "deny_Evaluate r tx =
     Interrupt \<lparr>i_RuleID = rule_id r, i_Action = ''deny'',
       i_Status = (if r_DisruptiveStatus r = 0 then 403 else r_DisruptiveStatus r), i_Data = []\<rparr> tx"

definition drop_Evaluate :: "rule_params \<Rightarrow> transaction \<Rightarrow> transaction" where
  "drop_Evaluate r tx =
     Interrupt \<lparr>i_RuleID = rule_id r, i_Action = ''drop'', i_Status = r_DisruptiveStatus r, i_Data = []\<rparr> tx"

definition redirect_Evaluate :: "string \<Rightarrow> rule_params \<Rightarrow> transaction \<Rightarrow> transaction" where
  "redirect_Evaluate target r tx =
     (let s = r_DisruptiveStatus r
      in Interrupt \<lparr>i_RuleID = rule_id r, i_Action = ''redirect'',
           i_Status = (if s = 301 \<or> s = 302 \<or> s = 303 \<or> s = 307 then s else 302), i_Data = target\<rparr> tx)"

definition setenv_Evaluate :: "case_table \<Rightarrow> string \<Rightarrow> macro option \<Rightarrow> transaction \<Rightarrow> transaction option" where
  "setenv_Evaluate ct key m tx =
     (case m of
        None \<Rightarrow> None
      | Some m \<Rightarrow>
          map_option (\<lambda>v. set_map V_Env (Map_Set ct (get_map tx V_Env) key [v]) tx) (Expand ct (tx_Collection tx) m))"

text \<open>The new contents of the collection, or none where the code leaves it alone. Addition wraps.\<close>

definition setvar_update :: "case_table \<Rightarrow> bool \<Rightarrow> coll_map \<Rightarrow> string \<Rightarrow> string \<Rightarrow> coll_map option" where
  "setvar_update ct isRemove col key val =
     (if isRemove then Some (Map_Remove ct col key)
      else
        let currentVal = first_value (Map_Get ct col key);
            set = (\<lambda>v. Some (Map_Set ct col key [v]))
        in if val = [] then set []
           else if hd val = CHR ''+'' \<or> hd val = CHR ''-'' then
             (case (if tl val = [] then (0, False) else atoi (tl val)) of (n, err) \<Rightarrow>
                if err then (if has_prefix (tl val) ''tx.'' then None else set val)
                else
                  case (if currentVal = [] then (0, False) else atoi currentVal) of (current, err2) \<Rightarrow>
                    if err2 then None
                    else if hd val = CHR ''+'' then set (itoa (wrap64 (current + n)))
                    else set (itoa (wrap64 (current - n))))
           else set val)"

definition evaluateTxCollection :: "case_table \<Rightarrow> setvar_params \<Rightarrow> string \<Rightarrow> string \<Rightarrow> transaction \<Rightarrow> transaction" where
  "evaluateTxCollection ct a key val tx =
     (if sv_collection a \<in> set map_variables then
        (case setvar_update ct (sv_isRemove a) (get_map tx (sv_collection a)) key val of
           Some col \<Rightarrow> set_map (sv_collection a) col tx
         | None \<Rightarrow> tx)
      else tx)"

definition setvar_Evaluate :: "case_table \<Rightarrow> setvar_params \<Rightarrow> transaction \<Rightarrow> transaction option" where
  "setvar_Evaluate ct a tx =
     (case (sv_key a, sv_value a) of
        (Some k, Some v) \<Rightarrow>
          (case Expand ct (tx_Collection tx) k of
             None \<Rightarrow> None
           | Some key \<Rightarrow>
               map_option (\<lambda>val. evaluateTxCollection ct a (to_lower ct key) val tx) (Expand ct (tx_Collection tx) v))
      | _ \<Rightarrow> None)"

definition action_Evaluate :: "case_table \<Rightarrow> waf \<Rightarrow> rule_params \<Rightarrow> action \<Rightarrow> transaction \<Rightarrow> transaction option" where
  "action_Evaluate ct w r a tx =
     (case a of
        allowFn t \<Rightarrow> Some (Allow t tx)
      | ctlFn c \<Rightarrow> Some (ctl_Evaluate ct w c tx)
      | denyFn \<Rightarrow> Some (deny_Evaluate r tx)
      | dropFn \<Rightarrow> Some (drop_Evaluate r tx)
      | redirectFn target \<Rightarrow> Some (redirect_Evaluate target r tx)
      | setenvFn key m \<Rightarrow> setenv_Evaluate ct key m tx
      | setvarFn s \<Rightarrow> setvar_Evaluate ct s tx
      | skipFn n \<Rightarrow> Some (tx\<lparr>tx_Skip := n\<rparr>)
      | skipafterFn m \<Rightarrow> Some (tx\<lparr>tx_SkipAfter := m\<rparr>)
      | _ \<Rightarrow> Some tx)"

end
