(* ===== verification/Rule_Eval.thy ===== *)
theory Rule_Eval
  imports Actions "HOL-Library.Monad_Syntax"
begin

text \<open>
  Evaluation of a rule (\<open>doEvaluate\<close> of \<open>rule.go\<close> with \<open>MatchRule\<close> of \<open>transaction.go\<close>) and of
  the rules of a phase (\<open>RuleGroup.Eval\<close> of \<open>rulegroup.go\<close>). \<open>None\<close> is a run-time panic. The build
  is the default one: \<open>multiphaseEvaluation\<close> is off. Debug log lines and the stop watches are left
  out; the caches of transformation results live in the transaction.
\<close>

section \<open>Matching\<close>

text \<open>What the evaluation takes from outside: case and fold tables, and the addresses of strings.\<close>

record eval_env =
  ev_ct :: case_table
  ev_ft :: "nat \<Rightarrow> nat"
  ev_data :: "string \<Rightarrow> nat"

definition expand_optional :: "case_table \<Rightarrow> transaction \<Rightarrow> macro option \<Rightarrow> string \<Rightarrow> string option" where
  "expand_optional ct tx m old = (case m of None \<Rightarrow> Some old | Some m \<Rightarrow> Expand ct (tx_Collection tx) m)"

text \<open>\<open>Msg\<close> and \<open>LogData\<close> expanded into match data.\<close>

definition expand_match :: "case_table \<Rightarrow> rule_params \<Rightarrow> transaction \<Rightarrow> match_data \<Rightarrow> match_data option" where
  "expand_match ct r tx md =
     do {
       msg \<leftarrow> expand_optional ct tx (r_Msg r) (md_Message md);
       data \<leftarrow> expand_optional ct tx (r_LogData r) (md_Data md);
       Some (md\<lparr>md_Message := msg, md_Data := data\<rparr>)
     }"

definition set_rule_index :: "case_table \<Rightarrow> string \<Rightarrow> string \<Rightarrow> transaction \<Rightarrow> transaction" where
  "set_rule_index ct key val tx = set_map V_Rule (set_index0 ct (get_map tx V_Rule) key val) tx"

definition set_rule_macro :: "case_table \<Rightarrow> string \<Rightarrow> macro option \<Rightarrow> transaction \<Rightarrow> transaction option" where
  "set_rule_macro ct key m tx =
     (case m of
        None \<Rightarrow> Some tx
      | Some m \<Rightarrow> map_option (\<lambda>val. set_rule_index ct key val tx) (Expand ct (tx_Collection tx) m))"

text \<open>The \<open>RULE\<close> collection describes the rule under evaluation.\<close>

definition set_rule_variables :: "case_table \<Rightarrow> rule_params \<Rightarrow> transaction \<Rightarrow> transaction option" where
  "set_rule_variables ct r tx =
     do {
       tx1 \<leftarrow> set_rule_macro ct ''msg'' (r_Msg r) (set_rule_index ct ''id'' (rm_LogID (r_metadata r)) tx);
       tx2 \<leftarrow> set_rule_macro ct ''logdata'' (r_LogData r) (set_rule_index ct ''rev'' (rm_Rev (r_metadata r)) tx1);
       Some (set_rule_index ct ''severity'' (severity_string (rm_Severity (r_metadata r))) tx2)
     }"

fun run_actions :: "case_table \<Rightarrow> waf \<Rightarrow> rule_params \<Rightarrow> (action_type \<Rightarrow> bool) \<Rightarrow> (string \<times> action) list \<Rightarrow>
    transaction \<Rightarrow> transaction option" where
  "run_actions ct w r p [] tx = Some tx"
| "run_actions ct w r p (a # as) tx =
     (if p (action_Type (snd a)) then do { tx' \<leftarrow> action_Evaluate ct w r (snd a) tx; run_actions ct w r p as tx' }
      else run_actions ct w r p as tx)"

definition is_nondisruptive :: "action_type \<Rightarrow> bool" where
  "is_nondisruptive t = (t = ActionTypeNondisruptive)"

definition is_flow_or_disruptive :: "action_type \<Rightarrow> bool" where
  "is_flow_or_disruptive t = (t = ActionTypeFlow \<or> t = ActionTypeDisruptive)"

definition Rule_matchVariable :: "case_table \<Rightarrow> waf \<Rightarrow> rule_params \<Rightarrow> match_data \<Rightarrow> transaction \<Rightarrow> transaction option" where
  "Rule_matchVariable ct w r m tx = run_actions ct w r is_nondisruptive (r_actions r) (matchVariable ct m tx)"

definition executeOperator :: "eval_env \<Rightarrow> ruleOperatorParams \<Rightarrow> string \<Rightarrow> transaction \<Rightarrow> (bool \<times> transaction) option" where
  "executeOperator env op data tx =
     map_option (\<lambda>(result, tx'). (if rop_Negation op then \<not> result else result, tx'))
       (op_Evaluate (ev_ct env) (ev_ft env) (rop_Operator op) tx data)"

definition set_caches :: "transformationCache \<Rightarrow> transformationStepCache option \<Rightarrow> transaction \<Rightarrow> transaction" where
  "set_caches cache sc tx =
     tx\<lparr>tx_transformationCache := cache,
        tx_transformationStepCache := (case sc of Some s \<Rightarrow> s | None \<Rightarrow> tx_transformationStepCache tx)\<rparr>"

text \<open>The arguments an operator sees for one value: all intermediate results, or the last one.\<close>

definition transform_value :: "eval_env \<Rightarrow> rule_params \<Rightarrow> match \<Rightarrow> transaction \<Rightarrow> string list \<times> transaction" where
  "transform_value env r arg tx =
     (let cache = tx_transformationCache tx; sc = tx_transformationStepCache tx;
          short = length (Value arg) < cachedTransformationStepMinInputBytes
      in if r_MultiMatch r then
           (if short \<or> variable_name (Variable arg) = ''TX'' then
              (fst (executeTransformationsMultimatchInto (transformations r) [] (Value arg)), tx)
            else
              (case transformFieldMultimatchCached (ev_data env) r arg cache (Some sc) [] of
                 ((args, errs), cache', sc') \<Rightarrow> (args, set_caches cache' sc' tx)))
         else if short then
           (case transformField (ev_data env) r arg cache of
              ((v, errs), cache') \<Rightarrow> ([v], set_caches cache' None tx))
         else
           (case transformFieldCached (ev_data env) r arg cache (Some sc) of
              ((v, errs), cache', sc') \<Rightarrow> ([v], set_caches cache' sc' tx)))"

text \<open>One transformed argument: the operator, then the match with its non-disruptive actions.\<close>

definition eval_arg :: "eval_env \<Rightarrow> waf \<Rightarrow> rule_params \<Rightarrow> ruleOperatorParams \<Rightarrow> int \<Rightarrow> match \<Rightarrow> string \<Rightarrow>
    match_data list \<times> transaction \<Rightarrow> (match_data list \<times> transaction) option" where
  "eval_arg env w r op level arg carg st =
     do {
       (matched, tx1) \<leftarrow> executeOperator env op carg (snd st);
       if \<not> matched then Some (fst st, tx1)
       else do {
         let mr = \<lparr>md_Variable = Variable arg, md_Key = Key arg, md_Value = carg, md_Message = [], md_Data = [],
                   md_ChainLevel = level\<rparr>;
         tx2 \<leftarrow> Rule_matchVariable (ev_ct env) w r mr tx1;
         mr' \<leftarrow> (if r_ParentID r \<noteq> noID \<or> \<not> r_HasChain r then expand_match (ev_ct env) r tx2 mr else Some mr);
         Some (fst st @ [mr'], tx2)
       }
     }"

text \<open>A loop whose body may panic.\<close>

fun fold_option :: "('a \<Rightarrow> 's \<Rightarrow> 's option) \<Rightarrow> 'a list \<Rightarrow> 's \<Rightarrow> 's option" where
  "fold_option f [] s = Some s"
| "fold_option f (x # xs) s = do { s' \<leftarrow> f x s; fold_option f xs s' }"

definition eval_value :: "eval_env \<Rightarrow> waf \<Rightarrow> rule_params \<Rightarrow> ruleOperatorParams \<Rightarrow> int \<Rightarrow> match \<Rightarrow>
    match_data list \<times> transaction \<Rightarrow> (match_data list \<times> transaction) option" where
  "eval_value env w r op level arg st =
     (case transform_value env r arg (snd st) of
        (args, tx1) \<Rightarrow> fold_option (eval_arg env w r op level arg) args (fst st, tx1))"

text \<open>The exceptions a \<open>ctl\<close> action added for this rule.\<close>

definition with_exceptions :: "ruleVariableParams list \<Rightarrow> ruleVariableParams \<Rightarrow> ruleVariableParams" where
  "with_exceptions ecol v =
     v\<lparr>rvp_Exceptions := rvp_Exceptions v @
        map (\<lambda>c. \<lparr>rve_KeyStr = rvp_KeyStr c, rve_KeyRx = rvp_KeyRx c\<rparr>)
          (filter (\<lambda>c. rvp_Variable c = rvp_Variable v) ecol)\<rparr>"

definition eval_variable :: "eval_env \<Rightarrow> waf \<Rightarrow> rule_params \<Rightarrow> ruleOperatorParams \<Rightarrow> int \<Rightarrow> ruleVariableParams list \<Rightarrow>
    ruleVariableParams \<Rightarrow> match_data list \<times> transaction \<Rightarrow> (match_data list \<times> transaction) option" where
  "eval_variable env w r op level ecol v st =
     fold_option (eval_value env w r op level)
       (getFieldMatches (ev_ct env) (snd st) (with_exceptions ecol v)) st"

text \<open>The match of one rule, its chain aside. A rule without an operator always matches.\<close>

definition match_self :: "eval_env \<Rightarrow> waf \<Rightarrow> int \<Rightarrow> rule_params \<Rightarrow> transaction \<Rightarrow> (match_data list \<times> transaction) option" where
  "match_self env w level r tx =
     do {
       tx1 \<leftarrow> set_rule_variables (ev_ct env) r (tx\<lparr>tx_Capture := r_Capture r\<rparr>);
       case r_operator r of
         None \<Rightarrow> do {
           md \<leftarrow> (if r_ParentID r \<noteq> noID \<or> r_MultiMatch r then expand_match (ev_ct env) r tx1 (new_match_data V_Unknown [] [])
                  else Some (new_match_data V_Unknown [] []));
           tx2 \<leftarrow> Rule_matchVariable (ev_ct env) w r md tx1;
           Some ([md], tx2)
         }
       | Some op \<Rightarrow>
           fold_option
             (eval_variable env w r op level
               (case alist_get (tx_ruleRemoveTargetByID tx1) (rule_id r) of Some ecol \<Rightarrow> ecol | None \<Rightarrow> []))
             (r_variables r) ([], tx1)
     }"

section \<open>Recording a match\<close>

definition first_set_message :: "match_data list \<Rightarrow> string \<times> string" where
  "first_set_message mds =
     (case find (\<lambda>md. md_Message md \<noteq> []) mds of Some md \<Rightarrow> (md_Message md, md_Data md) | None \<Rightarrow> ([], []))"

definition disruptive_name :: "rule_params \<Rightarrow> string option" where
  "disruptive_name r = map_option fst (find (\<lambda>a. action_Type (snd a) = ActionTypeDisruptive) (r_actions r))"

definition update_severity :: "rule_params \<Rightarrow> transaction \<Rightarrow> transaction" where
  "update_severity r tx =
     (let s = rm_Severity (r_metadata r)
      in if s \<noteq> RuleSeverityUnset \<and> severity_int s < fst (atoi (get_single tx V_HighestSeverity))
         then set_single V_HighestSeverity (itoa (severity_int s)) tx else tx)"

definition new_matched_rule :: "rule_params \<Rightarrow> match_data list \<Rightarrow> transaction \<Rightarrow> matched_rule" where
  "new_matched_rule r mds tx =
     \<lparr>mr_Message = fst (first_set_message mds), mr_Data = snd (first_set_message mds), mr_URI = get_single tx V_RequestURI,
      mr_TransactionID = tx_id tx,
      mr_Disruptive = (disruptive_name r \<noteq> None \<and> tx_RuleEngine tx = RuleEngineOn),
      mr_DisruptiveAction = (case disruptive_name r of Some n \<Rightarrow> DisruptiveActionMap n | None \<Rightarrow> DisruptiveActionUnknown),
      mr_Log = r_Log r, mr_Audit = r_Audit r, mr_ServerIPAddress = get_single tx V_ServerAddr,
      mr_ClientIPAddress = get_single tx V_RemoteAddr, mr_MatchedDatas = mds, mr_Rule = r_metadata r\<rparr>"

definition MatchRule :: "waf \<Rightarrow> rule_params \<Rightarrow> match_data list \<Rightarrow> transaction \<Rightarrow> transaction" where
  "MatchRule w r mds tx =
     (let tx1 = update_severity r (tx\<lparr>tx_audit := tx_audit tx \<or> r_Audit r\<rparr>);
          mr = new_matched_rule r mds tx1
      in tx1\<lparr>tx_matchedRules := tx_matchedRules tx1 @ [mr],
             tx_errorLog := (if waf_ErrorLogCb w \<and> r_Log r then tx_errorLog tx1 @ [mr] else tx_errorLog tx1)\<rparr>)"

section \<open>Chains\<close>

text \<open>
  The parent of a chain that matches evaluates the chained rules in order; the first that does
  not match ends the evaluation without a match. Only then do the flow and disruptive actions
  run, and the match is recorded unless the rule has no identifier.
\<close>

definition finish_rule :: "eval_env \<Rightarrow> waf \<Rightarrow> rule_params \<Rightarrow> match_data list \<Rightarrow> transaction \<Rightarrow> (match_data list \<times> transaction) option" where
  "finish_rule env w r mvs tx =
     do {
       md \<leftarrow> (if r_HasChain r \<or> r_operator r = None then expand_match (ev_ct env) r tx (hd mvs) else Some (hd mvs));
       tx1 \<leftarrow> run_actions (ev_ct env) w r is_flow_or_disruptive (r_actions r) tx;
       Some (md # tl mvs, if r_ID r \<noteq> noID then MatchRule w r (md # tl mvs) tx1 else tx1)
     }"

function doEvaluate :: "eval_env \<Rightarrow> waf \<Rightarrow> int \<Rightarrow> rule \<Rightarrow> transaction \<Rightarrow> (match_data list \<times> transaction) option"
  and evalChain :: "eval_env \<Rightarrow> waf \<Rightarrow> int \<Rightarrow> rule option \<Rightarrow> match_data list \<Rightarrow> transaction \<Rightarrow>
    (match_data list option \<times> transaction) option" where
  "doEvaluate env w level (Rule r chain) tx =
     do {
       (mvs, tx1) \<leftarrow> match_self env w level r tx;
       if mvs = [] \<or> r_ParentID r \<noteq> noID then Some (mvs, tx1)
       else do {
         (res, tx2) \<leftarrow> evalChain env w (level + 1) chain mvs tx1;
         case res of
           None \<Rightarrow> Some ([], tx2)
         | Some all \<Rightarrow> finish_rule env w r all tx2
       }
     }"
| "evalChain env w level None mvs tx = Some (Some mvs, tx)"
| "evalChain env w level (Some nr) mvs tx =
     do {
       (m, tx1) \<leftarrow> doEvaluate env w level nr tx;
       if m = [] then Some (None, tx1)
       else evalChain env w (level + 1) (chain_of nr) (mvs @ m) tx1
     }"
  by pat_completeness auto
termination
proof (relation "measure (\<lambda>x. case x of
    Inl (_, _, _, rl, _) \<Rightarrow> 2 * size rl + 1 | Inr (_, _, _, ro, _, _) \<Rightarrow> 2 * size_option size ro)", goal_cases)
  case (4 env w level nr mvs tx x a b)
  then show ?case by (cases nr) simp
qed simp_all

section \<open>The rules of a phase\<close>

definition rule_removed :: "transaction \<Rightarrow> int \<Rightarrow> bool" where
  "rule_removed tx i =
     (i \<in> set (tx_ruleRemoveByID tx) \<or> list_ex (\<lambda>(start, stop). start \<le> i \<and> i \<le> stop) (tx_ruleRemoveByIDRanges tx))"

definition reset_matched_vars :: "transaction \<Rightarrow> transaction" where
  "reset_matched_vars tx =
     (if 0 < Map_Len (get_map tx V_MatchedVars) then set_map V_MatchedVars (Map_Reset (get_map tx V_MatchedVars)) tx else tx)"

text \<open>\<open>Rule.Evaluate\<close> within the loop: fresh \<open>MATCHED_VARS\<close> before, capturing off after.\<close>

definition evaluate_rule :: "eval_env \<Rightarrow> waf \<Rightarrow> rule \<Rightarrow> transaction \<Rightarrow> transaction option" where
  "evaluate_rule env w rl tx =
     do { (mvs, tx1) \<leftarrow> doEvaluate env w 0 rl (reset_matched_vars tx); Some (tx1\<lparr>tx_Capture := False\<rparr>) }"

fun eval_rules :: "eval_env \<Rightarrow> waf \<Rightarrow> rule_phase \<Rightarrow> rule list \<Rightarrow> transaction \<Rightarrow> transaction option" where
  "eval_rules env w phase [] tx = Some tx"
| "eval_rules env w phase (rl # rls) tx =
     (let r = rule_of rl;
          run = do { tx1 \<leftarrow> evaluate_rule env w rl tx; eval_rules env w phase rls tx1 }
      in if IsInterrupted tx \<and> phase \<noteq> PhaseLogging then Some tx
         else if r_Phase r \<noteq> PhaseUnknown \<and> r_Phase r \<noteq> phase then eval_rules env w phase rls tx
         else if rule_removed tx (r_ID r) then eval_rules env w phase rls tx
         else if tx_SkipAfter tx \<noteq> [] then
           eval_rules env w phase rls
             (if rm_SecMark (r_metadata r) = tx_SkipAfter tx then tx\<lparr>tx_SkipAfter := []\<rparr> else tx)
         else if 0 < tx_Skip tx then eval_rules env w phase rls (tx\<lparr>tx_Skip := tx_Skip tx - 1\<rparr>)
         else case tx_AllowType tx of
           AllowTypeUnset \<Rightarrow> run
         | AllowTypePhase \<Rightarrow> Some tx
         | AllowTypeRequest \<Rightarrow>
             if phase = PhaseRequestHeaders then Some tx
             else if phase = PhaseRequestBody then Some (tx\<lparr>tx_AllowType := AllowTypeUnset\<rparr>)
             else run
         | AllowTypeAll \<Rightarrow> Some tx)"

definition Eval :: "eval_env \<Rightarrow> waf \<Rightarrow> rule_phase \<Rightarrow> transaction \<Rightarrow> (bool \<times> transaction) option" where
  "Eval env w phase tx =
     do {
       tx1 \<leftarrow> eval_rules env w phase (waf_Rules w) (resetTransformationCaches (tx\<lparr>tx_lastPhase := phase\<rparr>));
       let tx2 = (if tx_AllowType tx1 = AllowTypePhase then tx1\<lparr>tx_AllowType := AllowTypeUnset\<rparr> else tx1);
       let tx3 = tx2\<lparr>tx_Skip := 0\<rparr>;
       Some (IsInterrupted tx3, tx3)
     }"

end
