(* ===== verification/Engine.thy ===== *)
theory Engine
  imports Rule_Eval "HOL-Library.Sublist"
begin

text \<open>
  What evaluation may do to a transaction. The locales below collect the elementary steps of the
  evaluation of a rule; whatever relation between the transaction before and after holds for each
  of them and composes holds for the evaluation of rules and phases. Their interpretations give the
  properties of the engine: what never changes, what only grows, what a rule that does not match
  leaves alone, and what an engine that only detects may do.
\<close>

section \<open>Loops that may panic\<close>

lemma fold_option_append:
  "fold_option f (xs @ ys) s = do { s' \<leftarrow> fold_option f xs s; fold_option f ys s' }"
  by (induction xs arbitrary: s) (auto split: Option.bind_splits)

lemma fold_option_rel:
  assumes "fold_option f xs s = Some s'"
    and "\<And>s. P s s" "\<And>a b c. P a b \<Longrightarrow> P b c \<Longrightarrow> P a c"
    and "\<And>x s s'. x \<in> set xs \<Longrightarrow> f x s = Some s' \<Longrightarrow> P s s'"
  shows "P s s'"
  using assms(1,4)
proof (induction xs arbitrary: s)
  case Nil
  then show ?case using assms(2) by simp
next
  case (Cons x xs)
  then obtain s1 where "f x s = Some s1" "fold_option f xs s1 = Some s'" by (auto split: Option.bind_splits)
  moreover have "P s s1" using Cons.prems(2) [of x s s1] calculation(1) by simp
  moreover have "P s1 s'" using calculation(2) Cons.prems(2) by (intro Cons.IH) auto
  ultimately show ?case by (blast intro: assms(3))
qed

lemma fold_option_total:
  assumes "\<And>x s. x \<in> set xs \<Longrightarrow> \<exists>s'. f x s = Some s'"
  shows "\<exists>s'. fold_option f xs s = Some s'"
  using assms
proof (induction xs arbitrary: s)
  case (Cons x xs)
  then obtain s1 where "f x s = Some s1" by fastforce
  with Cons show ?case by auto
qed simp

section \<open>The steps of a match\<close>

text \<open>The rules of a chain.\<close>

fun chain_rules :: "rule \<Rightarrow> rule_params list" where
  "chain_rules (Rule r None) = [r]"
| "chain_rules (Rule r (Some nr)) = r # chain_rules nr"

lemma chain_rules_Rule: "chain_rules (Rule r ch) = r # (case ch of None \<Rightarrow> [] | Some nr \<Rightarrow> chain_rules nr)"
  by (cases ch) simp_all

text \<open>How the evaluation of a rule and of a chain can have come out.\<close>

lemma doEvaluate_cases [consumes 1, case_names own unmatched full]:
  assumes "doEvaluate env w level (Rule r ch) tx = Some (mvs, tx')"
  obtains "match_self env w level r tx = Some (mvs, tx')" "mvs = [] \<or> r_ParentID r \<noteq> noID"
  | ms tx1 where "match_self env w level r tx = Some (ms, tx1)" "ms \<noteq> []" "r_ParentID r = noID"
      "evalChain env w (level + 1) ch ms tx1 = Some (None, tx')" "mvs = []"
  | ms tx1 all tx2 where "match_self env w level r tx = Some (ms, tx1)" "ms \<noteq> []" "r_ParentID r = noID"
      "evalChain env w (level + 1) ch ms tx1 = Some (Some all, tx2)" "finish_rule env w r all tx2 = Some (mvs, tx')"
  using assms by (auto split: Option.bind_splits if_splits option.splits)

lemma evalChain_cases [consumes 1, case_names no_match more]:
  assumes "evalChain env w level (Some (Rule r ch)) mvs tx = Some (res, tx')"
  obtains "doEvaluate env w level (Rule r ch) tx = Some ([], tx')" "res = None"
  | m tx1 where "doEvaluate env w level (Rule r ch) tx = Some (m, tx1)" "m \<noteq> []"
      "evalChain env w (level + 1) ch (mvs @ m) tx1 = Some (res, tx')"
  using assms unfolding evalChain.simps by (auto split: Option.bind_splits if_splits)

lemma doEvaluate_child: "r_ParentID r \<noteq> noID \<Longrightarrow> doEvaluate env w level (Rule r ch) tx = match_self env w level r tx"
  by (auto split: Option.bind_splits)

lemma finish_rule_nonempty: "finish_rule env w r mvs tx = Some (mvs', tx') \<Longrightarrow> mvs' \<noteq> []"
  by (auto simp: finish_rule_def split: Option.bind_splits)

locale match_steps =
  fixes env :: eval_env and w :: waf
    and R :: "transaction \<Rightarrow> transaction \<Rightarrow> bool" and ok :: "action \<Rightarrow> bool"
  assumes refl [simp]: "R tx tx"
    and trans: "R tx tx' \<Longrightarrow> R tx' tx'' \<Longrightarrow> R tx tx''"
    and op_step: "op_effect (ev_ct env) tx tx' \<Longrightarrow> R tx tx'"
    and rule_index_step: "R tx (set_rule_index (ev_ct env) k v tx)"
    and match_step: "R tx (matchVariable (ev_ct env) m tx)"
    and capture_step: "R tx (tx\<lparr>tx_Capture := capture\<rparr>)"
    and cache_step: "R tx (set_caches cache sc tx)"
    and nondisruptive_step: "ok a \<Longrightarrow> action_Type a = ActionTypeNondisruptive \<Longrightarrow>
      action_Evaluate (ev_ct env) w r a tx = Some tx' \<Longrightarrow> R tx tx'"
begin

definition actions_ok :: "rule_params \<Rightarrow> bool" where
  "actions_ok r = list_all (\<lambda>a. ok (snd a)) (r_actions r)"

lemma run_nondisruptive:
  "list_all (\<lambda>a. ok (snd a)) as \<Longrightarrow> run_actions (ev_ct env) w r is_nondisruptive as tx = Some tx' \<Longrightarrow> R tx tx'"
proof (induction as arbitrary: tx)
  case (Cons a as)
  then show ?case
    by (auto simp: is_nondisruptive_def split: if_splits Option.bind_splits intro: trans nondisruptive_step)
qed simp

lemma Rule_matchVariable_R: "actions_ok r \<Longrightarrow> Rule_matchVariable (ev_ct env) w r m tx = Some tx' \<Longrightarrow> R tx tx'"
  unfolding Rule_matchVariable_def actions_ok_def by (rule trans [OF match_step run_nondisruptive])

lemma set_rule_macro_R: "set_rule_macro (ev_ct env) k m tx = Some tx' \<Longrightarrow> R tx tx'"
  by (auto simp: set_rule_macro_def rule_index_step split: option.splits)

lemma set_rule_variables_R: "set_rule_variables (ev_ct env) r tx = Some tx' \<Longrightarrow> R tx tx'"
  by (auto simp: set_rule_variables_def split: Option.bind_splits
      intro: trans [OF rule_index_step trans [OF set_rule_macro_R trans [OF rule_index_step trans [OF set_rule_macro_R rule_index_step]]]])

lemma executeOperator_R: "executeOperator env op x tx = Some (b, tx') \<Longrightarrow> R tx tx'"
  by (auto simp: executeOperator_def intro!: op_step dest: op_Evaluate_effect)

lemma transform_value_R: "transform_value env r arg tx = (args, tx') \<Longrightarrow> R tx tx'"
  by (auto simp: transform_value_def Let_def cache_step split: if_splits prod.splits)

lemma eval_arg_R: "actions_ok r \<Longrightarrow> eval_arg env w r op level arg carg st = Some st' \<Longrightarrow> R (snd st) (snd st')"
  by (auto simp: eval_arg_def Let_def split: Option.bind_splits prod.splits if_splits
      intro: executeOperator_R trans [OF executeOperator_R Rule_matchVariable_R])

lemma eval_value_R:
  assumes "actions_ok r" "eval_value env w r op level arg st = Some st'"
  shows "R (snd st) (snd st')"
proof -
  obtain args tx1 where t: "transform_value env r arg (snd st) = (args, tx1)" by fastforce
  then have f: "fold_option (eval_arg env w r op level arg) args (fst st, tx1) = Some st'"
    using assms(2) by (simp add: eval_value_def)
  have "R (snd (fst st, tx1)) (snd st')"
    by (rule fold_option_rel [OF f, where P = "\<lambda>a b. R (snd a) (snd b)"]) (auto intro: trans eval_arg_R [OF assms(1)])
  with transform_value_R [OF t] show ?thesis by (auto intro: trans)
qed

lemma eval_variable_R:
  assumes "actions_ok r" "eval_variable env w r op level ecol v st = Some st'"
  shows "R (snd st) (snd st')"
  by (rule fold_option_rel [OF assms(2) [unfolded eval_variable_def], where P = "\<lambda>a b. R (snd a) (snd b)"])
    (auto intro: trans eval_value_R [OF assms(1)])

lemma match_self_R:
  assumes "actions_ok r" "match_self env w level r tx = Some (mvs, tx')"
  shows "R tx tx'"
proof -
  from assms(2) obtain tx1 where s: "set_rule_variables (ev_ct env) r (tx\<lparr>tx_Capture := r_Capture r\<rparr>) = Some tx1"
    by (auto simp: match_self_def split: Option.bind_splits)
  have "R tx1 tx'"
  proof (cases "r_operator r")
    case None
    then show ?thesis using assms s by (auto simp: match_self_def split: Option.bind_splits if_splits intro: Rule_matchVariable_R)
  next
    case (Some op)
    then have f: "fold_option (eval_variable env w r op level
        (case alist_get (tx_ruleRemoveTargetByID tx1) (rule_id r) of Some ecol \<Rightarrow> ecol | None \<Rightarrow> []))
        (r_variables r) ([], tx1) = Some (mvs, tx')"
      using assms(2) s by (simp add: match_self_def)
    have "R (snd ([] :: match_data list, tx1)) (snd (mvs, tx'))"
      by (rule fold_option_rel [OF f, where P = "\<lambda>a b. R (snd a) (snd b)"]) (auto intro: trans eval_variable_R [OF assms(1)])
    then show ?thesis by simp
  qed
  with set_rule_variables_R [OF s] capture_step show ?thesis by (blast intro: trans)
qed

text \<open>A rule that does not match in full has only matched variables and run non-disruptive actions.\<close>

lemma evalChain_R:
  "list_all (\<lambda>r. r_ParentID r \<noteq> noID \<and> actions_ok r) (chain_rules rl) \<Longrightarrow>
   evalChain env w level (Some rl) mvs tx = Some (res, tx') \<Longrightarrow> R tx tx'"
proof (induction rl arbitrary: level mvs tx)
  case (Rule r ch)
  then have r: "r_ParentID r \<noteq> noID" "actions_ok r" by (auto simp: chain_rules_Rule)
  note m = match_self_R [OF r(2)]
  from Rule.prems(2) show ?case
  proof (cases rule: evalChain_cases)
    case no_match
    then show ?thesis unfolding doEvaluate_child [OF r(1)] by (blast intro: m)
  next
    case (more ms tx1)
    then have "R tx1 tx'" using Rule.IH [of "the ch"] Rule.prems(1) by (cases ch) (auto simp: chain_rules_Rule)
    moreover have "R tx tx1" using more(1) unfolding doEvaluate_child [OF r(1)] by (rule m)
    ultimately show ?thesis by (blast intro: trans)
  qed
qed

lemma unmatched_R:
  assumes "list_all actions_ok (chain_rules rl)" "list_all (\<lambda>r. r_ParentID r \<noteq> noID) (tl (chain_rules rl))"
    and "doEvaluate env w level rl tx = Some ([], tx')"
  shows "R tx tx'"
proof -
  obtain r ch where rl: "rl = Rule r ch" by (cases rl)
  have r: "actions_ok r" using assms(1) rl by (simp add: chain_rules_Rule)
  have chain: "R tx1 tx2" if "evalChain env w l ch ms tx1 = Some (res, tx2)" for l ms tx1 res tx2
    using that assms(1,2) rl evalChain_R [of "the ch"] by (cases ch) (auto simp: list_all_iff chain_rules_Rule)
  from assms(3) [unfolded rl] show ?thesis
    by (cases rule: doEvaluate_cases) (auto intro: match_self_R [OF r] trans [OF match_self_R [OF r] chain]
        dest: finish_rule_nonempty)
qed

end

text \<open>
  The evaluation of rules and phases adds the flow and disruptive actions, the record of a match
  and the bookkeeping of the loop.
\<close>

locale eval_steps = match_steps +
  assumes final_step: "ok a \<Longrightarrow> is_flow_or_disruptive (action_Type a) \<Longrightarrow>
      action_Evaluate (ev_ct env) w r a tx = Some tx' \<Longrightarrow> R tx tx'"
    and MatchRule_step: "R tx (MatchRule w r (md # mds) tx)"
    and matched_vars_step: "R tx (reset_matched_vars tx)"
    and skip_step: "R tx (tx\<lparr>tx_Skip := n\<rparr>)"
    and skip_after_step: "R tx (tx\<lparr>tx_SkipAfter := []\<rparr>)"
    and allow_step: "tx_AllowType tx \<noteq> AllowTypeUnset \<Longrightarrow> R tx (tx\<lparr>tx_AllowType := AllowTypeUnset\<rparr>)"
begin

lemma run_final:
  "list_all (\<lambda>a. ok (snd a)) as \<Longrightarrow> run_actions (ev_ct env) w r is_flow_or_disruptive as tx = Some tx' \<Longrightarrow> R tx tx'"
proof (induction as arbitrary: tx)
  case (Cons a as)
  then show ?case by (auto split: if_splits Option.bind_splits intro: trans final_step)
qed simp

lemma finish_rule_R: "actions_ok r \<Longrightarrow> finish_rule env w r mvs tx = Some (mvs', tx') \<Longrightarrow> R tx tx'"
  by (auto simp: finish_rule_def actions_ok_def split: Option.bind_splits if_splits
      intro: run_final trans [OF run_final MatchRule_step])

lemma doEvaluate_R:
  "list_all actions_ok (chain_rules rl) \<Longrightarrow>
     (\<forall>level tx mvs tx'. doEvaluate env w level rl tx = Some (mvs, tx') \<longrightarrow> R tx tx') \<and>
     (\<forall>level tx mvs res tx'. evalChain env w level (Some rl) mvs tx = Some (res, tx') \<longrightarrow> R tx tx')"
proof (induction rl)
  case (Rule r ch)
  have r: "actions_ok r" using Rule.prems by (simp add: chain_rules_Rule)
  have chain: "R tx tx'" if "evalChain env w level ch mvs tx = Some (res, tx')" for level tx mvs res tx'
    using that Rule.IH [of "the ch"] Rule.prems by (cases ch) (auto simp: chain_rules_Rule)
  note m = match_self_R [OF r]
  have d: "R tx tx'" if "doEvaluate env w level (Rule r ch) tx = Some (mvs, tx')" for level tx mvs tx'
    using that
  proof (cases rule: doEvaluate_cases)
    case (unmatched ms tx1)
    then show ?thesis by (blast intro: trans [OF m chain])
  next
    case (full ms tx1 all tx2)
    then show ?thesis by (blast intro: trans [OF m trans [OF chain finish_rule_R [OF r]]])
  qed (rule m)
  have "R tx tx'" if "evalChain env w level (Some (Rule r ch)) mvs tx = Some (res, tx')" for level tx mvs res tx'
    using that by (cases rule: evalChain_cases) (blast intro: d trans [OF d chain])+
  with d show ?case by blast
qed

lemma evaluate_rule_R: "list_all actions_ok (chain_rules rl) \<Longrightarrow> evaluate_rule env w rl tx = Some tx' \<Longrightarrow> R tx tx'"
  using doEvaluate_R [of rl]
  by (auto simp: evaluate_rule_def split: Option.bind_splits intro: trans [OF matched_vars_step trans [OF _ capture_step]])

lemma eval_rules_R:
  "list_all (\<lambda>rl. list_all actions_ok (chain_rules rl)) rls \<Longrightarrow> eval_rules env w phase rls tx = Some tx' \<Longrightarrow> R tx tx'"
proof (induction rls arbitrary: tx)
  case (Cons rl rls)
  have run: "R tx tx'" if "do { tx1 \<leftarrow> evaluate_rule env w rl tx; eval_rules env w phase rls tx1 } = Some tx'"
    using that Cons by (auto split: Option.bind_splits intro: trans evaluate_rule_R)
  have skip: "R tx tx'" if "R tx tx1" "eval_rules env w phase rls tx1 = Some tx'" for tx1
    using that Cons by (auto intro: trans)
  show ?case
    using Cons.prems(2) run skip [OF skip_after_step] skip [OF skip_step] skip [OF refl] allow_step [of tx]
    by (auto simp: Let_def simp del: fun_upd_apply split: if_splits allow_type.splits)
qed simp

end

section \<open>What evaluation keeps\<close>

text \<open>
  Whatever is evaluated, the transaction keeps its identity, phase and bodies, its log and its
  removed rules only grow, an interruption stays, and the variables stay well-formed.
\<close>

definition tx_evolves :: "case_table \<Rightarrow> transaction \<Rightarrow> transaction \<Rightarrow> bool" where
  "tx_evolves ct tx tx' =
     (tx_id tx' = tx_id tx \<and> tx_Timestamp tx' = tx_Timestamp tx \<and> tx_lastPhase tx' = tx_lastPhase tx \<and>
      tx_requestBodyBuffer tx' = tx_requestBodyBuffer tx \<and> tx_responseBodyBuffer tx' = tx_responseBodyBuffer tx \<and>
      prefix (tx_matchedRules tx) (tx_matchedRules tx') \<and> prefix (tx_errorLog tx) (tx_errorLog tx') \<and>
      (IsInterrupted tx \<longrightarrow> IsInterrupted tx') \<and> (tx_audit tx \<longrightarrow> tx_audit tx') \<and>
      (IsDetectionOnlyInterrupted tx \<longrightarrow> tx_detectionOnlyInterruption tx' = tx_detectionOnlyInterruption tx) \<and>
      (\<forall>i. rule_removed tx i \<longrightarrow> rule_removed tx' i) \<and>
      (vars_ok ct (tx_variables tx) \<longrightarrow> vars_ok ct (tx_variables tx')))"

lemma tx_evolves_refl [simp]: "tx_evolves ct tx tx"
  by (simp add: tx_evolves_def)

lemma tx_evolves_trans: "tx_evolves ct tx tx' \<Longrightarrow> tx_evolves ct tx' tx'' \<Longrightarrow> tx_evolves ct tx tx''"
  by (auto simp: tx_evolves_def IsDetectionOnlyInterrupted_def intro: prefix_order.trans)

lemmas interrupt_defs = IsInterrupted_def IsDetectionOnlyInterrupted_def

lemma vars_only_fields:
  assumes "vars_only tx tx'"
  shows "tx_id tx' = tx_id tx" "tx_Timestamp tx' = tx_Timestamp tx" "tx_lastPhase tx' = tx_lastPhase tx"
    "tx_requestBodyBuffer tx' = tx_requestBodyBuffer tx" "tx_responseBodyBuffer tx' = tx_responseBodyBuffer tx"
    "tx_matchedRules tx' = tx_matchedRules tx" "tx_errorLog tx' = tx_errorLog tx"
    "tx_interruption tx' = tx_interruption tx" "tx_detectionOnlyInterruption tx' = tx_detectionOnlyInterruption tx"
    "tx_audit tx' = tx_audit tx" "tx_ruleRemoveByID tx' = tx_ruleRemoveByID tx"
    "tx_ruleRemoveByIDRanges tx' = tx_ruleRemoveByIDRanges tx" "tx_RuleEngine tx' = tx_RuleEngine tx"
    "tx_AllowType tx' = tx_AllowType tx" "tx_Skip tx' = tx_Skip tx" "tx_SkipAfter tx' = tx_SkipAfter tx"
    "tx_ruleRemoveTargetByID tx' = tx_ruleRemoveTargetByID tx"
proof -
  obtain vs where "tx' = tx\<lparr>tx_variables := vs\<rparr>" using assms unfolding vars_only_def by blast
  then show "tx_id tx' = tx_id tx" "tx_Timestamp tx' = tx_Timestamp tx" "tx_lastPhase tx' = tx_lastPhase tx"
    "tx_requestBodyBuffer tx' = tx_requestBodyBuffer tx" "tx_responseBodyBuffer tx' = tx_responseBodyBuffer tx"
    "tx_matchedRules tx' = tx_matchedRules tx" "tx_errorLog tx' = tx_errorLog tx"
    "tx_interruption tx' = tx_interruption tx" "tx_detectionOnlyInterruption tx' = tx_detectionOnlyInterruption tx"
    "tx_audit tx' = tx_audit tx" "tx_ruleRemoveByID tx' = tx_ruleRemoveByID tx"
    "tx_ruleRemoveByIDRanges tx' = tx_ruleRemoveByIDRanges tx" "tx_RuleEngine tx' = tx_RuleEngine tx"
    "tx_AllowType tx' = tx_AllowType tx" "tx_Skip tx' = tx_Skip tx" "tx_SkipAfter tx' = tx_SkipAfter tx"
    "tx_ruleRemoveTargetByID tx' = tx_ruleRemoveTargetByID tx"
    by simp_all
qed

lemma tx_evolves_vars:
  "vars_only tx tx' \<Longrightarrow> (vars_ok ct (tx_variables tx) \<Longrightarrow> vars_ok ct (tx_variables tx')) \<Longrightarrow> tx_evolves ct tx tx'"
  by (simp add: tx_evolves_def interrupt_defs rule_removed_def vars_only_fields)

lemma vars_only_matchVariable [simp]: "vars_only tx (matchVariable ct m tx)"
  by (simp add: matchVariable_def Let_def vars_only_def set_single_def set_map_def)

lemma vars_only_setvar: "vars_only tx (evaluateTxCollection ct a k v tx)"
  by (simp add: evaluateTxCollection_def split: option.splits)

lemma setvar_update_shape:
  "setvar_update ct isRemove c k v = Some c' \<Longrightarrow> c' = Map_Remove ct c k \<or> (\<exists>x. c' = Map_Set ct c k [x])"
  by (auto simp: setvar_update_def Let_def split: if_splits prod.splits)

lemma setvar_vars_ok: "vars_ok ct (tx_variables tx) \<Longrightarrow> vars_ok ct (tx_variables (evaluateTxCollection ct a k v tx))"
  by (auto simp: evaluateTxCollection_def dest!: setvar_update_shape split: option.splits)

lemma for_rules_rel:
  assumes "\<And>tx. P tx tx" "\<And>a b c. P a b \<Longrightarrow> P b c \<Longrightarrow> P a c" "\<And>i tx. P tx (f i tx)"
  shows "P tx (for_rules w p f tx)"
proof -
  have "P tx (fold (\<lambda>r tx. if p (rule_of r) then f (r_ID (rule_of r)) tx else tx) rls tx)" for rls
    by (induction rls arbitrary: tx) (auto intro: assms)
  then show ?thesis by (simp add: for_rules_def)
qed

text \<open>A \<open>ctl\<close> action changes settings, adds removals, or names a body processor.\<close>

lemma ctl_Evaluate_rel:
  assumes "\<And>tx. P tx tx" "\<And>a b c. P a b \<Longrightarrow> P b c \<Longrightarrow> P a c"
    and "\<And>tx i. P tx (RemoveRuleByID i tx)" "\<And>tx i j. P tx (RemoveRuleByIDRange i j tx)"
    and "\<And>tx i v k x. P tx (RemoveRuleTargetByID i v k x tx)"
    and "\<And>tx x. P tx (tx\<lparr>tx_AuditEngine := x\<rparr>)" "\<And>tx x. P tx (tx\<lparr>tx_AuditLogParts := x\<rparr>)"
    and "\<And>tx x. P tx (tx\<lparr>tx_ForceRequestBodyVariable := x\<rparr>)" "\<And>tx x. P tx (tx\<lparr>tx_ForceResponseBodyVariable := x\<rparr>)"
    and "\<And>tx x. P tx (tx\<lparr>tx_RequestBodyAccess := x\<rparr>)" "\<And>tx x. P tx (tx\<lparr>tx_ResponseBodyAccess := x\<rparr>)"
    and "\<And>tx x. P tx (tx\<lparr>tx_RequestBodyLimit := x\<rparr>)" "\<And>tx x. P tx (tx\<lparr>tx_ResponseBodyLimit := x\<rparr>)"
    and "ctl_action c = ctlRuleEngine \<Longrightarrow> P tx (ctl_Evaluate ct w c tx)"
    and "\<And>tx x. P tx (set_single V_ReqbodyProcessor x tx)" "\<And>tx x. P tx (set_single V_ResBodyProcessor x tx)"
  shows "P tx (ctl_Evaluate ct w c tx)"
proof (cases "ctl_action c = ctlRuleEngine")
  case False
  note rules = for_rules_rel [where P = P, OF assms(1) assms(2)]
  show ?thesis
    using False
    by (cases "ctl_action c")
      (auto simp: ctl_Evaluate_def Let_def or_unchanged_def on_off_def assms(1,3-13,15-16) intro!: rules assms(3-5)
        split: sum.splits prod.splits)
qed (rule assms(14))

lemma evolves_RemoveRuleByID: "tx_evolves ct tx (RemoveRuleByID i tx)"
  by (auto simp: tx_evolves_def RemoveRuleByID_def interrupt_defs rule_removed_def)

lemma evolves_RemoveRuleByIDRange: "tx_evolves ct tx (RemoveRuleByIDRange i j tx)"
  by (auto simp: tx_evolves_def RemoveRuleByIDRange_def interrupt_defs rule_removed_def)

lemma add_target_fields:
  "\<exists>m. RemoveRuleTargetByID i v k x tx = tx\<lparr>tx_ruleRemoveTargetByID := m\<rparr>"
  by (simp add: RemoveRuleTargetByID_def Let_def add_target_def multiphaseEvaluation_def) blast

lemma evolves_RemoveRuleTargetByID: "tx_evolves ct tx (RemoveRuleTargetByID i v k x tx)"
  using add_target_fields [of i v k x tx] by (auto simp: tx_evolves_def interrupt_defs rule_removed_def)

lemma evolves_ctl: "tx_evolves ct tx (ctl_Evaluate ct w c tx)"
proof (rule ctl_Evaluate_rel [where P = "tx_evolves ct"])
  show "tx_evolves ct tx (ctl_Evaluate ct w c tx)" if "ctl_action c = ctlRuleEngine"
    using that
    by (auto simp: ctl_Evaluate_def Let_def or_unchanged_def tx_evolves_def interrupt_defs rule_removed_def split: sum.splits)
  show "tx_evolves ct tx tx''" if "tx_evolves ct tx tx'" "tx_evolves ct tx' tx''" for tx tx' tx''
    using that by (rule tx_evolves_trans)
qed (rule tx_evolves_refl evolves_RemoveRuleByID evolves_RemoveRuleByIDRange evolves_RemoveRuleTargetByID |
    simp add: tx_evolves_def interrupt_defs rule_removed_def set_single_def vars_ok_def)+

lemma evolves_Interrupt: "tx_evolves ct tx (Interrupt i tx)"
  by (auto simp: Interrupt_def tx_evolves_def interrupt_defs rule_removed_def split: rule_engine_status.splits)

lemma evolves_action: "action_Evaluate ct w r a tx = Some tx' \<Longrightarrow> tx_evolves ct tx tx'"
  by (cases a)
    (auto simp: action_Evaluate_def evolves_ctl evolves_Interrupt deny_Evaluate_def drop_Evaluate_def redirect_Evaluate_def
      Let_def Allow_def setenv_Evaluate_def setvar_Evaluate_def vars_only_setvar setvar_vars_ok split: option.splits
      intro: tx_evolves_vars, auto simp: tx_evolves_def interrupt_defs rule_removed_def)

lemma evolves_MatchRule: "tx_evolves ct tx (MatchRule w r mds tx)"
  by (auto simp: MatchRule_def Let_def update_severity_def tx_evolves_def interrupt_defs rule_removed_def set_single_def vars_ok_def)

interpretation evolves: eval_steps env w "tx_evolves (ev_ct env)" "\<lambda>_. True" for env w
proof unfold_locales
  show "tx_evolves (ev_ct env) tx tx'" if "op_effect (ev_ct env) tx tx'" for tx tx'
    using that by (auto simp: op_effect_def intro: tx_evolves_vars)
  show "tx_evolves (ev_ct env) tx (set_rule_index (ev_ct env) k v tx)" for k v tx
    by (auto simp: set_rule_index_def intro: tx_evolves_vars)
  show "tx_evolves (ev_ct env) tx (reset_matched_vars tx)" for tx
    by (auto simp: reset_matched_vars_def intro: tx_evolves_vars)
qed (auto intro: tx_evolves_trans tx_evolves_vars evolves_action evolves_MatchRule,
  auto simp: tx_evolves_def interrupt_defs rule_removed_def set_caches_def)

section \<open>Engines that only detect\<close>

text \<open>Without blocking, an evaluation that cannot switch the engine on neither interrupts nor allows.\<close>

definition detects :: "transaction \<Rightarrow> transaction \<Rightarrow> bool" where
  "detects tx tx' =
     (tx_RuleEngine tx \<noteq> RuleEngineOn \<longrightarrow>
        tx_RuleEngine tx' = tx_RuleEngine tx \<and> tx_interruption tx' = tx_interruption tx \<and>
        (tx_AllowType tx' = tx_AllowType tx \<or> tx_AllowType tx' = AllowTypeUnset))"

definition keeps_engine :: "action \<Rightarrow> bool" where
  "keeps_engine a = (case a of ctlFn c \<Rightarrow> ctl_action c \<noteq> ctlRuleEngine | _ \<Rightarrow> True)"

lemma detects_refl: "detects tx tx"
  by (simp add: detects_def)

lemma detects_trans: "detects tx tx' \<Longrightarrow> detects tx' tx'' \<Longrightarrow> detects tx tx''"
  by (auto simp: detects_def)

lemma detects_vars: "vars_only tx tx' \<Longrightarrow> detects tx tx'"
  by (simp add: detects_def vars_only_fields)

lemma detects_ctl: "ctl_action c \<noteq> ctlRuleEngine \<Longrightarrow> detects tx (ctl_Evaluate ct w c tx)"
proof (rule ctl_Evaluate_rel [where P = detects])
  show "detects tx tx''" if "detects tx tx'" "detects tx' tx''" for tx tx' tx'' using that by (rule detects_trans)
  show "detects tx (RemoveRuleTargetByID i v k x tx)" for tx i v k x
    using add_target_fields [of i v k x tx] by (auto simp: detects_def)
qed (simp_all add: detects_def RemoveRuleByID_def RemoveRuleByIDRange_def set_single_def)

lemma detects_action: "keeps_engine a \<Longrightarrow> action_Evaluate ct w r a tx = Some tx' \<Longrightarrow> detects tx tx'"
  by (cases a)
    (auto simp: action_Evaluate_def keeps_engine_def detects_ctl deny_Evaluate_def drop_Evaluate_def redirect_Evaluate_def
      Let_def Allow_def setenv_Evaluate_def setvar_Evaluate_def vars_only_setvar split: option.splits
      intro: detects_vars, auto simp: detects_def Interrupt_def split: rule_engine_status.splits)

lemma detects_MatchRule: "detects tx (MatchRule w r mds tx)"
  by (simp add: MatchRule_def Let_def update_severity_def detects_def set_single_def)

interpretation detection: eval_steps env w detects keeps_engine for env w
proof unfold_locales
  show "detects tx tx'" if "op_effect (ev_ct env) tx tx'" for tx tx'
    using that by (auto simp: op_effect_def intro: detects_vars)
  show "detects tx (set_rule_index (ev_ct env) k v tx)" for k v tx
    by (auto simp: set_rule_index_def intro: detects_vars)
  show "detects tx (reset_matched_vars tx)" for tx
    by (auto simp: reset_matched_vars_def intro: detects_vars)
  show "detects tx tx''" if "detects tx tx'" "detects tx' tx''" for tx tx' tx'' using that by (rule detects_trans)
qed (auto intro: detects_vars detects_action detects_MatchRule, auto simp: detects_def set_caches_def)

section \<open>Rules that do not match\<close>

text \<open>Only the flow and disruptive actions of a full match steer the engine.\<close>

definition same_course :: "transaction \<Rightarrow> transaction \<Rightarrow> bool" where
  "same_course tx tx' =
     (tx_interruption tx' = tx_interruption tx \<and> tx_detectionOnlyInterruption tx' = tx_detectionOnlyInterruption tx \<and>
      tx_AllowType tx' = tx_AllowType tx \<and> tx_Skip tx' = tx_Skip tx \<and> tx_SkipAfter tx' = tx_SkipAfter tx \<and>
      tx_matchedRules tx' = tx_matchedRules tx \<and> tx_errorLog tx' = tx_errorLog tx \<and> tx_audit tx' = tx_audit tx)"

lemma same_course_refl [simp]: "same_course tx tx"
  by (simp add: same_course_def)

lemma same_course_vars: "vars_only tx tx' \<Longrightarrow> same_course tx tx'"
  by (simp add: same_course_def vars_only_fields)

lemma same_course_ctl: "same_course tx (ctl_Evaluate ct w c tx)"
proof (rule ctl_Evaluate_rel [where P = same_course])
  show "same_course tx (RemoveRuleTargetByID i v k x tx)" for tx i v k x
    using add_target_fields [of i v k x tx] by (auto simp: same_course_def)
  show "same_course tx (ctl_Evaluate ct w c tx)" if "ctl_action c = ctlRuleEngine"
    using that by (auto simp: ctl_Evaluate_def Let_def or_unchanged_def same_course_def split: sum.splits)
qed (auto simp: same_course_def RemoveRuleByID_def RemoveRuleByIDRange_def set_single_def)

lemma same_course_action:
  "action_Type a = ActionTypeNondisruptive \<Longrightarrow> action_Evaluate ct w r a tx = Some tx' \<Longrightarrow> same_course tx tx'"
  by (cases a)
    (auto simp: action_Evaluate_def same_course_ctl setenv_Evaluate_def setvar_Evaluate_def vars_only_setvar
      split: option.splits intro: same_course_vars)

interpretation course: match_steps env w same_course "\<lambda>_. True" for env w
proof unfold_locales
  show "same_course tx tx'" if "op_effect (ev_ct env) tx tx'" for tx tx'
    using that by (auto simp: op_effect_def intro: same_course_vars)
  show "same_course tx (set_rule_index (ev_ct env) k v tx)" for k v tx
    by (auto simp: set_rule_index_def intro: same_course_vars)
qed (auto intro: same_course_vars same_course_action, auto simp: same_course_def set_caches_def)

section \<open>The highest severity\<close>

definition highest_severity :: "transaction \<Rightarrow> int" where
  "highest_severity tx = fst (atoi (get_single tx V_HighestSeverity))"

definition min_severity :: "matched_rule list \<Rightarrow> int \<Rightarrow> int" where
  "min_severity mrs h =
     fold (\<lambda>mr h. if rm_Severity (mr_Rule mr) = RuleSeverityUnset then h else min h (severity_int (rm_Severity (mr_Rule mr)))) mrs h"

definition severity_kept :: "transaction \<Rightarrow> transaction \<Rightarrow> bool" where
  "severity_kept tx tx' =
     (\<exists>new. tx_matchedRules tx' = tx_matchedRules tx @ new \<and> highest_severity tx' = min_severity new (highest_severity tx))"

lemma severity_kept_same:
  "tx_matchedRules tx' = tx_matchedRules tx \<Longrightarrow> highest_severity tx' = highest_severity tx \<Longrightarrow> severity_kept tx tx'"
  by (simp add: severity_kept_def min_severity_def)

lemma severity_kept_trans: "severity_kept tx tx' \<Longrightarrow> severity_kept tx' tx'' \<Longrightarrow> severity_kept tx tx''"
  by (auto simp: severity_kept_def min_severity_def)

lemma severity_kept_vars:
  "vars_only tx tx' \<Longrightarrow> singles (tx_variables tx') V_HighestSeverity = singles (tx_variables tx) V_HighestSeverity \<Longrightarrow>
   severity_kept tx tx'"
  by (intro severity_kept_same) (simp_all add: vars_only_fields highest_severity_def get_single_def)

lemma severity_kept_ctl: "severity_kept tx (ctl_Evaluate ct w c tx)"
proof (rule ctl_Evaluate_rel [where P = severity_kept])
  show "severity_kept tx tx''" if "severity_kept tx tx'" "severity_kept tx' tx''" for tx tx' tx''
    using that by (rule severity_kept_trans)
  show "severity_kept tx (RemoveRuleTargetByID i v k x tx)" for tx i v k x
    using add_target_fields [of i v k x tx] by (auto simp: highest_severity_def get_single_def intro!: severity_kept_same)
  show "severity_kept tx (ctl_Evaluate ct w c tx)" if "ctl_action c = ctlRuleEngine"
    using that
    by (auto simp: ctl_Evaluate_def Let_def or_unchanged_def highest_severity_def get_single_def
        intro!: severity_kept_same split: sum.splits)
qed (auto simp: highest_severity_def get_single_def RemoveRuleByID_def RemoveRuleByIDRange_def set_single_def
    intro!: severity_kept_same)

lemma singles_setvar: "singles (tx_variables (evaluateTxCollection ct a k v tx)) = singles (tx_variables tx)"
  by (simp add: evaluateTxCollection_def split: option.splits)

lemma severity_kept_action: "action_Evaluate ct w r a tx = Some tx' \<Longrightarrow> severity_kept tx tx'"
  by (cases a)
    (auto simp: action_Evaluate_def severity_kept_ctl deny_Evaluate_def drop_Evaluate_def redirect_Evaluate_def Let_def
      setenv_Evaluate_def setvar_Evaluate_def vars_only_setvar singles_setvar split: option.splits intro: severity_kept_vars,
     auto simp: Interrupt_def Allow_def highest_severity_def get_single_def intro!: severity_kept_same
      split: rule_engine_status.splits)

lemma severity_kept_MatchRule: "severity_kept tx (MatchRule w r mds tx)"
proof -
  have "atoi (itoa (severity_int s)) = (severity_int s, False)" for s
    by (rule atoi_itoa) (cases s; simp add: min_int64_def max_int64_def)+
  then show ?thesis
    by (auto simp: severity_kept_def MatchRule_def update_severity_def Let_def min_severity_def highest_severity_def
        new_matched_rule_def get_single_def set_single_def)
qed

interpretation severity: eval_steps env w severity_kept "\<lambda>_. True" for env w
proof unfold_locales
  show "severity_kept tx tx'" if "op_effect (ev_ct env) tx tx'" for tx tx'
    using that by (auto simp: op_effect_def intro: severity_kept_vars)
  show "severity_kept tx (set_rule_index (ev_ct env) k v tx)" for k v tx
    by (auto simp: set_rule_index_def intro: severity_kept_vars)
  show "severity_kept tx (reset_matched_vars tx)" for tx
    by (auto simp: reset_matched_vars_def intro: severity_kept_vars severity_kept_same)
  show "severity_kept tx tx''" if "severity_kept tx tx'" "severity_kept tx' tx''" for tx tx' tx''
    using that by (rule severity_kept_trans)
  show "severity_kept tx (matchVariable (ev_ct env) m tx)" for m tx
    by (rule severity_kept_vars [OF vars_only_matchVariable]) (simp add: matchVariable_def Let_def set_single_def)
qed (auto intro: severity_kept_action severity_kept_MatchRule,
  auto simp: highest_severity_def get_single_def set_caches_def intro!: severity_kept_same)

end
