(* ===== verification/Engine_Flow.thy ===== *)
theory Engine_Flow
  imports Engine
begin

text \<open>
  The flow of the rule engine: that evaluation returns for well-formed rules, which rules of a
  phase are evaluated, and what a phase may do to a transaction.
\<close>

section \<open>Evaluation returns\<close>

text \<open>
  The panics of the evaluation are an operator that panics, a macro that refers to \<open>JSON\<close>, and a
  \<open>setvar\<close> or \<open>setenv\<close> without a value.
\<close>

definition optional_safe :: "macro option \<Rightarrow> bool" where
  "optional_safe m = (case m of Some m \<Rightarrow> macro_safe m | None \<Rightarrow> True)"

definition present_safe :: "macro option \<Rightarrow> bool" where
  "present_safe m = (case m of Some m \<Rightarrow> macro_safe m | None \<Rightarrow> False)"

definition action_safe :: "action \<Rightarrow> bool" where
  "action_safe a =
     (case a of
        setenvFn k m \<Rightarrow> present_safe m
      | setvarFn s \<Rightarrow> present_safe (sv_key s) \<and> present_safe (sv_value s)
      | _ \<Rightarrow> True)"

definition params_safe :: "rule_params \<Rightarrow> bool" where
  "params_safe r =
     (optional_safe (r_Msg r) \<and> optional_safe (r_LogData r) \<and> list_all (\<lambda>a. action_safe (snd a)) (r_actions r) \<and>
      (case r_operator r of Some op \<Rightarrow> op_safe (rop_Operator op) | None \<Rightarrow> True))"

definition rule_safe :: "rule \<Rightarrow> bool" where
  "rule_safe rl = list_all params_safe (chain_rules rl)"

lemma expand_optional_total: "optional_safe m \<Longrightarrow> \<exists>x. expand_optional ct tx m old = Some x"
  using Expand_safe by (auto simp: optional_safe_def expand_optional_def split: option.splits)

lemma expand_match_total: "params_safe r \<Longrightarrow> \<exists>md'. expand_match ct r tx md = Some md'"
  using expand_optional_total [of "r_Msg r" ct tx "md_Message md"] expand_optional_total [of "r_LogData r" ct tx "md_Data md"]
  by (auto simp: params_safe_def expand_match_def)

lemma set_rule_macro_total: "optional_safe m \<Longrightarrow> \<exists>tx'. set_rule_macro ct k m tx = Some tx'"
  using Expand_safe by (auto simp: optional_safe_def set_rule_macro_def split: option.splits)

lemma set_rule_variables_total: "params_safe r \<Longrightarrow> \<exists>tx'. set_rule_variables ct r tx = Some tx'"
proof -
  assume "params_safe r"
  then have m: "optional_safe (r_Msg r)" "optional_safe (r_LogData r)" by (auto simp: params_safe_def)
  obtain tx1 where 1: "set_rule_macro ct ''msg'' (r_Msg r) (set_rule_index ct ''id'' (rm_LogID (r_metadata r)) tx) = Some tx1"
    using set_rule_macro_total [OF m(1)] by blast
  obtain tx2 where 2: "set_rule_macro ct ''logdata'' (r_LogData r) (set_rule_index ct ''rev'' (rm_Rev (r_metadata r)) tx1) = Some tx2"
    using set_rule_macro_total [OF m(2)] by blast
  show ?thesis by (simp add: set_rule_variables_def 1 2)
qed

lemma action_Evaluate_total: "action_safe a \<Longrightarrow> \<exists>tx'. action_Evaluate ct w r a tx = Some tx'"
proof (cases a)
  case (setenvFn k m)
  then show "action_safe a \<Longrightarrow> ?thesis"
    using Expand_safe [of "the m" ct tx]
    by (cases m) (auto simp: action_safe_def present_safe_def action_Evaluate_def setenv_Evaluate_def)
next
  case (setvarFn s)
  then show "action_safe a \<Longrightarrow> ?thesis"
    using Expand_safe [of "the (sv_key s)" ct tx] Expand_safe [of "the (sv_value s)" ct tx]
    by (cases "sv_key s"; cases "sv_value s")
      (auto simp: action_safe_def present_safe_def action_Evaluate_def setvar_Evaluate_def)
qed (simp_all add: action_Evaluate_def)

lemma run_actions_total: "list_all (\<lambda>a. action_safe (snd a)) as \<Longrightarrow> \<exists>tx'. run_actions ct w r p as tx = Some tx'"
proof (induction as arbitrary: tx)
  case (Cons a as)
  then show ?case using action_Evaluate_total [of "snd a" ct w r tx] by auto
qed simp

lemma Rule_matchVariable_total: "params_safe r \<Longrightarrow> \<exists>tx'. Rule_matchVariable ct w r m tx = Some tx'"
  by (simp add: Rule_matchVariable_def params_safe_def run_actions_total)

lemma eval_arg_total:
  assumes "params_safe r" "op_safe (rop_Operator op)"
  shows "\<exists>st'. eval_arg env w r op level arg carg st = Some st'"
proof -
  obtain b tx1 where o1: "executeOperator env op carg (snd st) = Some (b, tx1)"
    using op_Evaluate_safe [OF assms(2), of "ev_ct env" "ev_ft env" "snd st" carg] by (auto simp: executeOperator_def)
  let ?mr = "\<lparr>md_Variable = Variable arg, md_Key = Key arg, md_Value = carg, md_Message = [], md_Data = [], md_ChainLevel = level\<rparr>"
  obtain tx2 where m: "Rule_matchVariable (ev_ct env) w r ?mr tx1 = Some tx2"
    using Rule_matchVariable_total [OF assms(1)] by blast
  obtain md where "expand_match (ev_ct env) r tx2 ?mr = Some md" using expand_match_total [OF assms(1)] by blast
  with o1 m show ?thesis by (simp add: eval_arg_def Let_def)
qed

lemma match_self_total:
  assumes "params_safe r"
  shows "\<exists>res. match_self env w level r tx = Some res"
proof -
  obtain tx1 where s: "set_rule_variables (ev_ct env) r (tx\<lparr>tx_Capture := r_Capture r\<rparr>) = Some tx1"
    using set_rule_variables_total [OF assms] by blast
  show ?thesis
  proof (cases "r_operator r")
    case None
    let ?md = "new_match_data V_Unknown [] []"
    obtain md where e: "expand_match (ev_ct env) r tx1 ?md = Some md"
      using expand_match_total [OF assms] by blast
    obtain a where a: "Rule_matchVariable (ev_ct env) w r md tx1 = Some a" using Rule_matchVariable_total [OF assms] by blast
    obtain b where b: "Rule_matchVariable (ev_ct env) w r ?md tx1 = Some b" using Rule_matchVariable_total [OF assms] by blast
    from None s e a b show ?thesis by (simp add: match_self_def)
  next
    case (Some op)
    then have op: "op_safe (rop_Operator op)" using assms by (simp add: params_safe_def)
    have "\<exists>st'. eval_value env w r op level arg st = Some st'" for arg st
      unfolding eval_value_def case_prod_unfold by (rule fold_option_total) (rule eval_arg_total [OF assms op])
    then have "\<exists>st'. eval_variable env w r op level ecol v st = Some st'" for ecol v st
      unfolding eval_variable_def by (rule fold_option_total)
    then have "\<exists>st'. fold_option (eval_variable env w r op level ecol) (r_variables r) ([], tx1) = Some st'" for ecol
      by (rule fold_option_total)
    then show ?thesis unfolding match_self_def s Some by simp
  qed
qed

lemma finish_rule_total: "params_safe r \<Longrightarrow> \<exists>res. finish_rule env w r mvs tx = Some res"
  using expand_match_total [of r "ev_ct env" tx "hd mvs"]
    run_actions_total [of "r_actions r" "ev_ct env" w r is_flow_or_disruptive tx]
  by (auto simp: finish_rule_def params_safe_def)

lemma doEvaluate_total:
  "rule_safe rl \<Longrightarrow>
     (\<forall>level tx. \<exists>res. doEvaluate env w level rl tx = Some res) \<and>
     (\<forall>level mvs tx. \<exists>res. evalChain env w level (Some rl) mvs tx = Some res)"
proof (induction rl)
  case (Rule r ch)
  then have r: "params_safe r" by (simp add: rule_safe_def chain_rules_Rule)
  have chain: "\<exists>res. evalChain env w level ch mvs tx = Some res" for level mvs tx
    using Rule by (cases ch) (auto simp: rule_safe_def chain_rules_Rule)
  have d: "\<exists>res. doEvaluate env w level (Rule r ch) tx = Some res" for level tx
  proof -
    obtain mvs tx1 where m: "match_self env w level r tx = Some (mvs, tx1)" using match_self_total [OF r] by fastforce
    obtain res tx2 where c: "evalChain env w (level + 1) ch mvs tx1 = Some (res, tx2)" using chain by fastforce
    show ?thesis using m c finish_rule_total [OF r] by (cases res) auto
  qed
  have "\<exists>res. evalChain env w level (Some (Rule r ch)) mvs tx = Some res" for level mvs tx
  proof -
    obtain m tx1 where m: "doEvaluate env w level (Rule r ch) tx = Some (m, tx1)" using d by fastforce
    show ?thesis unfolding evalChain.simps m using chain by simp
  qed
  with d show ?case by blast
qed

lemma evaluate_rule_total: "rule_safe rl \<Longrightarrow> \<exists>tx'. evaluate_rule env w rl tx = Some tx'"
proof -
  assume "rule_safe rl"
  then obtain res where "doEvaluate env w 0 rl (reset_matched_vars tx) = Some res" using doEvaluate_total by blast
  then show ?thesis unfolding evaluate_rule_def by (cases res) simp
qed

lemma eval_rules_total: "list_all rule_safe rls \<Longrightarrow> \<exists>tx'. eval_rules env w phase rls tx = Some tx'"
proof (induction rls arbitrary: tx)
  case (Cons rl rls)
  obtain tx1 where "evaluate_rule env w rl tx = Some tx1" using evaluate_rule_total Cons.prems by fastforce
  with Cons show ?case by (auto simp: Let_def split: allow_type.split)
qed simp

section \<open>Which rules are evaluated\<close>

lemma eval_rules_interrupted: "IsInterrupted tx \<Longrightarrow> phase \<noteq> PhaseLogging \<Longrightarrow> eval_rules env w phase rls tx = Some tx"
  by (cases rls) (simp_all add: Let_def)

lemma eval_rules_stop:
  assumes "phase \<noteq> PhaseLogging" "eval_rules env w phase pre tx = Some tx'" "IsInterrupted tx'"
  shows "eval_rules env w phase (pre @ post) tx = Some tx'"
  using assms(2)
proof (induction pre arbitrary: tx)
  case Nil
  then show ?case using assms by (simp add: eval_rules_interrupted)
next
  case (Cons rl pre)
  have x: "do { tx1 \<leftarrow> evaluate_rule env w rl tx; eval_rules env w phase (pre @ post) tx1 } = Some tx'"
    if "do { tx1 \<leftarrow> evaluate_rule env w rl tx; eval_rules env w phase pre tx1 } = Some tx'"
    using that Cons.IH by (auto split: Option.bind_splits)
  show ?case
    using Cons assms(1,3) x
    by (auto simp: Let_def IsInterrupted_def split: if_splits allow_type.splits)
qed

definition rule_of_phase :: "rule_phase \<Rightarrow> rule \<Rightarrow> bool" where
  "rule_of_phase phase rl = (r_Phase (rule_of rl) = PhaseUnknown \<or> r_Phase (rule_of rl) = phase)"

lemma eval_rules_filter:
  "(\<And>i. P i \<Longrightarrow> rule_removed tx i) \<Longrightarrow>
   eval_rules env w phase (filter (\<lambda>rl. rule_of_phase phase rl \<and> \<not> P (r_ID (rule_of rl))) rls) tx = eval_rules env w phase rls tx"
proof (induction rls arbitrary: tx)
  case (Cons rl rls)
  let ?f = "filter (\<lambda>rl. rule_of_phase phase rl \<and> \<not> P (r_ID (rule_of rl)))"
  show ?case
  proof (cases "IsInterrupted tx \<and> phase \<noteq> PhaseLogging")
    case True
    then show ?thesis by (auto simp: eval_rules_interrupted simp del: eval_rules.simps filter.simps)
  next
    case False
    have run: "do { tx1 \<leftarrow> evaluate_rule env w rl tx; eval_rules env w phase (?f rls) tx1 } =
        do { tx1 \<leftarrow> evaluate_rule env w rl tx; eval_rules env w phase rls tx1 }"
    proof (cases "evaluate_rule env w rl tx")
      case (Some tx1)
      then have "tx_evolves (ev_ct env) tx tx1"
        by (intro evolves.evaluate_rule_R [of rl]) (simp_all add: evolves.actions_ok_def list_all_iff)
      then have "rule_removed tx1 i" if "P i" for i using Cons.prems that by (auto simp: tx_evolves_def)
      with Cons.IH Some show ?thesis by simp
    qed simp
    have r: "rule_removed (tx\<lparr>tx_SkipAfter := x\<rparr>) i" "rule_removed (tx\<lparr>tx_Skip := n\<rparr>) i" if "P i" for i x n
      using Cons.prems that by (auto simp: rule_removed_def)
    have IH: "eval_rules env w phase (?f rls) tx = eval_rules env w phase rls tx"
      "eval_rules env w phase (?f rls) (tx\<lparr>tx_SkipAfter := []\<rparr>) = eval_rules env w phase rls (tx\<lparr>tx_SkipAfter := []\<rparr>)"
      "eval_rules env w phase (?f rls) (tx\<lparr>tx_Skip := tx_Skip tx - 1\<rparr>) = eval_rules env w phase rls (tx\<lparr>tx_Skip := tx_Skip tx - 1\<rparr>)"
      by (rule Cons.IH; blast intro: Cons.prems r)+
    show ?thesis
    proof (cases "rule_of_phase phase rl \<and> \<not> P (r_ID (rule_of rl))")
      case True
      then have f: "?f (rl # rls) = rl # ?f rls" by simp
      show ?thesis unfolding f eval_rules.simps Let_def run IH if_distrib [of "eval_rules env w phase rls"]
          if_distrib [of "eval_rules env w phase (?f rls)"] by (rule refl)
    next
      case drop: False
      then have "eval_rules env w phase (rl # rls) tx = eval_rules env w phase rls tx"
        using False Cons.prems [of "r_ID (rule_of rl)"] by (auto simp: rule_of_phase_def Let_def)
      moreover have "?f (rl # rls) = ?f rls" using drop by simp
      ultimately show ?thesis using IH(1) by simp
    qed
  qed
qed simp

lemma eval_rules_skip_after:
  assumes "\<not> IsInterrupted tx \<or> phase = PhaseLogging" "tx_SkipAfter tx \<noteq> []"
    and "list_all (\<lambda>rl. rm_SecMark (r_metadata (rule_of rl)) \<noteq> tx_SkipAfter tx) pre"
  shows "eval_rules env w phase (pre @ post) tx = eval_rules env w phase post tx"
  using assms(3) by (induction pre) (use assms(1,2) in \<open>auto simp: Let_def\<close>)

lemma eval_rules_lost_marker:
  assumes "tx_SkipAfter tx \<noteq> []"
    and "list_all (\<lambda>rl. rm_SecMark (r_metadata (rule_of rl)) = tx_SkipAfter tx \<longrightarrow> rule_removed tx (r_ID (rule_of rl))) rls"
  shows "eval_rules env w phase rls tx = Some tx"
  using assms(2) by (induction rls) (use assms(1) in \<open>auto simp: Let_def\<close>)

lemma eval_rules_allow_all:
  "tx_AllowType tx = AllowTypeAll \<Longrightarrow> tx_SkipAfter tx = [] \<Longrightarrow> tx_Skip tx \<le> 0 \<Longrightarrow> eval_rules env w phase rls tx = Some tx"
  by (induction rls) (auto simp: Let_def)

section \<open>Phases\<close>

lemma Eval_SomeD:
  assumes "Eval env w phase tx = Some (b, tx')"
  obtains tx1 where "eval_rules env w phase (waf_Rules w) (resetTransformationCaches (tx\<lparr>tx_lastPhase := phase\<rparr>)) = Some tx1"
    "tx' = (if tx_AllowType tx1 = AllowTypePhase then tx1\<lparr>tx_AllowType := AllowTypeUnset\<rparr> else tx1)\<lparr>tx_Skip := 0\<rparr>"
    "b = IsInterrupted tx'"
  using assms by (auto simp: Eval_def Let_def split: Option.bind_splits)

lemma Eval_evolves:
  assumes "Eval env w phase tx = Some (b, tx')"
  shows "tx_evolves (ev_ct env) (tx\<lparr>tx_lastPhase := phase\<rparr>) tx'"
  using assms
proof (cases rule: Eval_SomeD)
  case (1 tx1)
  have "tx_evolves (ev_ct env) (tx\<lparr>tx_lastPhase := phase\<rparr>) (resetTransformationCaches (tx\<lparr>tx_lastPhase := phase\<rparr>))"
    by (simp add: tx_evolves_def resetTransformationCaches_def interrupt_defs rule_removed_def)
  moreover have "tx_evolves (ev_ct env) (resetTransformationCaches (tx\<lparr>tx_lastPhase := phase\<rparr>)) tx1"
    by (rule evolves.eval_rules_R [OF _ 1(1)]) (simp add: evolves.actions_ok_def list_all_iff)
  moreover have "tx_evolves (ev_ct env) tx1 tx'"
    using 1(2) by (auto simp: tx_evolves_def interrupt_defs rule_removed_def)
  ultimately show ?thesis by (blast intro: tx_evolves_trans)
qed

lemma Eval_detects:
  assumes "Eval env w phase tx = Some (b, tx')"
    and "list_all (\<lambda>rl. list_all (\<lambda>r. list_all (\<lambda>a. keeps_engine (snd a)) (r_actions r)) (chain_rules rl)) (waf_Rules w)"
  shows "detects tx tx'"
  using assms(1)
proof (cases rule: Eval_SomeD)
  case (1 tx1)
  have "detects (resetTransformationCaches (tx\<lparr>tx_lastPhase := phase\<rparr>)) tx1"
    by (rule detection.eval_rules_R [OF _ 1(1)]) (use assms(2) in \<open>simp add: detection.actions_ok_def list_all_iff\<close>)
  then show ?thesis using 1(2) by (auto simp: detects_def resetTransformationCaches_def)
qed

lemma Eval_severity:
  assumes "Eval env w phase tx = Some (b, tx')"
  shows "severity_kept tx tx'"
  using assms
proof (cases rule: Eval_SomeD)
  case (1 tx1)
  have "severity_kept (resetTransformationCaches (tx\<lparr>tx_lastPhase := phase\<rparr>)) tx1"
    by (rule severity.eval_rules_R [OF _ 1(1)]) (simp add: severity.actions_ok_def list_all_iff)
  then show ?thesis
    using 1(2) by (auto simp: severity_kept_def resetTransformationCaches_def highest_severity_def get_single_def)
qed

end
