(* ===== verification/Engine_Properties.thy ===== *)
theory Engine_Properties
  imports Engine_Flow
begin

text \<open>The properties of the rule engine, with rules for their witnesses.\<close>

lemma Eval_total: "list_all rule_safe (waf_Rules w) \<Longrightarrow> \<exists>b tx'. Eval env w phase tx = Some (b, tx')"
  using eval_rules_total [of "waf_Rules w" env w phase "resetTransformationCaches (tx\<lparr>tx_lastPhase := phase\<rparr>)"]
  by (auto simp: Eval_def Let_def)

lemma rule_removed_RemoveRuleByID [simp]: "rule_removed (RemoveRuleByID i tx) j \<longleftrightarrow> i = j \<or> rule_removed tx j"
  by (auto simp: rule_removed_def RemoveRuleByID_def)

text \<open>Rules for the witnesses: an unconditional denial with an identifier, and a marker.\<close>

definition sample_env :: eval_env where
  "sample_env = \<lparr>ev_ct = (\<lambda>r. r), ev_ft = (\<lambda>r. r), ev_data = bytes_value\<rparr>"

definition sample_waf :: "rule list \<Rightarrow> waf" where
  "sample_waf rules = waf_config.extend sample_waf_config (waf.fields rules)"

lemma sample_waf_Rules [simp]: "waf_Rules (sample_waf rules) = rules"
  by (simp add: sample_waf_def waf_config.defs waf.defs)

definition deny_rule :: rule where
  "deny_rule =
     Rule (NewRule\<lparr>r_metadata := (r_metadata NewRule)\<lparr>rm_ID := 1, rm_Phase := PhaseRequestHeaders, rm_Severity := RuleSeverityCritical\<rparr>,
       r_actions := [(''deny'', denyFn)]\<rparr>) None"

definition marker_rule :: "string \<Rightarrow> rule" where
  "marker_rule m = Rule (NewRule\<lparr>r_metadata := (r_metadata NewRule)\<lparr>rm_Phase := PhaseUnknown, rm_SecMark := m\<rparr>\<rparr>) None"

lemmas sample_rule_defs = deny_rule_def marker_rule_def NewRule_def rule_safe_def params_safe_def optional_safe_def
  action_safe_def

lemma sample_rules_safe: "list_all rule_safe (waf_Rules (sample_waf [deny_rule, marker_rule m]))"
  by (simp add: sample_rule_defs)

lemma sample_Eval: "\<exists>b tx'. Eval sample_env (sample_waf [deny_rule, marker_rule m]) phase tx = Some (b, tx')"
  by (rule Eval_total [OF sample_rules_safe])

section \<open>Properties\<close>



text \<open>
  C9: What a phase keeps. After the evaluation of a phase the last phase is that phase, no skip is
  pending and no \<open>allow:phase\<close> is in force; the verdict says whether there is an interruption. The
  identity and the bodies of the transaction are unchanged, matched rules and removed rules only
  grow, an interruption is never withdrawn, and the variables stay well-formed.
\<close>

theorem Eval_keeps_invariant:
  assumes "Eval env w phase tx = Some (b, tx')"
  shows "tx_lastPhase tx' = phase \<and> tx_Skip tx' = 0 \<and> tx_AllowType tx' \<noteq> AllowTypePhase \<and> b = IsInterrupted tx' \<and>
    tx_evolves (ev_ct env) (tx\<lparr>tx_lastPhase := phase\<rparr>) tx'"
  using assms Eval_evolves [OF assms]
  by (cases rule: Eval_SomeD) (auto simp: tx_evolves_def)

theorem Eval_keeps_invariant_witness:
  "\<exists>b tx'. Eval sample_env (sample_waf [deny_rule, marker_rule ''END'']) PhaseRequestHeaders sample_transaction = Some (b, tx') \<and>
     tx_lastPhase tx' = PhaseRequestHeaders"
  using sample_Eval [of "''END''" PhaseRequestHeaders sample_transaction] Eval_keeps_invariant by blast

text \<open>
  C11: An interruption ends the phase. Outside the logging phase, once the rules evaluated so far
  have interrupted the transaction no later rule of the group is evaluated.
\<close>

theorem interruption_stops_rules:
  assumes "phase \<noteq> PhaseLogging" "eval_rules env w phase pre tx = Some tx'" "IsInterrupted tx'"
  shows "eval_rules env w phase (pre @ post) tx = Some tx'"
  by (rule eval_rules_stop [OF assms])

theorem interruption_stops_rules_witness:
  "eval_rules sample_env (sample_waf []) PhaseRequestBody ([] @ [deny_rule]) (sample_transaction\<lparr>tx_interruption := Some \<lparr>i_RuleID = 1, i_Action = ''deny'', i_Status = 403, i_Data = []\<rparr>\<rparr>) =
     Some (sample_transaction\<lparr>tx_interruption := Some \<lparr>i_RuleID = 1, i_Action = ''deny'', i_Status = 403, i_Data = []\<rparr>\<rparr>)"
  by (rule interruption_stops_rules) (simp_all add: IsInterrupted_def)

text \<open>
  Removed rules and rules of other phases are inert. Evaluating the rules of a phase is the
  same as evaluating only those of the phase that the transaction has not removed, by identifier
  or by range, when the phase begins.
\<close>

theorem inert_rules_skipped:
  "eval_rules env w phase rules tx =
     eval_rules env w phase (filter (\<lambda>rl. rule_of_phase phase rl \<and> \<not> rule_removed tx (r_ID (rule_of rl))) rules) tx"
  by (simp add: eval_rules_filter)



text \<open>
  A rule without an identifier that is removed takes the markers with it. \<open>ctl:ruleRemoveByTag\<close>
  on a tag of a rule whose identifier is 0 removes identifier 0, which markers bear too; from then
  on an awaited marker is never found and no further rule is evaluated.
\<close>

theorem removed_zero_id_hides_markers:
  assumes "\<exists>rl \<in> set (waf_Rules w). r_ID (rule_of rl) = 0 \<and> has_tag t (rule_of rl)"
    and "ctl_action c = ctlRuleRemoveByTag" "ctl_value c = t"
    and "tx_SkipAfter tx \<noteq> []"
    and "list_all (\<lambda>rl. rm_SecMark (r_metadata (rule_of rl)) = tx_SkipAfter tx \<longrightarrow> r_ID (rule_of rl) = 0) rules"
  shows "eval_rules env w phase rules (ctl_Evaluate ct w c tx) = Some (ctl_Evaluate ct w c tx)"
proof -
  have "rule_removed (fold (\<lambda>r tx. if has_tag t (rule_of r) then RemoveRuleByID (r_ID (rule_of r)) tx else tx) rls tx) 0"
    if "rule_removed tx 0 \<or> (\<exists>rl \<in> set rls. r_ID (rule_of rl) = 0 \<and> has_tag t (rule_of rl))" for rls tx
    using that by (induction rls arbitrary: tx) auto
  then have "rule_removed (ctl_Evaluate ct w c tx) 0"
    using assms(1-3) by (simp add: ctl_Evaluate_def for_rules_def)
  moreover have "tx_SkipAfter (ctl_Evaluate ct w c tx) = tx_SkipAfter tx"
    using same_course_ctl [of tx ct w c] by (simp add: same_course_def)
  ultimately show ?thesis using assms(4,5) by (intro eval_rules_lost_marker) (auto simp: list_all_iff)
qed

theorem removed_zero_id_hides_markers_witness:
  "eval_rules sample_env
     (sample_waf [Rule (NewRule\<lparr>r_metadata := (r_metadata NewRule)\<lparr>rm_Tags := [''a'']\<rparr>\<rparr>) None]) PhaseRequestBody [marker_rule ''END'', deny_rule]
     (ctl_Evaluate (\<lambda>r. r) (sample_waf [Rule (NewRule\<lparr>r_metadata := (r_metadata NewRule)\<lparr>rm_Tags := [''a'']\<rparr>\<rparr>) None])
        (zero_ctl\<lparr>ctl_action := ctlRuleRemoveByTag, ctl_value := ''a''\<rparr>) (sample_transaction\<lparr>tx_SkipAfter := ''END''\<rparr>)) =
   Some (ctl_Evaluate (\<lambda>r. r) (sample_waf [Rule (NewRule\<lparr>r_metadata := (r_metadata NewRule)\<lparr>rm_Tags := [''a'']\<rparr>\<rparr>) None])
        (zero_ctl\<lparr>ctl_action := ctlRuleRemoveByTag, ctl_value := ''a''\<rparr>) (sample_transaction\<lparr>tx_SkipAfter := ''END''\<rparr>))"
  by (rule removed_zero_id_hides_markers [where t = "''a''"])
    (simp_all add: NewRule_def has_tag_def InSlice_def marker_rule_def deny_rule_def zero_ctl_def)

text \<open>
  \<open>allow\<close> without an argument skips every phase, the logging phase included. With it in force
  and nothing else pending, no rule of any phase is evaluated.
\<close>

theorem allow_all_skips_every_phase:
  assumes "tx_AllowType tx = AllowTypeAll" "tx_SkipAfter tx = []" "tx_Skip tx = 0"
  shows "Eval env w phase tx = Some (IsInterrupted tx, resetTransformationCaches (tx\<lparr>tx_lastPhase := phase, tx_Skip := 0\<rparr>))"
  using assms by (simp add: Eval_def eval_rules_allow_all resetTransformationCaches_def IsInterrupted_def)

theorem allow_all_skips_every_phase_witness:
  "Eval sample_env (sample_waf [deny_rule]) PhaseLogging (sample_transaction\<lparr>tx_AllowType := AllowTypeAll\<rparr>) =
     Some (IsInterrupted (sample_transaction\<lparr>tx_AllowType := AllowTypeAll\<rparr>),
       resetTransformationCaches (sample_transaction\<lparr>tx_AllowType := AllowTypeAll, tx_lastPhase := PhaseLogging, tx_Skip := 0\<rparr>))"
  by (rule allow_all_skips_every_phase) (simp_all add: sample_transaction_def zero_transaction_def Let_def)

text \<open>
  C12: An engine that is not on never blocks. When the engine of the transaction is off or in
  detection-only mode and no rule has a \<open>ctl:ruleEngine\<close> action, the evaluation of a phase leaves
  the engine mode and the interruption as they were.
\<close>

theorem detection_only_never_interrupts:
  assumes "tx_RuleEngine tx \<noteq> RuleEngineOn"
    and "list_all (\<lambda>rl. list_all (\<lambda>r. list_all (\<lambda>a. keeps_engine (snd a)) (r_actions r)) (chain_rules rl)) (waf_Rules w)"
    and "Eval env w phase tx = Some (b, tx')"
  shows "tx_RuleEngine tx' = tx_RuleEngine tx \<and> tx_interruption tx' = tx_interruption tx"
  using Eval_detects [OF assms(3,2)] assms(1) by (simp add: detects_def)

theorem detection_only_never_interrupts_witness:
  "\<exists>b tx'. Eval sample_env (sample_waf [deny_rule, marker_rule ''END'']) PhaseRequestHeaders
       (sample_transaction\<lparr>tx_RuleEngine := RuleEngineDetectionOnly, tx_interruption := None\<rparr>) = Some (b, tx') \<and>
     tx_interruption tx' = None"
proof -
  let ?tx = "sample_transaction\<lparr>tx_RuleEngine := RuleEngineDetectionOnly, tx_interruption := None\<rparr>"
  obtain b tx' where e: "Eval sample_env (sample_waf [deny_rule, marker_rule ''END'']) PhaseRequestHeaders ?tx = Some (b, tx')"
    using sample_Eval by blast
  have "tx_RuleEngine tx' = tx_RuleEngine ?tx \<and> tx_interruption tx' = tx_interruption ?tx"
    by (rule detection_only_never_interrupts [OF _ _ e]) (simp_all add: sample_rule_defs keeps_engine_def)
  with e show ?thesis by auto
qed



text \<open>
  C25: \<open>HIGHEST_SEVERITY\<close> is the smallest severity matched. After a phase its value is the minimum
  of its value before and the severities of the rules the phase recorded, rules without a severity
  aside.
\<close>

theorem highest_severity_is_minimum:
  assumes "Eval env w phase tx = Some (b, tx')"
  shows "\<exists>new. tx_matchedRules tx' = tx_matchedRules tx @ new \<and> highest_severity tx' = min_severity new (highest_severity tx)"
  using Eval_severity [OF assms] by (simp add: severity_kept_def)

theorem highest_severity_is_minimum_witness:
  "\<exists>b tx' new. Eval sample_env (sample_waf [deny_rule, marker_rule ''END'']) PhaseRequestHeaders sample_transaction = Some (b, tx') \<and>
     tx_matchedRules tx' = tx_matchedRules sample_transaction @ new \<and>
     highest_severity tx' = min_severity new (highest_severity sample_transaction)"
  using sample_Eval [of "''END''" PhaseRequestHeaders sample_transaction] highest_severity_is_minimum by blast

text \<open>
  Removing a variable with \<open>setvar\<close> panics. The parameter of \<open>setvar:!tx.score\<close> is accepted, and
  the evaluation of the action it configures panics on every transaction, because its value is nil.
\<close>

theorem setvar_removal_panics:
  "\<exists>a. setvar_Init ct r ''!tx.score'' = Inr (r, a) \<and> (\<forall>w tx. action_Evaluate ct w r a tx = None)"
proof -
  have t: "trim_space ''score'' = ''score''"
    by (simp add: trim_space_def rune_chunks_ascii_Cons unicode_is_space_def)
  have u: "to_upper ct ''tx'' = ''TX''" by (simp add: to_upper_def is_ascii_def upper_byte_def byte_class_defs less_eq_char_def byte_eval)
  have m: "NewMacro ct ''score'' = Inr \<lparr>macro_original = ''score'', macro_tokens = [\<lparr>tok_text = ''score'', tok_variable = V_Unknown, tok_key = []\<rparr>]\<rparr>"
    by (rule NewMacro_literal) (simp_all add: has_prefix_def)
  show ?thesis
    by (simp add: setvar_Init_def need_args_def cut_def t u m Parse_tx action_Evaluate_def setvar_Evaluate_def)
qed

end
