(* ===== verification/Waf.thy ===== *)
theory Waf
  imports Engine_Flow
begin

text \<open>
  The WAF of \<open>internal/corazawaf/waf.go\<close>: its default configuration, the validation of a
  configuration, and the transactions it hands out and takes back through its pool. A pooled
  transaction is \<open>None\<close> when \<open>new(Transaction)\<close> supplies it, which has no buffers yet. The clock
  and the zone of the local time are arguments.
\<close>

section \<open>Configuration\<close>

definition DefaultRequestBodyJsonDepthLimit :: int where "DefaultRequestBodyJsonDepthLimit = 1024"

definition defaultHighestSeverity :: int where "defaultHighestSeverity = 255"

definition gib1 :: int where "gib1 = 1073741824"

definition NewConfig :: audit_log_config where
  "NewConfig = \<lparr>alc_Target = [], alc_FileMode = 420, alc_Dir = [], alc_DirMode = 493, alc_Formatter = ''native''\<rparr>"

definition NewWAF :: "bool \<Rightarrow> string \<Rightarrow> waf" where
  "NewWAF fs tempDir =
     \<lparr>waf_RequestBodyAccess = False, waf_RequestBodyLimit = 134217728,
      waf_RequestBodyJsonDepthLimit = DefaultRequestBodyJsonDepthLimit, waf_requestBodyInMemoryLimit = None,
      waf_ResponseBodyAccess = False, waf_ResponseBodyLimit = 524288, waf_RuleEngine = RuleEngineOn,
      waf_ResponseBodyMimeTypes = [], waf_WebAppID = [], waf_ComponentNames = [], waf_AbortOnRemoteRulesFail = False,
      waf_ServerSignature = [], waf_TmpDir = (if fs then tempDir else []), waf_SensorID = [], waf_DataDir = [],
      waf_UploadKeepFiles = UploadKeepFilesOff, waf_UploadFileMode = 0, waf_UploadFileLimit = 0, waf_UploadDir = [],
      waf_RequestBodyNoFilesLimit = 0, waf_RequestBodyLimitAction = BodyLimitActionReject,
      waf_ResponseBodyLimitAction = BodyLimitActionProcessPartial, waf_ArgumentSeparator = [], waf_ProducerConnector = [],
      waf_ProducerConnectorVersion = [], waf_LogLevel = 0, waf_ErrorLogCb = False, waf_AuditEngine = AuditEngineOn,
      waf_AuditLogParts = ''BCFH'', waf_AuditLogFormat = ''Native'',
      waf_AuditLogRelevantStatus = None, waf_auditLogWriter = ''serial'', waf_AuditLogWriterConfig = NewConfig,
      waf_auditLogWriterInitialized = False, waf_ArgumentLimit = 1000, waf_RxPreFilterEnabled = False, waf_Rules = []\<rparr>"

definition SetDebugLogLevel :: "int \<Rightarrow> waf \<Rightarrow> waf result" where
  "SetDebugLogLevel lvl w =
     (if \<not> (0 \<le> lvl \<and> lvl \<le> 9) then Inl (Error ''invalid log level'') else Inr (w\<lparr>waf_LogLevel := lvl\<rparr>))"

definition SetRequestBodyInMemoryLimit :: "int \<Rightarrow> waf \<Rightarrow> waf" where
  "SetRequestBodyInMemoryLimit limit w = w\<lparr>waf_requestBodyInMemoryLimit := Some limit\<rparr>"

text \<open>A new writer of the audit log takes the place of the old one, which is closed if it was in use.\<close>

definition SetAuditLogWriter :: "string \<Rightarrow> waf \<Rightarrow> waf" where
  "SetAuditLogWriter alw w = w\<lparr>waf_auditLogWriterInitialized := False, waf_auditLogWriter := alw\<rparr>"

text \<open>\<open>AuditLogWriter\<close> initialises the writer on first use; whether that succeeds is an argument.\<close>

definition AuditLogWriter :: "(string \<Rightarrow> audit_log_config \<Rightarrow> error option) \<Rightarrow> waf \<Rightarrow> string \<times> waf" where
  "AuditLogWriter init w =
     (waf_auditLogWriter w,
      if waf_auditLogWriterInitialized w then w
      else w\<lparr>waf_auditLogWriterInitialized := (init (waf_auditLogWriter w) (waf_AuditLogWriterConfig w) = None)\<rparr>)"

definition InitAuditLogWriter :: "(string \<Rightarrow> audit_log_config \<Rightarrow> error option) \<Rightarrow> waf \<Rightarrow> waf result" where
  "InitAuditLogWriter init w =
     (if waf_auditLogWriterInitialized w then Inl (Error ''audit log writer already initialized'')
      else case init (waf_auditLogWriter w) (waf_AuditLogWriterConfig w) of
        Some e \<Rightarrow> Inl e
      | None \<Rightarrow> Inr (w\<lparr>waf_auditLogWriterInitialized := True\<rparr>))"

definition Validate :: "bool \<Rightarrow> waf \<Rightarrow> error option" where
  "Validate fs w =
     (if waf_RequestBodyLimit w \<le> 0 then Some (Error ''request body limit should be bigger than 0'')
      else if gib1 < waf_RequestBodyLimit w then Some (Error ''request body limit should be at most 1GiB'')
      else if (case waf_requestBodyInMemoryLimit w of Some l \<Rightarrow> l \<le> 0 | None \<Rightarrow> False) then
        Some (Error ''request body memory limit should be bigger than 0'')
      else if (case waf_requestBodyInMemoryLimit w of Some l \<Rightarrow> waf_RequestBodyLimit w < l | None \<Rightarrow> False) then
        Some (Error ''request body limit should be at least the memory limit'')
      else if waf_ResponseBodyLimit w \<le> 0 then Some (Error ''response body limit should be bigger than 0'')
      else if gib1 < waf_ResponseBodyLimit w then Some (Error ''response body limit should be at most 1GiB'')
      else if waf_ArgumentLimit w \<le> 0 then Some (Error ''argument limit should be bigger than 0'')
      else if waf_RequestBodyJsonDepthLimit w \<le> 0 then Some (Error ''request body json depth limit should be bigger than 0'')
      else if fs then
        (if waf_UploadKeepFiles w \<noteq> UploadKeepFilesOff \<and> waf_UploadDir w = [] then
           Some (Error ''SecUploadDir is required when SecUploadKeepFiles is enabled'') else None)
      else if waf_UploadKeepFiles w \<noteq> UploadKeepFilesOff then
        Some (Error ''SecUploadKeepFiles requires filesystem access, which is not available in this build'')
      else None)"

section \<open>Time\<close>

text \<open>
  The civil date of a number of days since 1 January 1970, by eras of 400 years that begin on
  1 March: \<open>time.Time.Date\<close>.
\<close>

definition civil_from_days :: "int \<Rightarrow> int \<times> int \<times> int" where
  "civil_from_days z0 =
     (let z = z0 + 719468; era = z div 146097; doe = z mod 146097;
          yoe = (doe - doe div 1460 + doe div 36524 - doe div 146096) div 365;
          doy = doe - (365 * yoe + yoe div 4 - yoe div 100);
          mp = (5 * doy + 2) div 153;
          d = doy - (153 * mp + 2) div 5 + 1;
          m = (if mp < 10 then mp + 3 else mp - 9);
          y = yoe + era * 400 + (if m \<le> 2 then 1 else 0)
      in (y, m, d))"

definition two_digits :: "int \<Rightarrow> string" where
  "two_digits n = (if n < 10 then CHR ''0'' # itoa n else itoa n)"

text \<open>\<open>time.TimeOnly\<close> is the layout \<open>15:04:05\<close>; \<open>off\<close> is the offset of the local zone in seconds.\<close>

definition format_TimeOnly :: "int \<Rightarrow> string" where
  "format_TimeOnly secs =
     (let s = secs mod 86400
      in two_digits (s div 3600) @ '':'' @ two_digits (s div 60 mod 60) @ '':'' @ two_digits (s mod 60))"

definition setTimeVariables :: "int \<Rightarrow> transaction \<Rightarrow> transaction" where
  "setTimeVariables off tx =
     (let unix = tx_Timestamp tx div 1000000000; secs = unix + off; days = secs div 86400;
          timeOnly = format_TimeOnly secs;
          tx = set_single V_TimeEpoch (itoa unix) tx;
          tx = set_single V_Time timeOnly tx;
          tx = set_single V_TimeHour (take 2 timeOnly) tx;
          tx = set_single V_TimeMin (take 2 (drop 3 timeOnly)) tx;
          tx = set_single V_TimeSec (take 2 (drop 6 timeOnly)) tx
      in case civil_from_days days of (y, m, d) \<Rightarrow>
        set_single V_TimeWday (itoa ((days + 4) mod 7)) (set_single V_TimeYear (itoa y)
          (set_single V_TimeMon (itoa m) (set_single V_TimeDay (itoa d) tx))))"

section \<open>Transactions\<close>

definition request_buffer_options :: "waf \<Rightarrow> bb_options" where
  "request_buffer_options w =
     \<lparr>TmpPath = waf_TmpDir w,
      MemoryLimit = (case waf_requestBodyInMemoryLimit w of Some l \<Rightarrow> l | None \<Rightarrow> waf_RequestBodyLimit w),
      Limit = waf_RequestBodyLimit w\<rparr>"

definition response_buffer_options :: "waf \<Rightarrow> bb_options" where
  "response_buffer_options w =
     \<lparr>TmpPath = waf_TmpDir w, MemoryLimit = waf_ResponseBodyLimit w, Limit = waf_ResponseBodyLimit w\<rparr>"

text \<open>The transaction the pool supplies, with buffers, variables and caches.\<close>

definition pooled :: "waf \<Rightarrow> transaction option \<Rightarrow> transaction" where
  "pooled w t =
     (case t of
        Some tx \<Rightarrow> tx
      | None \<Rightarrow> zero_transaction (NewBodyBuffer (request_buffer_options w)) (NewBodyBuffer (response_buffer_options w)))"

text \<open>The fields copied from the WAF or cleared.\<close>

definition init_fields :: "waf \<Rightarrow> string \<Rightarrow> int \<Rightarrow> transaction \<Rightarrow> transaction" where
  "init_fields w txid now tx =
     tx\<lparr>tx_id := txid, tx_matchedRules := [], tx_interruption := None, tx_detectionOnlyInterruption := None, tx_SkipAfter := [],
        tx_AuditEngine := waf_AuditEngine w, tx_AuditLogParts := waf_AuditLogParts w, tx_AuditLogFormat := waf_AuditLogFormat w,
        tx_ForceRequestBodyVariable := False, tx_RequestBodyAccess := waf_RequestBodyAccess w,
        tx_RequestBodyLimit := waf_RequestBodyLimit w, tx_ForceResponseBodyVariable := False,
        tx_ResponseBodyAccess := waf_ResponseBodyAccess w, tx_ResponseBodyLimit := waf_ResponseBodyLimit w,
        tx_RuleEngine := waf_RuleEngine w, tx_lastPhase := PhaseUnknown, tx_ruleRemoveByID := [],
        tx_ruleRemoveByIDRanges := [], tx_ruleRemoveTargetByID := [], tx_Skip := 0, tx_AllowType := AllowTypeUnset,
        tx_Capture := False, tx_Timestamp := now, tx_audit := False, tx_errorLog := []\<rparr>"

definition set_captures :: "case_table \<Rightarrow> transaction \<Rightarrow> transaction" where
  "set_captures ct tx = fold (\<lambda>i tx. set_map V_TX (Map_Set ct (get_map tx V_TX) (itoa i) [[]]) tx) [0..10] tx"

definition default_singles :: "string \<Rightarrow> (rule_variable \<times> string) list" where
  "default_singles txid =
     [(V_FilesCombinedSize, ''0''), (V_UrlencodedError, ''0''), (V_FullRequestLength, ''0''), (V_MultipartDataAfter, ''0''),
      (V_OutboundDataError, ''0''), (V_ReqbodyError, ''0''), (V_ReqbodyProcessorError, ''0''), (V_RequestBodyLength, ''0''),
      (V_Duration, ''0''), (V_HighestSeverity, itoa defaultHighestSeverity), (V_UniqueID, txid)]"

definition set_defaults :: "string \<Rightarrow> transaction \<Rightarrow> transaction" where
  "set_defaults txid tx = fold (\<lambda>(v, x). set_single v x) (default_singles txid) tx"

definition newTransaction :: "case_table \<Rightarrow> int \<Rightarrow> waf \<Rightarrow> string \<Rightarrow> int \<Rightarrow> transaction option \<Rightarrow> transaction" where
  "newTransaction ct off w txid now t =
     setTimeVariables off (set_defaults txid (set_captures ct (init_fields w txid now (pooled w t))))"

text \<open>\<open>NewTransactionWithOptions\<close>: an empty identifier is replaced by a random one.\<close>

definition NewTransactionWithOptions :: "case_table \<Rightarrow> int \<Rightarrow> waf \<Rightarrow> string \<Rightarrow> string \<Rightarrow> int \<Rightarrow> transaction option \<Rightarrow> transaction" where
  "NewTransactionWithOptions ct off w random txid now t =
     newTransaction ct off w (if txid = [] then random else txid) now t"

section \<open>Closing\<close>

text \<open>What the file system answers to the removal of uploaded files and of the spilled bodies.\<close>

record close_env =
  ce_fs :: bool
  ce_remove :: "string \<Rightarrow> error option"
  ce_reset_request :: "error option"
  ce_reset_response :: "error option"

definition keep_files :: "waf \<Rightarrow> transaction \<Rightarrow> bool" where
  "keep_files w tx =
     (waf_UploadKeepFiles w = UploadKeepFilesOn \<or>
      waf_UploadKeepFiles w = UploadKeepFilesRelevantOnly \<and> hasLogRelevantMatchedRules tx)"

definition reset_buffer :: "bool \<Rightarrow> body_buffer \<Rightarrow> body_buffer" where
  "reset_buffer fs b = the_buffer (Reset fs \<lparr>the_buffer = b, reader_store = []\<rparr>)"

text \<open>The errors, the files whose removal is attempted, and the transaction put back into the pool.\<close>

definition Transaction_Close :: "case_table \<Rightarrow> close_env \<Rightarrow> waf \<Rightarrow> transaction \<Rightarrow> error list \<times> string list \<times> transaction" where
  "Transaction_Close ct env w tx =
     (let files = (if ce_fs env \<and> \<not> keep_files w tx then Map_Get ct (get_map tx V_FilesTmpNames) [] else []);
          spilled = (\<lambda>b e. if ce_fs env \<and> bb_writer b \<noteq> None then (case e of Some x \<Rightarrow> [x] | None \<Rightarrow> []) else [])
      in (List.map_filter (ce_remove env) files @ spilled (tx_requestBodyBuffer tx) (ce_reset_request env) @
            spilled (tx_responseBodyBuffer tx) (ce_reset_response env),
          files,
          resetTransformationCaches (tx\<lparr>tx_variables := reset_variables (tx_variables tx),
            tx_requestBodyBuffer := reset_buffer (ce_fs env) (tx_requestBodyBuffer tx),
            tx_responseBodyBuffer := reset_buffer (ce_fs env) (tx_responseBodyBuffer tx)\<rparr>)))"

end
