(* ===== verification/Audit_Log.thy ===== *)
theory Audit_Log
  imports Waf
begin

text \<open>
  The audit log entry of a transaction (\<open>Transaction.AuditLog\<close> of \<open>transaction.go\<close>), its native format
  (\<open>internal/auditlog/formats.go\<close>), and the decision of \<open>ProcessLogging\<close> whether it is written. The
  texts of the stop watch, of MIME types and of HTTP status codes, and the random boundary, are
  arguments, as is the order in which Go iterates over the headers.
\<close>

section \<open>Entries\<close>

record audit_file =
  af_Name :: string
  af_Size :: int
  af_Mime :: string

record audit_request =
  aq_Method :: string
  aq_Protocol :: string
  aq_URI :: string
  aq_Headers :: values_map
  aq_Body :: string
  aq_Files :: "audit_file list"
  aq_Args :: "collection option"
  aq_Length :: int

record audit_response =
  ar_Protocol :: string
  ar_Status :: int
  ar_Headers :: values_map
  ar_Body :: string

record audit_producer =
  ap_Connector :: string
  ap_Version :: string
  ap_Server :: string
  ap_RuleEngine :: string
  ap_Stopwatch :: string
  ap_Rulesets :: "string list"

record message_data =
  msd_File :: string
  msd_Line :: int
  msd_ID :: int
  msd_Rev :: string
  msd_Msg :: string
  msd_Data :: string
  msd_Severity :: rule_severity
  msd_Ver :: string
  msd_Maturity :: int
  msd_Accuracy :: int
  msd_Tags :: "string list"
  msd_Raw :: string

record audit_message =
  am_Actionset :: string
  am_Message :: string
  am_ErrorMessage :: string
  am_Data :: "message_data option"

record audit_transaction =
  at_Timestamp :: string
  at_UnixTimestamp :: int
  at_ID :: string
  at_ClientIP :: string
  at_ClientPort :: int
  at_HostIP :: string
  at_HostPort :: int
  at_ServerID :: string
  at_Request :: audit_request
  at_Response :: "audit_response option"
  at_Producer :: "audit_producer option"
  at_IsInterrupted :: bool

record audit_log =
  al_Parts :: audit_log_parts
  al_Transaction :: audit_transaction
  al_Messages :: "audit_message list"

record audit_env =
  ae_ct :: case_table
  ae_pt :: print_table
  ae_off :: int
  ae_fs :: bool
  ae_stopwatch :: string
  ae_mime :: "string \<Rightarrow> string"
  ae_status :: "int \<Rightarrow> string"
  ae_boundary :: string
  ae_order :: "values_map \<Rightarrow> values_map"

section \<open>Building the entry\<close>

text \<open>\<open>strconv.ParseInt(s, 10, bits)\<close> where an error of any kind counts as 0.\<close>

definition parse_int_or_0 :: "nat \<Rightarrow> string \<Rightarrow> int" where
  "parse_int_or_0 bits s =
     (case atoi s of (n, err) \<Rightarrow> if err \<or> n < - (2 ^ (bits - 1)) \<or> 2 ^ (bits - 1) \<le> n then 0 else n)"

text \<open>The layout \<open>2006/01/02 15:04:05\<close>, years of four digits.\<close>

definition format_timestamp :: "int \<Rightarrow> int \<Rightarrow> string" where
  "format_timestamp off nanos =
     (let secs = nanos div 1000000000 + off
      in case civil_from_days (secs div 86400) of (y, m, d) \<Rightarrow>
        itoa y @ ''/'' @ two_digits m @ ''/'' @ two_digits d @ '' '' @ format_TimeOnly secs)"

text \<open>The bytes a new reader of a body buffer delivers until it ends.\<close>

definition body_bytes :: "bool \<Rightarrow> body_buffer \<Rightarrow> string" where
  "body_bytes fs br = (case (if fs then bb_writer br else None) of Some f \<Rightarrow> f_content f | None \<Rightarrow> bb_buffer br)"

definition auditLogCollectFiles :: "audit_env \<Rightarrow> transaction \<Rightarrow> audit_file list" where
  "auditLogCollectFiles env tx =
     map (\<lambda>file. \<lparr>af_Name = file,
                  af_Size = parse_int_or_0 64 (first_value (Map_Get (ae_ct env) (get_map tx V_FilesSizes) file)),
                  af_Mime = ae_mime env (filepath_ext file)\<rparr>)
       (Map_Get (ae_ct env) (get_map tx V_Files) [])"

definition rule_message :: "waf \<Rightarrow> matched_rule \<Rightarrow> string \<Rightarrow> match_data \<Rightarrow> audit_message" where
  "rule_message w mr err md =
     (let r = mr_Rule mr
      in \<lparr>am_Actionset = join_str '' '' (waf_ComponentNames w), am_Message = md_Message md, am_ErrorMessage = err,
          am_Data = Some \<lparr>msd_File = rm_File r, msd_Line = rm_Line r, msd_ID = rm_ID r, msd_Rev = rm_Rev r,
            msd_Msg = md_Message md, msd_Data = md_Data md, msd_Severity = rm_Severity r, msd_Ver = rm_Version r,
            msd_Maturity = rm_Maturity r, msd_Accuracy = rm_Accuracy r, msd_Tags = rm_Tags r, msd_Raw = rm_Raw r\<rparr>\<rparr>)"

text \<open>The messages of one matched rule: one for each match, with its error log line if asked for.\<close>

definition rule_messages :: "audit_env \<Rightarrow> waf \<Rightarrow> bool \<Rightarrow> matched_rule \<Rightarrow> audit_message list option" where
  "rule_messages env w trailer mr =
     (if \<not> mr_Audit mr then Some []
      else if trailer \<and> mr_MatchedDatas mr \<noteq> [] then
        map_option (\<lambda>err. map (rule_message w mr err) (mr_MatchedDatas mr)) (ErrorLog (ae_pt env) mr)
      else Some (map (rule_message w mr []) (mr_MatchedDatas mr)))"

fun concat_options :: "('a \<Rightarrow> 'b list option) \<Rightarrow> 'a list \<Rightarrow> 'b list option" where
  "concat_options f [] = Some []"
| "concat_options f (x # xs) =
     (case f x of None \<Rightarrow> None | Some ys \<Rightarrow> map_option (\<lambda>zs. ys @ zs) (concat_options f xs))"

definition error_message :: "audit_env \<Rightarrow> matched_rule \<Rightarrow> audit_message list option" where
  "error_message env mr =
     (if mr_Audit mr then
        map_option (\<lambda>err. [\<lparr>am_Actionset = [], am_Message = [], am_ErrorMessage = err, am_Data = None\<rparr>])
          (ErrorLog (ae_pt env) mr)
      else Some [])"

definition empty_response :: audit_response where
  "empty_response = \<lparr>ar_Protocol = [], ar_Status = 0, ar_Headers = [], ar_Body = []\<rparr>"

definition with_response :: "(audit_response \<Rightarrow> audit_response) \<Rightarrow> audit_transaction \<Rightarrow> audit_transaction" where
  "with_response f at =
     at\<lparr>at_Response := Some (f (case at_Response at of Some r \<Rightarrow> r | None \<Rightarrow> empty_response))\<rparr>"

text \<open>What a part adds: the entry, and whether parts H and K were seen so far.\<close>

definition audit_part :: "audit_env \<Rightarrow> waf \<Rightarrow> transaction \<Rightarrow> char \<Rightarrow> audit_log \<times> bool \<times> bool \<Rightarrow> (audit_log \<times> bool \<times> bool) option" where
  "audit_part env w tx part st =
     (case st of (al, trailer, matched) \<Rightarrow>
        let at = al_Transaction al;
            put = (\<lambda>at'. Some (al\<lparr>al_Transaction := at'\<rparr>, trailer, matched));
            request = (\<lambda>f. put (at\<lparr>at_Request := f (at_Request at)\<rparr>))
        in if part = CHR ''B'' then request (\<lambda>q. q\<lparr>aq_Headers := NamedCollection_Data (get_map tx V_RequestHeaders)\<rparr>)
           else if part = CHR ''C'' then request (\<lambda>q. q\<lparr>aq_Body := body_bytes (ae_fs env) (tx_requestBodyBuffer tx)\<rparr>)
           else if part = CHR ''J'' then request (\<lambda>q. q\<lparr>aq_Files := auditLogCollectFiles env tx\<rparr>)
           else if part = CHR ''E'' then put (with_response (\<lambda>r. r\<lparr>ar_Body := get_single tx V_ResponseBody\<rparr>) at)
           else if part = CHR ''F'' then
             put (with_response (\<lambda>r. r\<lparr>ar_Status := fst (atoi (get_single tx V_ResponseStatus)),
               ar_Headers := NamedCollection_Data (get_map tx V_ResponseHeaders)\<rparr>) at)
           else if part = CHR ''H'' then
             Some (al\<lparr>al_Transaction := at\<lparr>at_Producer := Some \<lparr>ap_Connector = waf_ProducerConnector w,
               ap_Version = waf_ProducerConnectorVersion w, ap_Server = [], ap_RuleEngine = rule_engine_string (tx_RuleEngine tx),
               ap_Stopwatch = ae_stopwatch env, ap_Rulesets = waf_ComponentNames w\<rparr>\<rparr>\<rparr>, True, matched)
           else if part = CHR ''K'' then
             map_option (\<lambda>ms. (al\<lparr>al_Messages := al_Messages al @ ms\<rparr>, trailer, True))
               (concat_options (rule_messages env w trailer) (tx_matchedRules tx))
           else Some (al, trailer, matched))"

definition new_audit_log :: "audit_env \<Rightarrow> transaction \<Rightarrow> audit_log" where
  "new_audit_log env tx =
     \<lparr>al_Parts = tx_AuditLogParts tx,
      al_Transaction = \<lparr>at_Timestamp = format_timestamp (ae_off env) (tx_Timestamp tx), at_UnixTimestamp = tx_Timestamp tx,
        at_ID = tx_id tx, at_ClientIP = get_single tx V_RemoteAddr, at_ClientPort = fst (atoi (get_single tx V_RemotePort)),
        at_HostIP = get_single tx V_ServerAddr, at_HostPort = fst (atoi (get_single tx V_ServerPort)),
        at_ServerID = get_single tx V_ServerName,
        at_Request = \<lparr>aq_Method = get_single tx V_RequestMethod, aq_Protocol = get_single tx V_RequestProtocol,
          aq_URI = get_single tx V_RequestURI, aq_Headers = [], aq_Body = [], aq_Files = [],
          aq_Args = tx_Collection tx V_Args, aq_Length = parse_int_or_0 32 (get_single tx V_FullRequestLength)\<rparr>,
        at_Response = None, at_Producer = None, at_IsInterrupted = IsInterrupted tx\<rparr>,
      al_Messages = []\<rparr>"

definition AuditLog :: "audit_env \<Rightarrow> waf \<Rightarrow> transaction \<Rightarrow> audit_log option" where
  "AuditLog env w tx =
     (case fold_option (audit_part env w tx) (tx_AuditLogParts tx) (new_audit_log env tx, False, False) of
        None \<Rightarrow> None
      | Some (al, trailer, matched) \<Rightarrow>
          if \<not> matched \<and> trailer then
            map_option (\<lambda>ms. al\<lparr>al_Messages := al_Messages al @ ms\<rparr>) (concat_options (error_message env) (tx_matchedRules tx))
          else Some al)"

section \<open>The native format\<close>

definition nl :: string where "nl = [CHR 10]"

definition headers_text :: "(string \<Rightarrow> string \<Rightarrow> string) \<Rightarrow> values_map \<Rightarrow> string" where
  "headers_text f hs = concat (map (\<lambda>(k, vv). concat (map (f k) vv)) hs)"

definition file_line :: "audit_env \<Rightarrow> nat \<Rightarrow> audit_file \<Rightarrow> string" where
  "file_line env i f =
     itoa (int i) @ '','' @ itoa (af_Size f) @ '','' @ quote (ae_pt env) (af_Name f) @ '','' @
     quote (ae_pt env) (if af_Mime f = [] then ''<Unknown Content-Type>'' else af_Mime f) @ nl"

text \<open>The text of a part; part K of a message without data panics.\<close>

definition part_text :: "audit_env \<Rightarrow> audit_log \<Rightarrow> char \<Rightarrow> string option" where
  "part_text env al part =
     (let at = al_Transaction al; q = at_Request at
      in if part = CHR ''A'' then
           Some (''['' @ at_Timestamp at @ ''] '' @ at_ID at @ '' '' @ at_ClientIP at @ '' '' @ itoa (at_ClientPort at) @ '' '' @
             at_HostIP at @ '' '' @ itoa (at_HostPort at) @ nl)
         else if part = CHR ''B'' then
           Some (aq_Method q @ '' '' @ aq_URI q @ '' '' @ aq_Protocol q @
             headers_text (\<lambda>k v. nl @ k @ '': '' @ v) (ae_order env (aq_Headers q)) @ nl)
         else if part = CHR ''C'' then Some (if aq_Body q = [] then [] else aq_Body q @ nl)
         else if part = CHR ''E'' then
           Some (case at_Response at of Some r \<Rightarrow> (if ar_Body r = [] then [] else ar_Body r @ nl) | None \<Rightarrow> [])
         else if part = CHR ''F'' then
           Some (case at_Response at of
               Some r \<Rightarrow> (if ar_Protocol r = [] then ''HTTP/1.1'' else ar_Protocol r) @ '' '' @ itoa (ar_Status r) @ '' '' @
                 ae_status env (ar_Status r) @ nl @ headers_text (\<lambda>k v. k @ '': '' @ v @ nl) (ae_order env (ar_Headers r))
             | None \<Rightarrow> [])
         else if part = CHR ''H'' then
           Some (concat (map (\<lambda>m. if am_ErrorMessage m = [] then [] else am_ErrorMessage m @ nl) (al_Messages al)))
         else if part = CHR ''J'' then
           Some (concat (map (\<lambda>(i, f). file_line env i f) (enumerate 1 (aq_Files q))) @ ''Total,'' @
             itoa (wrap64 (sum_list (map af_Size (aq_Files q)))) @ nl)
         else if part = CHR ''K'' then
           concat_options (\<lambda>m. map_option (\<lambda>d. msd_Raw d @ nl) (am_Data m)) (al_Messages al)
         else Some [])"

definition native_part :: "audit_env \<Rightarrow> audit_log \<Rightarrow> char \<Rightarrow> string option" where
  "native_part env al part =
     map_option (\<lambda>text. ''--'' @ ae_boundary env @ ''-'' @ [part] @ ''--'' @ nl @ text @ (if part = CHR ''A'' then [] else nl))
       (part_text env al part)"

definition native_Format :: "audit_env \<Rightarrow> audit_log \<Rightarrow> string option" where
  "native_Format env al = concat_options (native_part env al) (al_Parts al)"

section \<open>Whether the entry is written\<close>

definition audit_status :: "transaction \<Rightarrow> string" where
  "audit_status tx =
     (case (tx_interruption tx, tx_detectionOnlyInterruption tx) of
        (Some i, _) \<Rightarrow> itoa (i_Status i)
      | (None, Some i) \<Rightarrow> itoa (i_Status i)
      | (None, None) \<Rightarrow> get_single tx V_ResponseStatus)"

definition audit_relevant :: "waf \<Rightarrow> transaction \<Rightarrow> bool" where
  "audit_relevant w tx =
     (case tx_AuditEngine tx of
        AuditEngineOff \<Rightarrow> False
      | AuditEngineOn \<Rightarrow> True
      | AuditEngineRelevantOnly \<Rightarrow>
          (case waf_AuditLogRelevantStatus w of
             None \<Rightarrow> tx_audit tx
           | Some re \<Rightarrow> re (audit_status tx)))"

end
