(* ===== verification/Body_Processors.thy ===== *)
theory Body_Processors
  imports Transaction
begin

text \<open>
  The body processors of \<open>internal/bodyprocessors\<close>, which file the contents of a body in the
  variables of a transaction. A processor gets the bytes its reader delivers. The JSON, XML and
  multipart decoders are arguments: what they deliver for a text is the sequence of items, tokens
  or parts the code iterates over. So is the order in which Go iterates over a map.
\<close>

section \<open>Decoders\<close>

text \<open>
  A value of the JSON decoder: a string, null, any other scalar as its raw text, or the pairs an
  iteration over an object or array passes. Members of arrays have a number as their key.
\<close>

datatype gjson_key = KeyString string | KeyNum int

datatype gjson = GString string | GNull | GRaw string | GJSON "(gjson_key \<times> gjson) list"

datatype xml_token = StartElement "string list" | CharData string | OtherToken

text \<open>One call of \<open>Token\<close>: a token, or none with the error; an unexpected end of input counts as the end.\<close>

datatype xml_result = XmlToken xml_token | XmlEnd | XmlError error

text \<open>A part of a multipart body, and how reading its data ends.\<close>

datatype read_end = ReadOk | ReadUnexpectedEOF | ReadError error

record part =
  p_FormName :: string
  p_Header :: "(string \<times> string list) list"
  p_disposition :: string
  p_data :: string
  p_end :: read_end

record body_env =
  be_ct :: case_table
  be_order :: "(string \<times> string list) list \<Rightarrow> (string \<times> string list) list"
  be_json :: "string \<Rightarrow> (gjson_key \<times> gjson) list"
  be_json_valid :: "string \<Rightarrow> bool"
  be_xml :: "string \<Rightarrow> xml_result list"
  be_mediaType :: "string \<Rightarrow> (string \<times> (string \<times> string) list) result"
  be_parts :: "string \<Rightarrow> string \<Rightarrow> part result list"
  be_temp :: "string \<Rightarrow> nat \<Rightarrow> string result"
  be_fs :: bool

record body_options =
  bpo_Mime :: string
  bpo_StoragePath :: string
  bpo_RequestBodyRecursionLimit :: int

type_synonym processor = "body_env \<Rightarrow> string \<Rightarrow> body_options \<Rightarrow> transaction \<Rightarrow> error option \<times> transaction"

section \<open>URL-encoded and raw bodies\<close>

definition set_values :: "body_env \<Rightarrow> rule_variable \<Rightarrow> (string \<times> string list) list \<Rightarrow> transaction \<Rightarrow> transaction" where
  "set_values env v kvs tx = fold (\<lambda>(k, vs) tx. set_map v (Map_Set (be_ct env) (get_map tx v) k vs) tx) (be_order env kvs) tx"

definition set_request_body :: "string \<Rightarrow> transaction \<Rightarrow> transaction" where
  "set_request_body b tx = set_single V_RequestBodyLength (itoa (int (length b))) (set_single V_RequestBody b tx)"

definition urlencoded_ProcessRequest :: processor where
  "urlencoded_ProcessRequest env b opts tx =
     (None, set_request_body b (set_values env V_ArgsPost (ParseQuery b CHR ''&'') tx))"

definition raw_ProcessRequest :: processor where
  "raw_ProcessRequest env b opts tx = (None, set_request_body b tx)"

section \<open>JSON\<close>

definition ignoreJSONRecursionLimit :: int where "ignoreJSONRecursionLimit = -1"

definition json_key :: "string \<Rightarrow> gjson_key \<Rightarrow> string" where
  "json_key objKey k = objKey @ ''.'' @ (case k of KeyString s \<Rightarrow> s | KeyNum n \<Rightarrow> itoa n)"

definition is_num :: "gjson_key \<Rightarrow> bool" where
  "is_num k = (case k of KeyNum _ \<Rightarrow> True | KeyString _ \<Rightarrow> False)"

text \<open>
  \<open>readItems\<close> and the function it passes to \<open>ForEach\<close>. The loop returns the results, the number of
  array members seen, the contents of \<open>objKey\<close>, which keeps the last key when a nested value fails,
  and the error.
\<close>

type_synonym json_map = "(string \<times> string) list"

function readItems :: "(gjson_key \<times> gjson) list \<Rightarrow> string \<Rightarrow> int \<Rightarrow> json_map \<Rightarrow> json_map \<times> error option"
  and item_loop :: "(gjson_key \<times> gjson) list \<Rightarrow> string \<Rightarrow> int \<Rightarrow> int \<Rightarrow> json_map \<Rightarrow> json_map \<times> int \<times> string \<times> error option"
where
  "readItems items objKey maxRecursion res =
     (if maxRecursion = 0 then (res, Some (Error ''max recursion reached while reading json object''))
      else case item_loop items objKey maxRecursion 0 res of (res1, arrayLen, key, err) \<Rightarrow>
        (if 0 < arrayLen then alist_put key (itoa arrayLen) res1 else res1, err))"
| "item_loop [] objKey maxRecursion arrayLen res = (res, arrayLen, objKey, None)"
| "item_loop ((k, v) # items) objKey maxRecursion arrayLen res =
     (let key = json_key objKey k; n = (if is_num k then arrayLen + 1 else arrayLen);
          next = (\<lambda>val. item_loop items objKey maxRecursion n (alist_put key val res))
      in case v of
        GJSON its \<Rightarrow>
          (case readItems its key (maxRecursion - 1) res of
             (res1, Some err) \<Rightarrow> (res1, n, key, Some err)
           | (res1, None) \<Rightarrow> item_loop items objKey maxRecursion n res1)
      | GString s \<Rightarrow> next s
      | GNull \<Rightarrow> next []
      | GRaw raw \<Rightarrow> next raw)"
  by pat_completeness auto
termination
  by (relation "measure (\<lambda>x. case x of Inl (its, _) \<Rightarrow> Suc (2 * size_list (size_prod (\<lambda>_. 0) size) its)
      | Inr (its, _) \<Rightarrow> 2 * size_list (size_prod (\<lambda>_. 0) size) its)") auto

definition readJSON :: "body_env \<Rightarrow> string \<Rightarrow> int \<Rightarrow> json_map \<times> error option" where
  "readJSON env s maxRecursion =
     (case readItems (be_json env s) ''json'' maxRecursion [] of
        (res, Some err) \<Rightarrow> (res, Some err)
      | (res, None) \<Rightarrow> (res, if be_json_valid env s then None else Some (Error ''invalid JSON'')))"

text \<open>The results are filed before the error is looked at.\<close>

definition file_json :: "body_env \<Rightarrow> rule_variable \<Rightarrow> json_map \<Rightarrow> transaction \<Rightarrow> transaction" where
  "file_json env v data tx =
     fold (\<lambda>(k, vs) tx. set_map v (set_index0 (be_ct env) (get_map tx v) k (concat vs)) tx)
       (be_order env (map (\<lambda>(k, x). (k, [x])) data)) tx"

definition json_process :: "rule_variable \<Rightarrow> string \<Rightarrow> int \<Rightarrow> body_env \<Rightarrow> string \<Rightarrow> transaction \<Rightarrow> error option \<times> transaction" where
  "json_process v name limit env b tx =
     (case readJSON env b limit of (data, err) \<Rightarrow>
        let tx1 = file_json env v data tx
        in case err of
          Some e \<Rightarrow> (Some e, tx1)
        | None \<Rightarrow> (None, set_map V_TX (Map_Set (be_ct env) (get_map tx1 V_TX) name [b]) tx1))"

definition json_ProcessRequest :: processor where
  "json_ProcessRequest env b opts tx =
     json_process V_ArgsPost ''json_request_body'' (bpo_RequestBodyRecursionLimit opts) env b tx"

definition json_ProcessResponse :: processor where
  "json_ProcessResponse env b opts tx =
     json_process V_ResponseArgs ''json_response_body'' ignoreJSONRecursionLimit env b tx"

section \<open>XML\<close>

fun readXML :: "xml_result list \<Rightarrow> string list \<Rightarrow> string list \<Rightarrow> (string list \<times> string list) result" where
  "readXML [] attrs content = Inr (attrs, content)"
| "readXML (XmlEnd # ts) attrs content = Inr (attrs, content)"
| "readXML (XmlError e # ts) attrs content = Inl e"
| "readXML (XmlToken t # ts) attrs content =
     (case t of
        StartElement as \<Rightarrow> readXML ts (attrs @ as) content
      | CharData d \<Rightarrow>
          (let c = trim_space d in readXML ts attrs (if c = [] then content else content @ [c]))
      | OtherToken \<Rightarrow> readXML ts attrs content)"

definition xml_ProcessRequest :: processor where
  "xml_ProcessRequest env b opts tx =
     (case readXML (be_xml env b) [] [] of
        Inl e \<Rightarrow> (Some e, tx)
      | Inr (attrs, texts) \<Rightarrow>
          let tx1 = set_map V_RequestXML (Map_Set (be_ct env) (get_map tx V_RequestXML) ''//@*'' attrs) tx
          in (None, set_map V_RequestXML (Map_Set (be_ct env) (get_map tx1 V_RequestXML) ''/*'' texts) tx1))"

section \<open>Multipart\<close>

definition strict_error :: "error \<Rightarrow> transaction \<Rightarrow> error option \<times> transaction" where
  "strict_error e tx = (Some e, set_single V_MultipartStrictError ''1'' tx)"

definition add_map :: "body_env \<Rightarrow> rule_variable \<Rightarrow> string \<Rightarrow> string \<Rightarrow> transaction \<Rightarrow> transaction" where
  "add_map env v k x tx = set_map v (Map_Add (be_ct env) (get_map tx v) k x) tx"

definition add_headers :: "body_env \<Rightarrow> part \<Rightarrow> transaction \<Rightarrow> transaction" where
  "add_headers env p tx =
     fold (\<lambda>(k, vs) tx. fold (\<lambda>v tx. add_map env V_MultipartPartHeaders (p_FormName p) (k @ '': '' @ v) tx) vs tx)
       (be_order env (p_Header p)) tx"

text \<open>
  A part with a file name is stored as a temporary file, where there is a file system; a part
  without one is an argument. An unexpected end of the body ends the loop without an error. The
  temporary files of a request are numbered by \<open>n\<close>.
\<close>

definition originFileName :: "body_env \<Rightarrow> part \<Rightarrow> string" where
  "originFileName env p =
     (case be_mediaType env (p_disposition p) of
        Inl _ \<Rightarrow> []
      | Inr (_, params) \<Rightarrow> (case alist_get params ''filename'' of Some f \<Rightarrow> f | None \<Rightarrow> []))"

definition add_file :: "body_env \<Rightarrow> part \<Rightarrow> int \<Rightarrow> transaction \<Rightarrow> transaction" where
  "add_file env p newTotal tx =
     (let size = itoa (int (length (p_data p)));
          tx1 = add_map env V_Files [] (originFileName env p) tx;
          tx2 = set_map V_FilesSizes (set_index0 (be_ct env) (get_map tx1 V_FilesSizes) (originFileName env p) size) tx1;
          tx3 = add_map env V_FilesNames [] (p_FormName p) tx2
      in set_single V_FilesCombinedSize (itoa newTotal) tx3)"

fun multipart_loop :: "body_env \<Rightarrow> string \<Rightarrow> part result list \<Rightarrow> nat \<Rightarrow> int \<Rightarrow> transaction \<Rightarrow> error option \<times> transaction" where
  "multipart_loop env path [] n totalSize tx = (None, tx)"
| "multipart_loop env path (Inl e # ps) n totalSize tx = strict_error e tx"
| "multipart_loop env path (Inr p # ps) n totalSize tx =
     (let tx1 = add_headers env p tx; newTotal = totalSize + int (length (p_data p))
      in if originFileName env p \<noteq> [] then
           (case (if be_fs env then be_temp env path n else Inr []) of
              Inl e \<Rightarrow> strict_error e tx1
            | Inr name \<Rightarrow>
                (case p_end p of
                   ReadError e \<Rightarrow> strict_error e tx1
                 | ReadOk \<Rightarrow>
                     multipart_loop env path ps (Suc n) newTotal
                       (add_file env p newTotal (if be_fs env then add_map env V_FilesTmpNames [] name tx1 else tx1))
                 | ReadUnexpectedEOF \<Rightarrow>
                     (None, add_file env p newTotal (if be_fs env then add_map env V_FilesTmpNames [] name tx1 else tx1))))
         else
           let tx2 = set_single V_FilesCombinedSize (itoa newTotal) (add_map env V_ArgsPost (p_FormName p) (p_data p) tx1)
           in (case p_end p of
                 ReadError e \<Rightarrow> strict_error e tx1
               | ReadOk \<Rightarrow> multipart_loop env path ps n newTotal tx2
               | ReadUnexpectedEOF \<Rightarrow> (None, tx2)))"

definition multipart_ProcessRequest :: processor where
  "multipart_ProcessRequest env b opts tx =
     (case be_mediaType env (bpo_Mime opts) of
        Inl e \<Rightarrow> strict_error e tx
      | Inr (mediaType, params) \<Rightarrow>
          if \<not> has_prefix mediaType ''multipart/'' then (Some (Error ''not a multipart body''), tx)
          else multipart_loop env (bpo_StoragePath opts)
            (be_parts env b (case alist_get params ''boundary'' of Some x \<Rightarrow> x | None \<Rightarrow> [])) 0 0 tx)"

section \<open>Registry\<close>

datatype body_processor =
  urlencodedBodyProcessor | rawBodyProcessor | jsonBodyProcessor | xmlBodyProcessor | multipartBodyProcessor

definition processors :: "(string \<times> body_processor) list" where
  "processors =
     [(''json'', jsonBodyProcessor), (''multipart'', multipartBodyProcessor), (''raw'', rawBodyProcessor),
      (''urlencoded'', urlencodedBodyProcessor), (''xml'', xmlBodyProcessor)]"

definition GetBodyProcessor :: "case_table \<Rightarrow> string \<Rightarrow> body_processor result" where
  "GetBodyProcessor ct name =
     (case alist_get processors (to_lower ct name) of
        Some p \<Rightarrow> Inr p
      | None \<Rightarrow> Inl (Error ''invalid bodyprocessor''))"

fun ProcessRequest :: "body_processor \<Rightarrow> processor" where
  "ProcessRequest urlencodedBodyProcessor = urlencoded_ProcessRequest"
| "ProcessRequest rawBodyProcessor = raw_ProcessRequest"
| "ProcessRequest jsonBodyProcessor = json_ProcessRequest"
| "ProcessRequest xmlBodyProcessor = xml_ProcessRequest"
| "ProcessRequest multipartBodyProcessor = multipart_ProcessRequest"

fun ProcessResponse :: "body_processor \<Rightarrow> processor" where
  "ProcessResponse jsonBodyProcessor env b opts tx = json_ProcessResponse env b opts tx"
| "ProcessResponse _ env b opts tx = (None, tx)"

section \<open>Processors change only variables\<close>

definition fills :: "case_table \<Rightarrow> transaction \<Rightarrow> transaction \<Rightarrow> bool" where
  "fills ct tx tx' =
     (tx' = tx\<lparr>tx_variables := tx_variables tx'\<rparr> \<and> (vars_ok ct (tx_variables tx) \<longrightarrow> vars_ok ct (tx_variables tx')))"

lemma fills_refl [simp, intro]: "fills ct tx tx"
  by (simp add: fills_def)

lemma fills_trans: "fills ct a b \<Longrightarrow> fills ct b c \<Longrightarrow> fills ct a c"
  unfolding fills_def by (metis transaction.surjective transaction.update_convs(27))

lemma fills_steps [simp, intro]:
  "fills ct tx (set_single v x tx)"
  "fills ct tx (set_map v (Map_Set ct (get_map tx v) k vs) tx)"
  "fills ct tx (set_map v (Map_Add ct (get_map tx v) k x) tx)"
  "fills ct tx (set_map v (set_index0 ct (get_map tx v) k x) tx)"
  by (auto simp: fills_def) (simp_all add: set_single_def set_map_def)

lemma fills_fold: "(\<And>x tx. fills ct tx (f x tx)) \<Longrightarrow> fills ct tx (fold f xs tx)"
  by (induction xs arbitrary: tx) (auto intro: fills_trans)

lemma fills_set_values [simp, intro]: "fills (be_ct env) tx (set_values env v kvs tx)"
  unfolding set_values_def by (rule fills_fold) (auto split: prod.splits)

lemma fills_file_json [simp, intro]: "fills (be_ct env) tx (file_json env v data tx)"
  unfolding file_json_def by (rule fills_fold) (auto split: prod.splits)

lemma fills_set_request_body [simp, intro]: "fills ct tx (set_request_body b tx)"
  unfolding set_request_body_def by (rule fills_trans [OF fills_steps(1) fills_steps(1)])

lemma fills_strict_error [simp, intro]: "fills ct tx (snd (strict_error e tx))"
  by (simp add: strict_error_def)

lemma fills_add_map [simp, intro]: "fills (be_ct env) tx (add_map env v k x tx)"
  by (simp add: add_map_def)

lemma fills_add_headers [simp, intro]: "fills (be_ct env) tx (add_headers env p tx)"
  unfolding add_headers_def by (rule fills_fold) (auto split: prod.splits intro: fills_fold)

lemma fills_add_file [simp, intro]: "fills (be_ct env) tx (add_file env p n tx)"
  unfolding add_file_def Let_def by (meson fills_trans fills_steps fills_add_map)

lemma fills_multipart_loop: "fills (be_ct env) tx (snd (multipart_loop env path ps n t tx))"
proof (induction ps arbitrary: n t tx)
  case (Cons r ps)
  have next_part: "fills (be_ct env) tx (snd (multipart_loop env path ps m u tx'))" if "fills (be_ct env) tx tx'" for m u tx'
    using that Cons.IH by (rule fills_trans)
  have f: "fills (be_ct env) tx (add_file env p m (add_headers env p tx))"
    "fills (be_ct env) tx (add_file env p m (add_map env v k x (add_headers env p tx)))" for p m v k x
    by (meson fills_trans fills_add_file fills_add_map fills_add_headers)+
  have a: "fills (be_ct env) tx (set_single u y (add_map env v k x (add_headers env p tx)))" for u y v k x p
    by (meson fills_trans fills_steps(1) fills_add_map fills_add_headers)
  have s: "fills (be_ct env) tx (snd (strict_error e (add_headers env p tx)))" for e p
    by (meson fills_trans fills_strict_error fills_add_headers)
  show ?case
    by (cases r) (auto simp: Let_def s split: sum.splits read_end.splits intro!: next_part f a)
qed simp

lemma ProcessRequest_fills: "fills (be_ct env) tx (snd (ProcessRequest p env b opts tx))"
proof -
  have j: "fills (be_ct env) tx (snd (json_process v name limit env b tx))" for v name limit
    by (auto simp: json_process_def Let_def split: prod.splits option.splits intro: fills_trans)
  have x: "fills (be_ct env) tx (snd (xml_ProcessRequest env b opts tx))"
  proof (cases "readXML (be_xml env b) [] []")
    case (Inr ac)
    then show ?thesis
      unfolding xml_ProcessRequest_def Let_def
      by (simp only: sum.case prod.case_eq_if snd_conv) (rule fills_trans [OF fills_steps(2) fills_steps(2)])
  qed (simp add: xml_ProcessRequest_def)
  show ?thesis
    by (cases p) (auto simp: urlencoded_ProcessRequest_def raw_ProcessRequest_def json_ProcessRequest_def
        multipart_ProcessRequest_def j x fills_multipart_loop split: sum.splits prod.splits intro: fills_trans)
qed

lemma ProcessResponse_fills: "fills (be_ct env) tx (snd (ProcessResponse p env b opts tx))"
proof -
  have j: "fills (be_ct env) tx (snd (json_process v name limit env b tx))" for v name limit
    by (auto simp: json_process_def Let_def split: prod.splits option.splits intro: fills_trans)
  show ?thesis by (cases p) (auto simp: json_ProcessResponse_def j)
qed

section \<open>Nesting of JSON bodies\<close>

function items_depth :: "(gjson_key \<times> gjson) list \<Rightarrow> int" where
  "items_depth [] = 1"
| "items_depth ((k, v) # items) =
     (case v of GJSON its \<Rightarrow> max (1 + items_depth its) (items_depth items) | _ \<Rightarrow> items_depth items)"
  by pat_completeness auto
termination
  by (relation "measure (size_list (size_prod (\<lambda>_. 0) size))") auto

lemma items_depth_pos: "1 \<le> items_depth items"
  by (induction items rule: items_depth.induct) (auto split: gjson.splits)

lemma readItems_depth:
  "snd (readItems items key m res) = None \<longleftrightarrow> m < 0 \<or> items_depth items \<le> m"
  "m \<noteq> 0 \<Longrightarrow> snd (snd (snd (item_loop items key m n res))) = None \<longleftrightarrow> m < 0 \<or> items_depth items \<le> m"
proof (induction items key m res and items key m n res rule: readItems_item_loop.induct)
  case (1 items key m res)
  show ?case
  proof (cases "m = 0")
    case True
    then show ?thesis using items_depth_pos [of items] by simp
  next
    case False
    then show ?thesis using 1 by (auto simp: split: prod.splits)
  qed
next
  case (3 k v items key m n res)
  show ?case
  proof (cases v)
    case (GJSON its)
    obtain res1 err where r: "readItems its (json_key key k) (m - 1) res = (res1, err)" by fastforce
    have "err = None \<longleftrightarrow> m - 1 < 0 \<or> items_depth its \<le> m - 1"
      using 3(2) [OF refl refl refl GJSON] r by simp
    moreover have "snd (snd (snd (item_loop items key m n' res1))) = None \<longleftrightarrow> m < 0 \<or> items_depth items \<le> m"
      if "err = None" "n' = (if is_num k then n + 1 else n)" for n'
      using 3(3) [OF refl that(2) refl GJSON r [symmetric] that(1) 3(4)] by simp
    ultimately show ?thesis
      using GJSON r 3(4) items_depth_pos [of its] by (cases err) auto
  qed (use 3 in \<open>auto simp: Let_def\<close>)
qed auto

section \<open>Properties\<close>

text \<open>
  C18: the JSON processor refuses a document exactly when its nesting exceeds the limit of the
  configuration; the limit \<open>ignoreJSONRecursionLimit\<close> of responses accepts every nesting.
\<close>

theorem json_depth_limit:
  "(snd (readItems items key m res) = None \<longleftrightarrow> m < 0 \<or> items_depth items \<le> m) \<and>
   snd (readItems items key ignoreJSONRecursionLimit res) = None"
  by (simp add: readItems_depth ignoreJSONRecursionLimit_def del: readItems.simps)

text \<open>The iteration over a Go map visits every entry once, in any order.\<close>

definition any_order :: "body_env \<Rightarrow> bool" where
  "any_order env = (\<forall>kvs. mset (be_order env kvs) = mset kvs)"

lemma slot_Map_Set [simp]:
  "slot (Map_Set ct c k vs) k' = (if k' = norm_key ct c k then map (\<lambda>v. \<lparr>kv_key = k, kv_value = v\<rparr>) vs else slot c k')"
  by (simp add: Map_Set_def)

lemma slot_fold_Set:
  assumes "(k, vs) \<in> set kvs" and "\<And>k' vs'. (k', vs') \<in> set kvs \<Longrightarrow> norm_key ct c k' = norm_key ct c k \<Longrightarrow> (k', vs') = (k, vs)"
  shows "slot (fold (\<lambda>(k, vs) c. Map_Set ct c k vs) kvs c) (norm_key ct c k) = map (\<lambda>v. \<lparr>kv_key = k, kv_value = v\<rparr>) vs"
  using assms
proof (induction kvs rule: rev_induct)
  case (snoc kv kvs)
  have n: "norm_key ct (fold (\<lambda>(k, vs) c. Map_Set ct c k vs) xs c) = norm_key ct c" for xs
    by (induction xs arbitrary: c) (auto simp: fun_eq_iff split: prod.splits)
  show ?case
  proof (cases "norm_key ct c (fst kv) = norm_key ct c k")
    case True
    then have "kv = (k, vs)" using snoc.prems(2) [of "fst kv" "snd kv"] by simp
    then show ?thesis by (simp add: n)
  next
    case False
    then have "(k, vs) \<in> set kvs" using snoc.prems(1) by auto
    then have "slot (fold (\<lambda>(k, vs) c. Map_Set ct c k vs) kvs c) (norm_key ct c k) = map (\<lambda>v. \<lparr>kv_key = k, kv_value = v\<rparr>) vs"
      by (rule snoc.IH) (use snoc.prems(2) in auto)
    then show ?thesis using False by (cases kv) (simp add: n)
  qed
qed simp

lemma get_map_set_values: "get_map (set_values env v kvs tx) v = fold (\<lambda>(k, vs) c. Map_Set (be_ct env) c k vs) (be_order env kvs) (get_map tx v)"
proof -
  have "get_map (fold (\<lambda>(k, vs) tx. set_map v (Map_Set ct (get_map tx v) k vs) tx) xs tx) v =
      fold (\<lambda>(k, vs) c. Map_Set ct c k vs) xs (get_map tx v)" for ct and xs :: "(string \<times> string list) list"
    by (induction xs arbitrary: tx) (auto split: prod.splits)
  then show ?thesis by (simp add: set_values_def)
qed

lemmas parse_sample_defs = ParseQuery_def doParseQuery_def query_segment_def query_escape_byte_def byte_class_defs
  less_eq_char_def byte_eval query_escape_def group_pairs_def map_append_def map_get_list_def

definition sample_body_env :: body_env where
  "sample_body_env =
     \<lparr>be_ct = (\<lambda>r. r), be_order = (\<lambda>kvs. kvs), be_json = (\<lambda>_. []), be_json_valid = (\<lambda>_. True), be_xml = (\<lambda>_. []),
      be_mediaType = (\<lambda>_. Inl (Error [])), be_parts = (\<lambda>_ _. []), be_temp = (\<lambda>_ _. Inl (Error [])), be_fs = True\<rparr>"

definition sample_body_options :: body_options where
  "sample_body_options = \<lparr>bpo_Mime = [], bpo_StoragePath = [], bpo_RequestBodyRecursionLimit = 4\<rparr>"

lemma sample_any_order [simp]: "any_order sample_body_env"
  by (simp add: any_order_def sample_body_env_def)

text \<open>
  C19: the URL-encoded processor files every argument of the body: with names that differ
  regardless of case, each name has exactly its values in order, and the body and its length are
  recorded.
\<close>

theorem urlencoded_files_arguments:
  assumes "any_order env" "(k, vs) \<in> set (ParseQuery b CHR ''&'')"
    and "\<And>k' vs'. (k', vs') \<in> set (ParseQuery b CHR ''&'') \<Longrightarrow>
      norm_key (be_ct env) (get_map tx V_ArgsPost) k' = norm_key (be_ct env) (get_map tx V_ArgsPost) k \<Longrightarrow> (k', vs') = (k, vs)"
    and "urlencoded_ProcessRequest env b opts tx = (err, tx')"
  shows "Map_Get (be_ct env) (get_map tx' V_ArgsPost) k = vs \<and> err = None \<and>
    get_single tx' V_RequestBody = b \<and> get_single tx' V_RequestBodyLength = itoa (int (length b))"
proof -
  have s: "set (be_order env (ParseQuery b CHR ''&'')) = set (ParseQuery b CHR ''&'')"
    by (rule mset_eq_setD) (use assms(1) in \<open>simp add: any_order_def\<close>)
  have n: "norm_key ct (fold (\<lambda>(k, vs) c. Map_Set ct c k vs) xs c) = norm_key ct c" for ct xs c
    by (induction xs arbitrary: c) (auto simp: fun_eq_iff split: prod.splits)
  have "slot (get_map (set_values env V_ArgsPost (ParseQuery b CHR ''&'') tx) V_ArgsPost) (norm_key (be_ct env) (get_map tx V_ArgsPost) k)
      = map (\<lambda>v. \<lparr>kv_key = k, kv_value = v\<rparr>) vs"
    unfolding get_map_set_values
  proof (rule slot_fold_Set)
    show "(k, vs) \<in> set (be_order env (ParseQuery b CHR ''&''))" unfolding s by (rule assms(2))
    show "(k', vs') = (k, vs)" if "(k', vs') \<in> set (be_order env (ParseQuery b CHR ''&''))"
      "norm_key (be_ct env) (get_map tx V_ArgsPost) k' = norm_key (be_ct env) (get_map tx V_ArgsPost) k" for k' vs'
      using that unfolding s by (rule assms(3))
  qed
  then have "Map_Get (be_ct env) (get_map (set_values env V_ArgsPost (ParseQuery b CHR ''&'') tx) V_ArgsPost) k = vs"
    unfolding Map_Get_slot get_map_set_values n by (simp add: o_def)
  moreover have "tx' = set_request_body b (set_values env V_ArgsPost (ParseQuery b CHR ''&'') tx)" "err = None"
    using assms(4) by (simp_all add: urlencoded_ProcessRequest_def)
  ultimately show ?thesis by (simp add: set_request_body_def)
qed

theorem urlencoded_files_arguments_witness:
  "Map_Get (be_ct sample_body_env)
     (get_map (snd (urlencoded_ProcessRequest sample_body_env ''a=1'' sample_body_options sample_transaction)) V_ArgsPost) ''a'' = [''1'']"
proof -
  have p: "ParseQuery ''a=1'' CHR ''&'' = [(''a'', [''1''])]"
    using parse_query_loop_segments [of "[(''a'', ''1'')]" "[]"] by (simp add: parse_sample_defs)
  have "urlencoded_ProcessRequest sample_body_env ''a=1'' sample_body_options sample_transaction =
      (None, snd (urlencoded_ProcessRequest sample_body_env ''a=1'' sample_body_options sample_transaction))"
    by (simp only: urlencoded_ProcessRequest_def snd_conv)
  from urlencoded_files_arguments [OF sample_any_order _ _ this, of "''a''" "[''1'']"] show ?thesis
    unfolding p by simp
qed



end
