(* ===== verification/Lifecycle.thy ===== *)
theory Lifecycle
  imports Audit_Log Body_Processors
begin

text \<open>
  The life of a transaction (\<open>internal/corazawaf/transaction.go\<close>): the calls a connector makes from the
  request headers to the log, with the bodies in between. \<open>None\<close> is a run-time panic. Debug log
  lines are left out. Readers a call opens and drains itself are represented by the bytes they
  deliver.
\<close>

section \<open>Phases\<close>

record life_env =
  le_eval :: eval_env
  le_body :: body_env
  le_io :: io_env
  le_audit :: audit_env
  le_url :: "string \<Rightarrow> parsed_url result"

abbreviation le_ct :: "life_env \<Rightarrow> case_table" where
  "le_ct env \<equiv> ev_ct (le_eval env)"

definition run_phase :: "life_env \<Rightarrow> waf \<Rightarrow> rule_phase \<Rightarrow> transaction \<Rightarrow> transaction option" where
  "run_phase env w phase tx = map_option snd (Eval (le_eval env) w phase tx)"

definition ProcessRequestHeaders :: "life_env \<Rightarrow> waf \<Rightarrow> transaction \<Rightarrow> (interruption option \<times> transaction) option" where
  "ProcessRequestHeaders env w tx =
     (if IsRuleEngineOff tx then Some (None, tx)
      else if PhaseRequestHeaders \<le> tx_lastPhase tx then Some (tx_interruption tx, tx)
      else if IsInterrupted tx then Some (tx_interruption tx, tx)
      else do { tx1 \<leftarrow> run_phase env w PhaseRequestHeaders tx; Some (tx_interruption tx1, tx1) })"

type_synonym write_result = "interruption option \<times> int \<times> error option"

definition setAndReturnBodyLimitInterruption :: "int \<Rightarrow> transaction \<Rightarrow> write_result \<times> transaction" where
  "setAndReturnBodyLimitInterruption status tx =
     (let i = \<lparr>i_RuleID = 0, i_Action = ''deny'', i_Status = status, i_Data = []\<rparr>
      in ((Some i, 0, None), tx\<lparr>tx_interruption := Some i\<rparr>))"

section \<open>Request body\<close>

text \<open>The processor of the request body: a forced one is recorded in \<open>REQBODY_PROCESSOR\<close>.\<close>

definition choose_processor :: "transaction \<Rightarrow> string \<times> transaction" where
  "choose_processor tx =
     (let rbp = get_single tx V_ReqbodyProcessor
      in if tx_ForceRequestBodyVariable tx then
           (let r = (if rbp = [] then ''URLENCODED'' else rbp) in (r, set_single V_ReqbodyProcessor r tx))
         else (rbp, tx))"

definition process_request_body :: "life_env \<Rightarrow> waf \<Rightarrow> string \<Rightarrow> string \<Rightarrow> transaction \<Rightarrow> transaction" where
  "process_request_body env w rbp mimeType tx =
     (case GetBodyProcessor (le_ct env) rbp of
        Inl _ \<Rightarrow> generateRequestBodyError (Error ''invalid body processor'') tx
      | Inr p \<Rightarrow>
          (case ProcessRequest p (le_body env) (body_bytes (HasAccessToFS (le_io env)) (tx_requestBodyBuffer tx))
                  \<lparr>bpo_Mime = mimeType, bpo_StoragePath = waf_UploadDir w,
                   bpo_RequestBodyRecursionLimit = waf_RequestBodyJsonDepthLimit w\<rparr> tx of
             (Some e, tx1) \<Rightarrow> generateRequestBodyError e tx1
           | (None, tx1) \<Rightarrow> tx1))"

definition ProcessRequestBody :: "life_env \<Rightarrow> waf \<Rightarrow> transaction \<Rightarrow> ((interruption option \<times> error option) \<times> transaction) option" where
  "ProcessRequestBody env w tx =
     (let finish = (\<lambda>tx. do { tx1 \<leftarrow> run_phase env w PhaseRequestBody tx; Some ((tx_interruption tx1, None), tx1) })
      in if IsRuleEngineOff tx then Some ((None, None), tx)
         else if IsInterrupted tx then Some ((tx_interruption tx, None), tx)
         else if tx_lastPhase tx \<noteq> PhaseRequestHeaders then Some ((None, None), tx)
         else if \<not> tx_RequestBodyAccess tx \<or> bb_length (tx_requestBodyBuffer tx) = 0 then finish tx
         else
           let mimeType = first_value (Map_Get (le_ct env) (get_map tx V_RequestHeaders) ''content-type'');
               (rbp0, tx1) = choose_processor tx;
               rbp = to_lower (le_ct env) rbp0
           in if rbp = [] then finish tx1 else finish (process_request_body env w rbp mimeType tx1))"

definition write_request :: "life_env \<Rightarrow> waf \<Rightarrow> string \<Rightarrow> int \<Rightarrow> bool \<Rightarrow> transaction \<Rightarrow> (write_result \<times> transaction) option" where
  "write_request env w b n run tx =
     (if n < 0 \<or> int (length b) < n then None
     else case Write (le_io env) (tx_requestBodyBuffer tx) (take (nat n) b) of
       (k, Some e, buf) \<Rightarrow> Some ((None, 0, Some e), tx\<lparr>tx_requestBodyBuffer := buf\<rparr>)
     | (k, None, buf) \<Rightarrow>
         let tx1 = tx\<lparr>tx_requestBodyBuffer := buf\<rparr>
         in if run then do { ((_, err), tx2) \<leftarrow> ProcessRequestBody env w tx1; Some ((tx_interruption tx2, k, err), tx2) }
            else Some ((tx_interruption tx1, k, None), tx1))"

definition WriteRequestBody :: "life_env \<Rightarrow> waf \<Rightarrow> string \<Rightarrow> transaction \<Rightarrow> (write_result \<times> transaction) option" where
  "WriteRequestBody env w b tx =
     (let len = bb_length (tx_requestBodyBuffer tx)
      in if IsRuleEngineOff tx then Some ((None, 0, None), tx)
         else if \<not> tx_RequestBodyAccess tx then Some ((None, 0, None), tx)
         else if tx_RequestBodyLimit tx = len then
           Some ((case waf_RequestBodyLimitAction w of
                    BodyLimitActionReject \<Rightarrow> tx_interruption tx
                  | BodyLimitActionProcessPartial \<Rightarrow> None, 0, None), tx)
         else if max_int64 - int (length b) \<le> len then
           Some ((None, 0, Some (Error ''overflow reached while writing request body'')), tx)
         else if tx_RequestBodyLimit tx \<le> len + int (length b) then
           (case waf_RequestBodyLimitAction w of
              BodyLimitActionReject \<Rightarrow>
                Some (setAndReturnBodyLimitInterruption 413 (set_single V_InboundDataError ''1'' tx))
            | BodyLimitActionProcessPartial \<Rightarrow>
                write_request env w b (wrap64 (tx_RequestBodyLimit tx - len)) True (set_single V_InboundDataError ''1'' tx))
         else write_request env w b (int (length b)) False tx)"

section \<open>Reading a body from a reader\<close>

text \<open>
  A reader is the chunks its successive reads deliver, the error after them, if it is not the end
  of input, and its length when it is a \<open>ByteLenger\<close>. \<open>io.CopyN\<close> writes the chunks, cut off after
  \<open>n\<close> bytes.
\<close>

record body_source =
  src_chunks :: "string list"
  src_err :: "error option"
  src_Len :: "int option"

fun copy_chunks :: "io_env \<Rightarrow> string list \<Rightarrow> error option \<Rightarrow> int \<Rightarrow> int \<Rightarrow> body_buffer \<Rightarrow> int \<times> error option \<times> body_buffer" where
  "copy_chunks io [] err n written br = (written, err, br)"
| "copy_chunks io (c # cs) err n written br =
     (if n \<le> written then (written, None, br)
      else
        let piece = take (nat (n - written)) c
        in case Write io br piece of
          (k, Some e, br1) \<Rightarrow> (written + k, Some e, br1)
        | (k, None, br1) \<Rightarrow> copy_chunks io cs err n (written + k) br1)"

definition EOF :: error where "EOF = Error ''EOF''"

definition CopyN :: "io_env \<Rightarrow> body_buffer \<Rightarrow> body_source \<Rightarrow> int \<Rightarrow> int \<times> error option \<times> body_buffer" where
  "CopyN io br r n =
     (case copy_chunks io (src_chunks r) (src_err r) n 0 br of (written, err, br1) \<Rightarrow>
        (written, if written = n then None else if written < n \<and> err = None then Some EOF else err, br1))"

definition copy_request :: "life_env \<Rightarrow> waf \<Rightarrow> body_source \<Rightarrow> int \<Rightarrow> bool \<Rightarrow> transaction \<Rightarrow> (write_result \<times> transaction) option" where
  "copy_request env w r n run tx =
     (case CopyN (le_io env) (tx_requestBodyBuffer tx) r n of (k, err, buf) \<Rightarrow>
       let tx1 = tx\<lparr>tx_requestBodyBuffer := buf\<rparr>;
           full = (bb_length buf = tx_RequestBodyLimit tx);
           tx2 = (if full then set_single V_InboundDataError ''1'' tx1 else tx1)
       in if err \<noteq> None \<and> err \<noteq> Some EOF then Some ((None, k, err), tx1)
          else if full \<and> waf_RequestBodyLimitAction w = BodyLimitActionReject then
            Some (setAndReturnBodyLimitInterruption 413 tx2)
          else if run \<or> full \<and> waf_RequestBodyLimitAction w = BodyLimitActionProcessPartial then
            do { ((_, err), tx3) \<leftarrow> ProcessRequestBody env w tx2; Some ((tx_interruption tx3, k, err), tx3) }
          else Some ((tx_interruption tx2, k, None), tx2))"

definition ReadRequestBodyFrom :: "life_env \<Rightarrow> waf \<Rightarrow> body_source \<Rightarrow> transaction \<Rightarrow> (write_result \<times> transaction) option" where
  "ReadRequestBodyFrom env w r tx =
     (let len = bb_length (tx_requestBodyBuffer tx); limit = tx_RequestBodyLimit tx
      in if IsRuleEngineOff tx then Some ((None, 0, None), tx)
         else if \<not> tx_RequestBodyAccess tx then Some ((None, 0, None), tx)
         else if limit = len then
           Some ((case waf_RequestBodyLimitAction w of
                    BodyLimitActionReject \<Rightarrow> tx_interruption tx
                  | BodyLimitActionProcessPartial \<Rightarrow> None, 0, None), tx)
         else case src_Len r of
           None \<Rightarrow> copy_request env w r (wrap64 (limit - len)) False tx
         | Some n \<Rightarrow>
             if max_int64 - n \<le> len then
               Some ((None, 0, Some (Error ''overflow reached while writing request body'')), tx)
             else if limit \<le> len + n then
               (case waf_RequestBodyLimitAction w of
                  BodyLimitActionReject \<Rightarrow>
                    Some (setAndReturnBodyLimitInterruption 413 (set_single V_InboundDataError ''1'' tx))
                | BodyLimitActionProcessPartial \<Rightarrow>
                    copy_request env w r (wrap64 (limit - len)) True (set_single V_InboundDataError ''1'' tx))
             else copy_request env w r n False tx)"

section \<open>Response\<close>

definition ProcessResponseHeaders :: "life_env \<Rightarrow> waf \<Rightarrow> int \<Rightarrow> string \<Rightarrow> transaction \<Rightarrow> (interruption option \<times> transaction) option" where
  "ProcessResponseHeaders env w code proto tx =
     (if IsRuleEngineOff tx then Some (None, tx)
      else if PhaseResponseHeaders \<le> tx_lastPhase tx then Some (tx_interruption tx, tx)
      else if IsInterrupted tx then Some (tx_interruption tx, tx)
      else do {
        tx1 \<leftarrow> run_phase env w PhaseResponseHeaders
          (set_single V_ResponseProtocol proto (set_single V_ResponseStatus (itoa code) tx));
        Some (tx_interruption tx1, tx1)
      })"

definition IsResponseBodyProcessable :: "waf \<Rightarrow> transaction \<Rightarrow> bool" where
  "IsResponseBodyProcessable w tx =
     (tx_ForceResponseBodyVariable tx \<or> InSlice (get_single tx V_ResponseContentType) (waf_ResponseBodyMimeTypes w))"

definition process_response_body :: "life_env \<Rightarrow> string \<Rightarrow> transaction \<Rightarrow> error option \<times> transaction" where
  "process_response_body env bp tx =
     (let body = body_bytes (HasAccessToFS (le_io env)) (tx_responseBodyBuffer tx)
      in if bp \<noteq> [] then
           (case GetBodyProcessor (le_ct env) bp of
              Inl e \<Rightarrow> (Some e, generateResponseBodyError (Error ''invalid body processor'') tx)
            | Inr p \<Rightarrow>
                (case ProcessResponse p (le_body env) body
                        \<lparr>bpo_Mime = [], bpo_StoragePath = [], bpo_RequestBodyRecursionLimit = 0\<rparr> tx of
                   (Some e, tx1) \<Rightarrow> (None, generateResponseBodyError e tx1)
                 | (None, tx1) \<Rightarrow> (None, tx1)))
         else (None, set_single V_ResponseBody body (set_single V_ResponseContentLength (itoa (int (length body))) tx)))"

definition ProcessResponseBody :: "life_env \<Rightarrow> waf \<Rightarrow> transaction \<Rightarrow> ((interruption option \<times> error option) \<times> transaction) option" where
  "ProcessResponseBody env w tx =
     (let finish = (\<lambda>err tx. do { tx1 \<leftarrow> run_phase env w PhaseResponseBody tx; Some ((tx_interruption tx1, err), tx1) })
      in if IsRuleEngineOff tx then Some ((None, None), tx)
         else if IsInterrupted tx then Some ((tx_interruption tx, None), tx)
         else if tx_lastPhase tx \<noteq> PhaseResponseHeaders then Some ((None, None), tx)
         else if \<not> tx_ResponseBodyAccess tx \<or> \<not> IsResponseBodyProcessable w tx then finish None tx
         else case process_response_body env (get_single tx V_ResBodyProcessor) tx of (err, tx1) \<Rightarrow> finish err tx1)"

definition write_response :: "life_env \<Rightarrow> waf \<Rightarrow> string \<Rightarrow> int \<Rightarrow> bool \<Rightarrow> transaction \<Rightarrow> (write_result \<times> transaction) option" where
  "write_response env w b n run tx =
     (if n < 0 \<or> int (length b) < n then None
     else case Write (le_io env) (tx_responseBodyBuffer tx) (take (nat n) b) of
       (k, Some e, buf) \<Rightarrow> Some ((None, 0, Some e), tx\<lparr>tx_responseBodyBuffer := buf\<rparr>)
     | (k, None, buf) \<Rightarrow>
         let tx1 = tx\<lparr>tx_responseBodyBuffer := buf\<rparr>
         in if run then do { ((_, err), tx2) \<leftarrow> ProcessResponseBody env w tx1; Some ((tx_interruption tx2, k, err), tx2) }
            else Some ((tx_interruption tx1, k, None), tx1))"

definition WriteResponseBody :: "life_env \<Rightarrow> waf \<Rightarrow> string \<Rightarrow> transaction \<Rightarrow> (write_result \<times> transaction) option" where
  "WriteResponseBody env w b tx =
     (let len = bb_length (tx_responseBodyBuffer tx)
      in if IsRuleEngineOff tx then Some ((None, 0, None), tx)
         else if \<not> tx_ResponseBodyAccess tx then Some ((None, 0, None), tx)
         else if tx_ResponseBodyLimit tx = len then
           Some ((case waf_ResponseBodyLimitAction w of
                    BodyLimitActionReject \<Rightarrow> tx_interruption tx
                  | BodyLimitActionProcessPartial \<Rightarrow> None, 0, None), tx)
         else if tx_ResponseBodyLimit tx \<le> wrap64 (len + int (length b)) then
           (case waf_ResponseBodyLimitAction w of
              BodyLimitActionReject \<Rightarrow>
                Some (setAndReturnBodyLimitInterruption 500 (set_single V_OutboundDataError ''1'' tx))
            | BodyLimitActionProcessPartial \<Rightarrow>
                write_response env w b (wrap64 (tx_ResponseBodyLimit tx - len)) True (set_single V_OutboundDataError ''1'' tx))
         else write_response env w b (int (length b)) False tx)"

definition copy_response :: "life_env \<Rightarrow> waf \<Rightarrow> body_source \<Rightarrow> int \<Rightarrow> bool \<Rightarrow> transaction \<Rightarrow> (write_result \<times> transaction) option" where
  "copy_response env w r n run tx =
     (case CopyN (le_io env) (tx_responseBodyBuffer tx) r n of (k, err, buf) \<Rightarrow>
       let tx1 = tx\<lparr>tx_responseBodyBuffer := buf\<rparr>;
           full = (bb_length buf = tx_ResponseBodyLimit tx);
           tx2 = (if full then set_single V_OutboundDataError ''1'' tx1 else tx1)
       in if err \<noteq> None \<and> err \<noteq> Some EOF then Some ((None, k, err), tx1)
          else if full \<and> waf_ResponseBodyLimitAction w = BodyLimitActionReject then
            Some (setAndReturnBodyLimitInterruption 500 tx2)
          else if run \<or> full \<and> waf_ResponseBodyLimitAction w = BodyLimitActionProcessPartial then
            do { ((_, err), tx3) \<leftarrow> ProcessResponseBody env w tx2; Some ((tx_interruption tx3, k, err), tx3) }
          else Some ((tx_interruption tx2, k, None), tx2))"

definition ReadResponseBodyFrom :: "life_env \<Rightarrow> waf \<Rightarrow> body_source \<Rightarrow> transaction \<Rightarrow> (write_result \<times> transaction) option" where
  "ReadResponseBodyFrom env w r tx =
     (let len = bb_length (tx_responseBodyBuffer tx); limit = tx_ResponseBodyLimit tx
      in if IsRuleEngineOff tx then Some ((None, 0, None), tx)
         else if \<not> tx_ResponseBodyAccess tx then Some ((None, 0, None), tx)
         else if limit = len then
           Some ((case waf_ResponseBodyLimitAction w of
                    BodyLimitActionReject \<Rightarrow> tx_interruption tx
                  | BodyLimitActionProcessPartial \<Rightarrow> None, 0, None), tx)
         else case src_Len r of
           None \<Rightarrow> copy_response env w r (wrap64 (limit - len)) False tx
         | Some n \<Rightarrow>
             if limit \<le> wrap64 (len + n) then
               (case waf_ResponseBodyLimitAction w of
                  BodyLimitActionReject \<Rightarrow>
                    Some (setAndReturnBodyLimitInterruption 500 (set_single V_OutboundDataError ''1'' tx))
                | BodyLimitActionProcessPartial \<Rightarrow>
                    copy_response env w r (wrap64 (limit - len)) True (set_single V_OutboundDataError ''1'' tx))
             else copy_response env w r n False tx)"

section \<open>Logging\<close>

text \<open>The audit log entry that is handed to the writer, if there is one.\<close>

definition ProcessLogging :: "life_env \<Rightarrow> waf \<Rightarrow> transaction \<Rightarrow> (audit_log option \<times> transaction) option" where
  "ProcessLogging env w tx =
     do {
       tx1 \<leftarrow> (if IsRuleEngineOff tx then Some tx else run_phase env w PhaseLogging tx);
       if audit_relevant w tx1 then map_option (\<lambda>al. (Some al, tx1)) (AuditLog (le_audit env) w tx1)
       else Some (None, tx1)
     }"

section \<open>Calls of a connector\<close>

text \<open>What a connector may call between \<open>NewTransaction\<close> and \<open>Close\<close>, in any order.\<close>

datatype call =
    ConnectionCall string int string int
  | URICall string string string
  | RequestHeaderCall string string
  | GetArgumentCall string string
  | PostArgumentCall string string
  | PathArgumentCall string string
  | ServerNameCall string
  | RequestHeadersCall
  | WriteRequestCall string
  | ReadRequestCall body_source
  | RequestBodyCall
  | ResponseHeaderCall string string
  | ResponseArgumentCall string string
  | ResponseHeadersCall int string
  | WriteResponseCall string
  | ReadResponseCall body_source
  | ResponseBodyCall
  | LoggingCall

fun tx_step :: "life_env \<Rightarrow> waf \<Rightarrow> call \<Rightarrow> transaction \<Rightarrow> transaction option" where
  "tx_step env w (ConnectionCall client cPort server sPort) tx = Some (ProcessConnection client cPort server sPort tx)"
| "tx_step env w (URICall uri method version) tx = Some (ProcessURI (le_ct env) (le_url env) w uri method version tx)"
| "tx_step env w (RequestHeaderCall k v) tx = Some (AddRequestHeader (le_ct env) k v tx)"
| "tx_step env w (GetArgumentCall k v) tx = Some (AddGetRequestArgument (le_ct env) w k v tx)"
| "tx_step env w (PostArgumentCall k v) tx = Some (AddPostRequestArgument (le_ct env) w k v tx)"
| "tx_step env w (PathArgumentCall k v) tx = Some (AddPathRequestArgument (le_ct env) w k v tx)"
| "tx_step env w (ServerNameCall name) tx = Some (SetServerName name tx)"
| "tx_step env w RequestHeadersCall tx = map_option snd (ProcessRequestHeaders env w tx)"
| "tx_step env w (WriteRequestCall b) tx = map_option snd (WriteRequestBody env w b tx)"
| "tx_step env w (ReadRequestCall r) tx = map_option snd (ReadRequestBodyFrom env w r tx)"
| "tx_step env w RequestBodyCall tx = map_option snd (ProcessRequestBody env w tx)"
| "tx_step env w (ResponseHeaderCall k v) tx = Some (AddResponseHeader (le_ct env) k v tx)"
| "tx_step env w (ResponseArgumentCall k v) tx = Some (AddResponseArgument (le_ct env) w k v tx)"
| "tx_step env w (ResponseHeadersCall code proto) tx = map_option snd (ProcessResponseHeaders env w code proto tx)"
| "tx_step env w (WriteResponseCall b) tx = map_option snd (WriteResponseBody env w b tx)"
| "tx_step env w (ReadResponseCall r) tx = map_option snd (ReadResponseBodyFrom env w r tx)"
| "tx_step env w ResponseBodyCall tx = map_option snd (ProcessResponseBody env w tx)"
| "tx_step env w LoggingCall tx = map_option snd (ProcessLogging env w tx)"

text \<open>The slices of a call fit in memory, so their lengths are values of \<open>int\<close>.\<close>

fun call_ok :: "call \<Rightarrow> bool" where
  "call_ok (WriteRequestCall b) = small b"
| "call_ok (WriteResponseCall b) = small b"
| "call_ok (ReadRequestCall r) = list_all small (src_chunks r)"
| "call_ok (ReadResponseCall r) = list_all small (src_chunks r)"
| "call_ok _ = True"

inductive reachable :: "life_env \<Rightarrow> waf \<Rightarrow> transaction \<Rightarrow> bool" for env w where
  new_transaction: "reachable env w (newTransaction (le_ct env) off w txid now None)"
| next_call: "reachable env w tx \<Longrightarrow> call_ok c \<Longrightarrow> tx_step env w c tx = Some tx' \<Longrightarrow> reachable env w tx'"

end
