(* ===== verification/Lifecycle_Flow.thy ===== *)
theory Lifecycle_Flow
  imports Lifecycle
begin

text \<open>
  Lemmas on the life of a transaction: what the evaluation of a phase leaves alone, the calls of a
  connector as the steps of a transition system, and the invariant of the reachable transactions.
\<close>

section \<open>Body limits under evaluation\<close>

definition limits_kept :: "transaction \<Rightarrow> transaction \<Rightarrow> bool" where
  "limits_kept tx tx' =
     (tx_RequestBodyLimit tx' = tx_RequestBodyLimit tx \<and> tx_ResponseBodyLimit tx' = tx_ResponseBodyLimit tx)"

definition keeps_limits :: "action \<Rightarrow> bool" where
  "keeps_limits a =
     (case a of ctlFn c \<Rightarrow> ctl_action c \<noteq> ctlRequestBodyLimit \<and> ctl_action c \<noteq> ctlResponseBodyLimit | _ \<Rightarrow> True)"

lemma limits_kept_refl [simp]: "limits_kept tx tx"
  by (simp add: limits_kept_def)

lemma limits_kept_trans: "limits_kept tx tx' \<Longrightarrow> limits_kept tx' tx'' \<Longrightarrow> limits_kept tx tx''"
  by (simp add: limits_kept_def)

lemma limits_kept_vars: "vars_only tx tx' \<Longrightarrow> limits_kept tx tx'"
  unfolding vars_only_def limits_kept_def by (metis transaction.surjective transaction.update_convs(27) transaction.select_convs(12,15))

lemma limits_kept_removals:
  "limits_kept tx (RemoveRuleByID i tx)" "limits_kept tx (RemoveRuleByIDRange i j tx)"
  "limits_kept tx (RemoveRuleTargetByID i v k x tx)"
  using add_target_fields [of i v k x tx]
  by (auto simp: limits_kept_def RemoveRuleByID_def RemoveRuleByIDRange_def)

lemma limits_kept_ctl:
  "ctl_action c \<noteq> ctlRequestBodyLimit \<Longrightarrow> ctl_action c \<noteq> ctlResponseBodyLimit \<Longrightarrow> limits_kept tx (ctl_Evaluate ct w c tx)"
  using for_rules_rel [where P = limits_kept, OF limits_kept_refl limits_kept_trans]
  by (cases "ctl_action c")
    (auto simp: ctl_Evaluate_def Let_def or_unchanged_def on_off_def limits_kept_removals set_single_def split: sum.splits prod.splits,
     auto simp: limits_kept_def)

lemma limits_kept_action: "keeps_limits a \<Longrightarrow> action_Evaluate ct w r a tx = Some tx' \<Longrightarrow> limits_kept tx tx'"
  by (cases a)
    (auto simp: action_Evaluate_def keeps_limits_def limits_kept_ctl deny_Evaluate_def drop_Evaluate_def redirect_Evaluate_def
      Let_def Allow_def setenv_Evaluate_def setvar_Evaluate_def vars_only_setvar split: option.splits
      intro: limits_kept_vars, auto simp: limits_kept_def Interrupt_def split: rule_engine_status.splits)

interpretation limits: eval_steps env w limits_kept keeps_limits for env w
proof unfold_locales
  show "limits_kept tx tx'" if "op_effect (ev_ct env) tx tx'" for tx tx'
    using that by (auto simp: op_effect_def intro: limits_kept_vars)
  show "limits_kept tx (set_rule_index (ev_ct env) k v tx)" for k v tx
    by (auto simp: set_rule_index_def intro: limits_kept_vars)
  show "limits_kept tx (reset_matched_vars tx)" for tx
    by (auto simp: reset_matched_vars_def intro: limits_kept_vars)
  show "limits_kept tx (MatchRule w r mds tx)" for r mds tx
    by (simp add: MatchRule_def Let_def update_severity_def limits_kept_def set_single_def)
  show "limits_kept tx tx''" if "limits_kept tx tx'" "limits_kept tx' tx''" for tx tx' tx''
    using that by (rule limits_kept_trans)
qed (auto intro: limits_kept_vars limits_kept_action, auto simp: limits_kept_def set_caches_def)

definition rules_keep_limits :: "waf \<Rightarrow> bool" where
  "rules_keep_limits w =
     list_all (\<lambda>rl. list_all (\<lambda>r. list_all (\<lambda>a. keeps_limits (snd a)) (r_actions r)) (chain_rules rl)) (waf_Rules w)"

lemma Eval_limits:
  assumes "Eval env w phase tx = Some (b, tx')" "rules_keep_limits w"
  shows "limits_kept tx tx'"
  using assms(1)
proof (cases rule: Eval_SomeD)
  case (1 tx1)
  have "limits_kept (resetTransformationCaches (tx\<lparr>tx_lastPhase := phase\<rparr>)) tx1"
    by (rule limits.eval_rules_R [OF _ 1(1)]) (use assms(2) in \<open>simp add: limits.actions_ok_def rules_keep_limits_def list_all_iff\<close>)
  then show ?thesis using 1(2) by (auto simp: limits_kept_def resetTransformationCaches_def)
qed

section \<open>Phases\<close>

lemma run_phase_SomeD: "run_phase env w phase tx = Some tx' \<Longrightarrow> \<exists>b. Eval (le_eval env) w phase tx = Some (b, tx')"
  by (auto simp: run_phase_def)

lemma run_phase_evolves: "run_phase env w phase tx = Some tx' \<Longrightarrow> tx_evolves (le_ct env) (tx\<lparr>tx_lastPhase := phase\<rparr>) tx'"
  using Eval_evolves run_phase_SomeD by blast

lemma run_phase_limits: "run_phase env w phase tx = Some tx' \<Longrightarrow> rules_keep_limits w \<Longrightarrow> limits_kept tx tx'"
  using Eval_limits run_phase_SomeD by blast

lemma run_phase_total:
  assumes "list_all rule_safe (waf_Rules w)"
  shows "\<exists>tx'. run_phase env w phase tx = Some tx'"
proof -
  obtain tx' where "eval_rules (le_eval env) w phase (waf_Rules w) (resetTransformationCaches (tx\<lparr>tx_lastPhase := phase\<rparr>)) = Some tx'"
    using eval_rules_total [OF assms] by blast
  then show ?thesis by (simp add: run_phase_def Eval_def Let_def)
qed

section \<open>Quiet steps\<close>

text \<open>
  Every call first files variables, writes to the body buffers or records the interruption of a
  body that is too long; all of this leaves the rules alone. At most one phase is evaluated after
  that, and only when it is due.
\<close>

inductive quiet_step :: "life_env \<Rightarrow> transaction \<Rightarrow> transaction \<Rightarrow> bool" for env where
  fill: "fills (le_ct env) tx tx' \<Longrightarrow> quiet_step env tx tx'"
| request_write: "small d \<Longrightarrow> Write (le_io env) (tx_requestBodyBuffer tx) d = (k, e, buf) \<Longrightarrow>
    quiet_step env tx (tx\<lparr>tx_requestBodyBuffer := buf\<rparr>)"
| response_write: "small d \<Longrightarrow> Write (le_io env) (tx_responseBodyBuffer tx) d = (k, e, buf) \<Longrightarrow>
    quiet_step env tx (tx\<lparr>tx_responseBodyBuffer := buf\<rparr>)"
| reject: "quiet_step env tx (snd (setAndReturnBodyLimitInterruption status tx))"

abbreviation quiet :: "life_env \<Rightarrow> transaction \<Rightarrow> transaction \<Rightarrow> bool" where
  "quiet env \<equiv> (quiet_step env)\<^sup>*\<^sup>*"

definition phase_due :: "rule_phase \<Rightarrow> transaction \<Rightarrow> bool" where
  "phase_due p tx =
     (\<not> IsRuleEngineOff tx \<and>
      (case p of
         PhaseRequestHeaders \<Rightarrow> tx_lastPhase tx < PhaseRequestHeaders \<and> \<not> IsInterrupted tx
       | PhaseRequestBody \<Rightarrow> tx_lastPhase tx = PhaseRequestHeaders \<and> \<not> IsInterrupted tx
       | PhaseResponseHeaders \<Rightarrow> tx_lastPhase tx < PhaseResponseHeaders \<and> \<not> IsInterrupted tx
       | PhaseResponseBody \<Rightarrow> tx_lastPhase tx = PhaseResponseHeaders \<and> \<not> IsInterrupted tx
       | PhaseLogging \<Rightarrow> True
       | _ \<Rightarrow> False))"

definition call_effect :: "life_env \<Rightarrow> waf \<Rightarrow> transaction \<Rightarrow> transaction \<Rightarrow> bool" where
  "call_effect env w tx tx' =
     (\<exists>tx1. quiet env tx tx1 \<and> (tx' = tx1 \<or> (\<exists>p. phase_due p tx1 \<and> run_phase env w p tx1 = Some tx')))"

lemma call_effect_refl [simp, intro]: "call_effect env w tx tx"
  by (auto simp: call_effect_def)

lemma call_effect_quiet: "quiet env tx tx1 \<Longrightarrow> call_effect env w tx1 tx' \<Longrightarrow> call_effect env w tx tx'"
  by (auto simp: call_effect_def intro: rtranclp_trans)

lemma call_effect_step: "quiet_step env tx tx1 \<Longrightarrow> call_effect env w tx1 tx' \<Longrightarrow> call_effect env w tx tx'"
  by (rule call_effect_quiet) auto

lemma call_effect_phase: "phase_due p tx \<Longrightarrow> run_phase env w p tx = Some tx' \<Longrightarrow> call_effect env w tx tx'"
  by (auto simp: call_effect_def)

lemma quiet_set_single: "quiet env tx (set_single v x tx)"
  by (rule r_into_rtranclp) (simp add: fill)

section \<open>The effect of every call\<close>

definition env_ok :: "life_env \<Rightarrow> bool" where
  "env_ok env = (be_ct (le_body env) = le_ct env)"

lemma fills_single: "fills ct tx t \<Longrightarrow> fills ct tx (set_single v x t)"
  by (rule fills_trans [OF _ fills_steps(1)])

lemma fills_each_value: "(\<And>k v tx. fills ct tx (f k v tx)) \<Longrightarrow> fills ct tx (each_value f m tx)"
  unfolding each_value_def by (rule fills_fold) (auto split: prod.splits intro: fills_fold)

lemma fills_errors [simp, intro]:
  "fills ct tx (generateRequestBodyError e tx)" "fills ct tx (generateResponseBodyError e tx)"
  by (auto simp: generateRequestBodyError_def generateResponseBodyError_def split: error.splits intro!: fills_single)

lemma fills_arguments [simp, intro]:
  "fills ct tx (AddGetRequestArgument ct w k v tx)"
  "fills ct tx (AddPostRequestArgument ct w k v tx)"
  "fills ct tx (AddPathRequestArgument ct w k v tx)"
  "fills ct tx (AddResponseArgument ct w k v tx)"
  "fills ct tx (ExtractGetArguments ct w uri tx)"
proof -
  show g: "fills ct tx (AddGetRequestArgument ct w k v tx)" for k v tx
    by (simp add: AddGetRequestArgument_def add_argument_def)
  show "fills ct tx (ExtractGetArguments ct w uri tx)"
    unfolding ExtractGetArguments_def by (rule fills_each_value) (rule g)
qed (simp_all add: AddPostRequestArgument_def AddPathRequestArgument_def add_argument_def AddResponseArgument_def)

lemma fills_headers [simp, intro]: "fills ct tx (AddRequestHeader ct k v tx)" "fills ct tx (AddResponseHeader ct k v tx)"
proof -
  have c: "fills ct tx (each_value (\<lambda>k v tx. set_map V_RequestCookies (Map_Add ct (get_map tx V_RequestCookies) k v) tx) m
      (set_map u (Map_Add ct (get_map tx u) a b) tx))" for m u a b
    by (rule fills_trans [OF fills_steps(3) fills_each_value]) simp
  show "fills ct tx (AddRequestHeader ct k v tx)"
    by (auto simp: AddRequestHeader_def Let_def c intro: fills_single)
  show "fills ct tx (AddResponseHeader ct k v tx)"
    by (auto simp: AddResponseHeader_def Let_def intro: fills_single)
qed

lemma fills_setters [simp, intro]:
  "fills ct tx (ProcessConnection client cPort server sPort tx)"
  "fills ct tx (ProcessURI ct pu w uri method version tx)"
  "fills ct tx (SetServerName name tx)"
proof -
  have e: "fills ct tx (ExtractGetArguments ct w q t)" if "fills ct tx t" for q t
    using that by (rule fills_trans) simp
  show "fills ct tx (ProcessURI ct pu w uri method version tx)"
    by (auto simp: ProcessURI_def Let_def split: sum.splits error.splits option.splits intro!: fills_single e)
qed (auto simp: ProcessConnection_def SetServerName_def intro!: fills_single)

lemma fills_process_request_body: "env_ok env \<Longrightarrow> fills (le_ct env) tx (process_request_body env w rbp mime tx)"
  using ProcessRequest_fills [of "le_body env" tx]
  by (auto simp: process_request_body_def env_ok_def split: sum.splits prod.splits option.splits)
    (metis fills_errors(1) fills_trans snd_conv)+

lemma fills_process_response_body: "env_ok env \<Longrightarrow> fills (le_ct env) tx (snd (process_response_body env bp tx))"
  using ProcessResponse_fills [of "le_body env" tx]
  by (auto simp: process_response_body_def env_ok_def Let_def split: sum.splits prod.splits option.splits
      intro: fills_trans [OF fills_steps(1) fills_steps(1)])
    (metis fills_errors(2) fills_trans snd_conv)+

lemma fills_same:
  assumes "fills ct tx tx'"
  shows "tx_lastPhase tx' = tx_lastPhase tx" "tx_interruption tx' = tx_interruption tx" "tx_RuleEngine tx' = tx_RuleEngine tx"
    "tx_matchedRules tx' = tx_matchedRules tx" "tx_requestBodyBuffer tx' = tx_requestBodyBuffer tx"
    "tx_responseBodyBuffer tx' = tx_responseBodyBuffer tx" "tx_RequestBodyLimit tx' = tx_RequestBodyLimit tx"
    "tx_ResponseBodyLimit tx' = tx_ResponseBodyLimit tx" "tx_RequestBodyAccess tx' = tx_RequestBodyAccess tx"
    "tx_ResponseBodyAccess tx' = tx_ResponseBodyAccess tx" "tx_id tx' = tx_id tx"
proof -
  obtain vs where "tx' = tx\<lparr>tx_variables := vs\<rparr>" using assms unfolding fills_def by blast
  then show "tx_lastPhase tx' = tx_lastPhase tx" "tx_interruption tx' = tx_interruption tx" "tx_RuleEngine tx' = tx_RuleEngine tx"
    "tx_matchedRules tx' = tx_matchedRules tx" "tx_requestBodyBuffer tx' = tx_requestBodyBuffer tx"
    "tx_responseBodyBuffer tx' = tx_responseBodyBuffer tx" "tx_RequestBodyLimit tx' = tx_RequestBodyLimit tx"
    "tx_ResponseBodyLimit tx' = tx_ResponseBodyLimit tx" "tx_RequestBodyAccess tx' = tx_RequestBodyAccess tx"
    "tx_ResponseBodyAccess tx' = tx_ResponseBodyAccess tx" "tx_id tx' = tx_id tx"
    by simp_all
qed

lemma phase_due_fills: "fills ct tx tx' \<Longrightarrow> phase_due p tx' = phase_due p tx"
  by (simp add: phase_due_def IsRuleEngineOff_def IsInterrupted_def fills_same split: rule_phase.splits)

lemma call_effect_fills:
  "fills (le_ct env) tx tx1 \<Longrightarrow> phase_due p tx \<Longrightarrow> run_phase env w p tx1 = Some tx' \<Longrightarrow> call_effect env w tx tx'"
  by (rule call_effect_step [OF fill]) (auto simp: phase_due_fills intro: call_effect_phase)

lemma ProcessRequestBody_effect:
  assumes "env_ok env" "ProcessRequestBody env w tx = Some (r, tx')"
  shows "call_effect env w tx tx'"
proof (cases "IsRuleEngineOff tx \<or> IsInterrupted tx \<or> tx_lastPhase tx \<noteq> PhaseRequestHeaders")
  case True
  then show ?thesis using assms(2) by (auto simp: ProcessRequestBody_def Let_def split: if_splits)
next
  case False
  then have due: "phase_due PhaseRequestBody tx" by (simp add: phase_due_def)
  obtain rbp tx1 where c: "choose_processor tx = (rbp, tx1)" by fastforce
  then have f: "fills (le_ct env) tx tx1" by (auto simp: choose_processor_def Let_def split: if_splits)
  have "fills (le_ct env) tx (process_request_body env w b m tx1)" for b m
    using f fills_process_request_body [OF assms(1)] by (rule fills_trans)
  with f show ?thesis
    using assms(2) False due c
    by (auto simp: ProcessRequestBody_def Let_def split: if_splits Option.bind_splits intro: call_effect_fills call_effect_phase)
qed

lemma ProcessResponseBody_effect:
  assumes "env_ok env" "ProcessResponseBody env w tx = Some (r, tx')"
  shows "call_effect env w tx tx'"
proof (cases "IsRuleEngineOff tx \<or> IsInterrupted tx \<or> tx_lastPhase tx \<noteq> PhaseResponseHeaders")
  case True
  then show ?thesis using assms(2) by (auto simp: ProcessResponseBody_def Let_def split: if_splits)
next
  case False
  then have due: "phase_due PhaseResponseBody tx" by (simp add: phase_due_def)
  obtain err tx1 where c: "process_response_body env (get_single tx V_ResBodyProcessor) tx = (err, tx1)" by fastforce
  then have f: "fills (le_ct env) tx tx1" using fills_process_response_body [OF assms(1)] by (metis snd_conv)
  with due c show ?thesis
    using assms(2) False
    by (auto simp: ProcessResponseBody_def Let_def split: if_splits Option.bind_splits intro: call_effect_fills call_effect_phase)
qed

lemma small_take [simp]: "small b \<Longrightarrow> small (take n b)"
  by (auto simp: small_def)

lemma write_request_effect:
  assumes "fills (le_ct env) tx tx0" "small d" "Write (le_io env) (tx_requestBodyBuffer tx0) d = (k, e, buf)"
    and "call_effect env w (tx0\<lparr>tx_requestBodyBuffer := buf\<rparr>) tx'"
  shows "call_effect env w tx tx'"
  by (rule call_effect_step [OF fill [OF assms(1)] call_effect_step [OF request_write [OF assms(2,3)] assms(4)]])

lemma write_response_effect:
  assumes "fills (le_ct env) tx tx0" "small d" "Write (le_io env) (tx_responseBodyBuffer tx0) d = (k, e, buf)"
    and "call_effect env w (tx0\<lparr>tx_responseBodyBuffer := buf\<rparr>) tx'"
  shows "call_effect env w tx tx'"
  by (rule call_effect_step [OF fill [OF assms(1)] call_effect_step [OF response_write [OF assms(2,3)] assms(4)]])

lemma reject_effect: "fills (le_ct env) tx tx0 \<Longrightarrow> call_effect env w tx (snd (setAndReturnBodyLimitInterruption status tx0))"
  by (rule call_effect_step [OF fill call_effect_step [OF reject call_effect_refl]])

lemma write_request_result:
  assumes "env_ok env" "fills (le_ct env) tx tx0" "small b" "write_request env w b n run tx0 = Some (r, tx')"
  shows "call_effect env w tx tx'"
  using assms(4)
  by (auto simp: write_request_def Let_def split: if_splits prod.splits option.splits Option.bind_splits
      intro: write_request_effect [OF assms(2) small_take [OF assms(3)]] ProcessRequestBody_effect [OF assms(1)])

lemma WriteRequestBody_effect:
  assumes "env_ok env" "small b" "WriteRequestBody env w b tx = Some (r, tx')"
  shows "call_effect env w tx tx'"
  using assms(3) reject_effect [of env tx "set_single V_InboundDataError ''1'' tx" w 413]
  by (auto simp: WriteRequestBody_def Let_def split: if_splits body_limit_action.splits
      intro: write_request_result [OF assms(1) _ assms(2)])

lemma write_response_result:
  assumes "env_ok env" "fills (le_ct env) tx tx0" "small b" "write_response env w b n run tx0 = Some (r, tx')"
  shows "call_effect env w tx tx'"
  using assms(4)
  by (auto simp: write_response_def Let_def split: if_splits prod.splits option.splits Option.bind_splits
      intro: write_response_effect [OF assms(2) small_take [OF assms(3)]] ProcessResponseBody_effect [OF assms(1)])

lemma WriteResponseBody_effect:
  assumes "env_ok env" "small b" "WriteResponseBody env w b tx = Some (r, tx')"
  shows "call_effect env w tx tx'"
  using assms(3) reject_effect [of env tx "set_single V_OutboundDataError ''1'' tx" w 500]
  by (auto simp: WriteResponseBody_def Let_def split: if_splits body_limit_action.splits
      intro: write_response_result [OF assms(1) _ assms(2)])

lemma copy_chunks_quiet:
  "copy_chunks (le_io env) cs err n k0 (tx_requestBodyBuffer tx) = (k, e, buf) \<Longrightarrow> list_all small cs \<Longrightarrow>
     quiet env tx (tx\<lparr>tx_requestBodyBuffer := buf\<rparr>)"
  "copy_chunks (le_io env) cs err n k0 (tx_responseBodyBuffer tx) = (k, e, buf) \<Longrightarrow> list_all small cs \<Longrightarrow>
     quiet env tx (tx\<lparr>tx_responseBodyBuffer := buf\<rparr>)"
proof (induction cs arbitrary: k0 tx)
  case (Cons c cs)
  {
    case 1
    show ?case
    proof (cases "n \<le> k0")
      case False
      obtain j e1 br1 where w: "Write (le_io env) (tx_requestBodyBuffer tx) (take (nat (n - k0)) c) = (j, e1, br1)"
        by (metis prod_cases3)
      have q: "quiet_step env tx (tx\<lparr>tx_requestBodyBuffer := br1\<rparr>)" using 1(2) w by (intro request_write [OF _ w]) simp
      show ?thesis
      proof (cases e1)
        case None
        then have "quiet env (tx\<lparr>tx_requestBodyBuffer := br1\<rparr>) (tx\<lparr>tx_requestBodyBuffer := buf\<rparr>)"
          using 1 False w Cons.IH(1) [of "k0 + j" "tx\<lparr>tx_requestBodyBuffer := br1\<rparr>"] by simp
        with q show ?thesis by (rule converse_rtranclp_into_rtranclp)
      next
        case (Some x)
        then show ?thesis using 1(1) False w q by auto
      qed
    qed (use 1 in auto)
  next
    case 2
    show ?case
    proof (cases "n \<le> k0")
      case False
      obtain j e1 br1 where w: "Write (le_io env) (tx_responseBodyBuffer tx) (take (nat (n - k0)) c) = (j, e1, br1)"
        by (metis prod_cases3)
      have q: "quiet_step env tx (tx\<lparr>tx_responseBodyBuffer := br1\<rparr>)" using 2(2) w by (intro response_write [OF _ w]) simp
      show ?thesis
      proof (cases e1)
        case None
        then have "quiet env (tx\<lparr>tx_responseBodyBuffer := br1\<rparr>) (tx\<lparr>tx_responseBodyBuffer := buf\<rparr>)"
          using 2 False w Cons.IH(2) [of "k0 + j" "tx\<lparr>tx_responseBodyBuffer := br1\<rparr>"] by simp
        with q show ?thesis by (rule converse_rtranclp_into_rtranclp)
      next
        case (Some x)
        then show ?thesis using 2(1) False w q by auto
      qed
    qed (use 2 in auto)
  }
qed auto

lemma copy_request_effect:
  assumes "fills (le_ct env) tx tx0" "list_all small (src_chunks r)" "CopyN (le_io env) (tx_requestBodyBuffer tx0) r n = (k, e, buf)"
    and "call_effect env w (tx0\<lparr>tx_requestBodyBuffer := buf\<rparr>) tx'"
  shows "call_effect env w tx tx'"
  using call_effect_step [OF fill [OF assms(1)] call_effect_quiet [OF copy_chunks_quiet(1) [OF _ assms(2)] assms(4)]] assms(3)
  by (auto simp: CopyN_def split: prod.splits)

lemma copy_response_effect:
  assumes "fills (le_ct env) tx tx0" "list_all small (src_chunks r)" "CopyN (le_io env) (tx_responseBodyBuffer tx0) r n = (k, e, buf)"
    and "call_effect env w (tx0\<lparr>tx_responseBodyBuffer := buf\<rparr>) tx'"
  shows "call_effect env w tx tx'"
  using call_effect_step [OF fill [OF assms(1)] call_effect_quiet [OF copy_chunks_quiet(2) [OF _ assms(2)] assms(4)]] assms(3)
  by (auto simp: CopyN_def split: prod.splits)

lemma copy_request_result:
  assumes ok: "env_ok env" and f: "fills (le_ct env) tx tx0" and chunks: "list_all small (src_chunks r)"
    and run: "copy_request env w r n run tx0 = Some (res, tx')"
  shows "call_effect env w tx tx'"
proof -
  obtain k err buf where c: "CopyN (le_io env) (tx_requestBodyBuffer tx0) r n = (k, err, buf)" by (metis prod_cases3)
  let ?tx1 = "tx0\<lparr>tx_requestBodyBuffer := buf\<rparr>"
  let ?tx2 = "if bb_length buf = tx_RequestBodyLimit tx0 then set_single V_InboundDataError ''1'' ?tx1 else ?tx1"
  have f2: "fills (le_ct env) ?tx1 ?tx2" by simp
  have "call_effect env w ?tx1 tx'"
    using run call_effect_step [OF fill [OF f2] call_effect_refl, of w] reject_effect [OF f2, of w 413]
      call_effect_step [OF fill [OF f2] ProcessRequestBody_effect [OF ok]]
    by (auto simp: copy_request_def c Let_def simp del: if_split split: if_split_asm Option.bind_split_asm)
  then show ?thesis by (rule copy_request_effect [OF f chunks c])
qed

lemma ReadRequestBodyFrom_effect:
  assumes "env_ok env" "list_all small (src_chunks r)" "ReadRequestBodyFrom env w r tx = Some (res, tx')"
  shows "call_effect env w tx tx'"
  using assms(3) reject_effect [of env tx "set_single V_InboundDataError ''1'' tx" w 413]
  by (auto simp: ReadRequestBodyFrom_def Let_def split: if_splits option.splits body_limit_action.splits
      intro: copy_request_result [OF assms(1) _ assms(2)])

lemma copy_response_result:
  assumes ok: "env_ok env" and f: "fills (le_ct env) tx tx0" and chunks: "list_all small (src_chunks r)"
    and run: "copy_response env w r n run tx0 = Some (res, tx')"
  shows "call_effect env w tx tx'"
proof -
  obtain k err buf where c: "CopyN (le_io env) (tx_responseBodyBuffer tx0) r n = (k, err, buf)" by (metis prod_cases3)
  let ?tx1 = "tx0\<lparr>tx_responseBodyBuffer := buf\<rparr>"
  let ?tx2 = "if bb_length buf = tx_ResponseBodyLimit tx0 then set_single V_OutboundDataError ''1'' ?tx1 else ?tx1"
  have f2: "fills (le_ct env) ?tx1 ?tx2" by simp
  have "call_effect env w ?tx1 tx'"
    using run call_effect_step [OF fill [OF f2] call_effect_refl, of w] reject_effect [OF f2, of w 500]
      call_effect_step [OF fill [OF f2] ProcessResponseBody_effect [OF ok]]
    by (auto simp: copy_response_def c Let_def simp del: if_split split: if_split_asm Option.bind_split_asm)
  then show ?thesis by (rule copy_response_effect [OF f chunks c])
qed

lemma ReadResponseBodyFrom_effect:
  assumes "env_ok env" "list_all small (src_chunks r)" "ReadResponseBodyFrom env w r tx = Some (res, tx')"
  shows "call_effect env w tx tx'"
  using assms(3) reject_effect [of env tx "set_single V_OutboundDataError ''1'' tx" w 500]
  by (auto simp: ReadResponseBodyFrom_def Let_def split: if_splits option.splits body_limit_action.splits
      intro: copy_response_result [OF assms(1) _ assms(2)])

lemma headers_effect:
  "ProcessRequestHeaders env w tx = Some (r, tx') \<Longrightarrow> call_effect env w tx tx'"
  "ProcessResponseHeaders env w code proto tx = Some (r, tx') \<Longrightarrow> call_effect env w tx tx'"
proof -
  show "call_effect env w tx tx'" if "ProcessRequestHeaders env w tx = Some (r, tx')"
    using that by (auto simp: ProcessRequestHeaders_def phase_due_def not_le split: if_splits Option.bind_splits
        intro: call_effect_phase [of PhaseRequestHeaders])
  have "fills (le_ct env) tx (set_single v x (set_single u y tx))" for v x u y by (intro fills_single fills_refl)
  note two = call_effect_fills [OF this, of PhaseResponseHeaders]
  show "call_effect env w tx tx'" if "ProcessResponseHeaders env w code proto tx = Some (r, tx')"
    using that by (auto simp: ProcessResponseHeaders_def phase_due_def not_le split: if_splits Option.bind_splits intro: two)
qed

lemma ProcessLogging_effect: "ProcessLogging env w tx = Some (r, tx') \<Longrightarrow> call_effect env w tx tx'"
  by (auto simp: ProcessLogging_def phase_due_def split: if_splits Option.bind_splits intro: call_effect_phase [of PhaseLogging])

lemma tx_step_effect: "env_ok env \<Longrightarrow> call_ok c \<Longrightarrow> tx_step env w c tx = Some tx' \<Longrightarrow> call_effect env w tx tx'"
  by (cases c)
    (auto intro: call_effect_step [OF fill] WriteRequestBody_effect WriteResponseBody_effect ReadRequestBodyFrom_effect
      ReadResponseBodyFrom_effect headers_effect ProcessRequestBody_effect ProcessResponseBody_effect ProcessLogging_effect)

end
