(* ===== verification/Lifecycle_Inv.thy ===== *)
theory Lifecycle_Inv
  imports Lifecycle_Flow
begin

text \<open>
  The invariant of the reachable transactions, and that no call of a connector panics on them.
\<close>

section \<open>Matched rules have match data\<close>

definition matches_recorded :: "transaction \<Rightarrow> bool" where
  "matches_recorded tx = list_all (\<lambda>mr. mr_MatchedDatas mr \<noteq> []) (tx_matchedRules tx)"

definition keeps_record :: "transaction \<Rightarrow> transaction \<Rightarrow> bool" where
  "keeps_record tx tx' = (matches_recorded tx \<longrightarrow> matches_recorded tx')"

lemma keeps_record_same: "tx_matchedRules tx' = tx_matchedRules tx \<Longrightarrow> keeps_record tx tx'"
  by (simp add: keeps_record_def matches_recorded_def)

lemma keeps_record_trans: "keeps_record tx tx' \<Longrightarrow> keeps_record tx' tx'' \<Longrightarrow> keeps_record tx tx''"
  by (simp add: keeps_record_def)

lemma matchedRules_Interrupt [simp]: "tx_matchedRules (Interrupt i tx) = tx_matchedRules tx"
  by (simp add: Interrupt_def split: rule_engine_status.splits)

lemma matchedRules_action: "action_Evaluate ct w r a tx = Some tx' \<Longrightarrow> tx_matchedRules tx' = tx_matchedRules tx"
proof -
  have v: "vars_only t t' \<Longrightarrow> tx_matchedRules t' = tx_matchedRules t" for t t' by (simp add: vars_only_fields)
  have c: "tx_matchedRules (ctl_Evaluate ct w c tx) = tx_matchedRules tx" for c
    using same_course_ctl [of tx ct w c] by (simp add: same_course_def)
  show "action_Evaluate ct w r a tx = Some tx' \<Longrightarrow> tx_matchedRules tx' = tx_matchedRules tx"
    using v [OF vars_only_setvar]
    by (cases a) (auto simp: action_Evaluate_def c deny_Evaluate_def drop_Evaluate_def redirect_Evaluate_def Let_def Allow_def
        setenv_Evaluate_def setvar_Evaluate_def set_map_def split: option.splits)
qed

interpretation recording: eval_steps env w keeps_record "\<lambda>_. True" for env w
proof unfold_locales
  show "keeps_record tx tx'" if "op_effect (ev_ct env) tx tx'" for tx tx'
    using that by (auto simp: op_effect_def vars_only_fields intro: keeps_record_same)
  show "keeps_record tx (set_rule_index (ev_ct env) k v tx)" for k v tx
    by (rule keeps_record_same) (simp add: set_rule_index_def set_map_def)
  show "keeps_record tx (matchVariable (ev_ct env) m tx)" for m tx
    by (rule keeps_record_same) (simp add: vars_only_fields [OF vars_only_matchVariable])
  show "keeps_record tx (reset_matched_vars tx)" for tx
    by (rule keeps_record_same) (simp add: reset_matched_vars_def set_map_def)
  show "keeps_record tx (MatchRule w r (md # mds) tx)" for r md mds tx
    by (simp add: keeps_record_def matches_recorded_def MatchRule_def Let_def new_matched_rule_def update_severity_def set_single_def)
qed (auto intro: keeps_record_same matchedRules_action keeps_record_trans simp: set_caches_def)

lemma run_phase_record: "run_phase env w phase tx = Some tx' \<Longrightarrow> keeps_record tx tx'"
proof -
  assume "run_phase env w phase tx = Some tx'"
  then obtain b where "Eval (le_eval env) w phase tx = Some (b, tx')" using run_phase_SomeD by blast
  then show ?thesis
  proof (cases rule: Eval_SomeD)
    case (1 tx1)
    have "keeps_record (resetTransformationCaches (tx\<lparr>tx_lastPhase := phase\<rparr>)) tx1"
      by (rule recording.eval_rules_R [OF _ 1(1)]) (simp add: recording.actions_ok_def list_all_iff)
    then show ?thesis using 1(2) by (auto simp: keeps_record_def matches_recorded_def resetTransformationCaches_def)
  qed
qed

section \<open>Quiet steps and phases\<close>

lemma Write_keeps:
  assumes "bb_inv br" "io_ok io" "small d" "Write io br d = (k, e, br')"
  shows "bb_inv br' \<and> bb_options br' = bb_options br"
proof (cases "bb_length br + int (length d) \<le> Limit (bb_options br)")
  case True
  then show ?thesis using Write_accept [OF assms(1,3,2)] assms(4) by auto
next
  case False
  then have "d = [] \<Longrightarrow> br' = br" using assms(4) by (simp add: Write_def)
  then show ?thesis using Write_reject [OF assms(1,3)] assms(1,4) False by (cases "d = []") auto
qed

definition tx_inv :: "life_env \<Rightarrow> waf \<Rightarrow> transaction \<Rightarrow> bool" where
  "tx_inv env w tx =
     (vars_ok (le_ct env) (tx_variables tx) \<and> matches_recorded tx \<and>
      bb_inv (tx_requestBodyBuffer tx) \<and> bb_options (tx_requestBodyBuffer tx) = request_buffer_options w \<and>
      bb_inv (tx_responseBodyBuffer tx) \<and> bb_options (tx_responseBodyBuffer tx) = response_buffer_options w)"

definition limits_configured :: "waf \<Rightarrow> transaction \<Rightarrow> bool" where
  "limits_configured w tx =
     (tx_RequestBodyLimit tx = waf_RequestBodyLimit w \<and> tx_ResponseBodyLimit tx = waf_ResponseBodyLimit w)"

lemma quiet_step_inv:
  assumes "quiet_step env tx tx'" "io_ok (le_io env)" "tx_inv env w tx"
  shows "tx_inv env w tx'"
  using assms(1)
proof cases
  case fill
  then show ?thesis using assms(3) by (simp add: tx_inv_def fills_same matches_recorded_def) (simp add: fills_def)
next
  case (request_write d k e buf)
  then show ?thesis
    using assms(3) Write_keeps [OF _ assms(2) request_write(2,3)] by (auto simp: tx_inv_def matches_recorded_def)
next
  case (response_write d k e buf)
  then show ?thesis
    using assms(3) Write_keeps [OF _ assms(2) response_write(2,3)] by (auto simp: tx_inv_def matches_recorded_def)
next
  case (reject status)
  then show ?thesis using assms(3) by (simp add: tx_inv_def setAndReturnBodyLimitInterruption_def Let_def matches_recorded_def)
qed

lemma quiet_step_same:
  assumes "quiet_step env tx tx'"
  shows "tx_lastPhase tx' = tx_lastPhase tx \<and> tx_matchedRules tx' = tx_matchedRules tx \<and> tx_RuleEngine tx' = tx_RuleEngine tx \<and>
    tx_id tx' = tx_id tx \<and> limits_kept tx tx' \<and> (IsInterrupted tx \<longrightarrow> IsInterrupted tx')"
  using assms
  by cases (auto simp: fills_same limits_kept_def IsInterrupted_def setAndReturnBodyLimitInterruption_def Let_def)

lemma quiet_inv: "quiet env tx tx' \<Longrightarrow> io_ok (le_io env) \<Longrightarrow> tx_inv env w tx \<Longrightarrow> tx_inv env w tx'"
  by (induction rule: rtranclp_induct) (auto intro: quiet_step_inv)

lemma quiet_same:
  assumes "quiet env tx tx'"
  shows "tx_lastPhase tx' = tx_lastPhase tx \<and> tx_matchedRules tx' = tx_matchedRules tx \<and> tx_RuleEngine tx' = tx_RuleEngine tx \<and>
    tx_id tx' = tx_id tx \<and> limits_kept tx tx' \<and> (IsInterrupted tx \<longrightarrow> IsInterrupted tx')"
  using assms by (induction rule: rtranclp_induct) (auto dest!: quiet_step_same intro: limits_kept_trans)

lemma run_phase_inv:
  assumes "run_phase env w p tx = Some tx'" "tx_inv env w tx"
  shows "tx_inv env w tx'"
  using run_phase_evolves [OF assms(1)] run_phase_record [OF assms(1)] assms(2)
  by (auto simp: tx_inv_def tx_evolves_def keeps_record_def)

lemma call_effect_inv:
  assumes "call_effect env w tx tx'" "io_ok (le_io env)" "tx_inv env w tx"
  shows "tx_inv env w tx'"
  using assms(1) quiet_inv [OF _ assms(2,3)] run_phase_inv unfolding call_effect_def by blast

lemma call_effect_limits: "call_effect env w tx tx' \<Longrightarrow> rules_keep_limits w \<Longrightarrow> limits_kept tx tx'"
  unfolding call_effect_def using quiet_same run_phase_limits limits_kept_trans by blast

section \<open>New transactions\<close>

lemma fills_set_captures: "fills ct tx (set_captures ct tx)"
  unfolding set_captures_def by (rule fills_fold) simp

lemma fills_set_defaults: "fills ct tx (set_defaults txid tx)"
  unfolding set_defaults_def by (rule fills_fold) (auto split: prod.splits)

lemma fills_setTimeVariables: "fills ct tx (setTimeVariables off tx)"
  by (auto simp: setTimeVariables_def Let_def split: prod.splits intro!: fills_single)

lemma fills_newTransaction: "fills ct (init_fields w txid now (pooled w t)) (newTransaction ct off w txid now t)"
  unfolding newTransaction_def by (meson fills_trans fills_set_captures fills_set_defaults fills_setTimeVariables)

lemma new_transaction_inv:
  assumes "Validate fs w = None"
  shows "tx_inv env w (newTransaction (le_ct env) off w txid now None)" "limits_configured w (newTransaction (le_ct env) off w txid now None)"
proof -
  have l: "0 < waf_RequestBodyLimit w" "waf_RequestBodyLimit w \<le> gib1" "0 < waf_ResponseBodyLimit w" "waf_ResponseBodyLimit w \<le> gib1"
    using assms by (auto simp: Validate_def split: if_splits)
  note f = fills_newTransaction [of "le_ct env" w txid now None off]
  have i: "init_fields w txid now (pooled w None) = init_fields w txid now
      (zero_transaction (NewBodyBuffer (request_buffer_options w)) (NewBodyBuffer (response_buffer_options w)))"
    by (simp add: pooled_def)
  have b: "bb_inv (NewBodyBuffer (request_buffer_options w))" "bb_inv (NewBodyBuffer (response_buffer_options w))"
    using l by (auto intro!: bb_inv_New simp: request_buffer_options_def response_buffer_options_def gib1_def max_int64_def)
  have o: "bb_options (NewBodyBuffer x) = x" for x by (simp add: NewBodyBuffer_def)
  have v: "vars_ok (le_ct env) (tx_variables (newTransaction (le_ct env) off w txid now None))"
    using f by (simp add: fills_def i) (simp add: init_fields_def zero_transaction_def)
  show "tx_inv env w (newTransaction (le_ct env) off w txid now None)"
    unfolding tx_inv_def matches_recorded_def fills_same [OF f] i
    using v b by (simp add: o init_fields_def zero_transaction_def)
  show "limits_configured w (newTransaction (le_ct env) off w txid now None)"
    unfolding limits_configured_def fills_same [OF f] by (simp add: init_fields_def)
qed

lemma reachable_inv:
  assumes "reachable env w tx" "Validate fs w = None" "env_ok env" "io_ok (le_io env)"
  shows "tx_inv env w tx \<and> (rules_keep_limits w \<longrightarrow> limits_configured w tx)"
  using assms(1)
proof induction
  case (new_transaction off txid now)
  then show ?case using new_transaction_inv [OF assms(2)] by blast
next
  case (next_call tx c tx')
  then have e: "call_effect env w tx tx'" using tx_step_effect [OF assms(3)] by blast
  then show ?case
    using next_call.IH call_effect_inv [OF e assms(4)] call_effect_limits [OF e]
    by (auto simp: limits_configured_def limits_kept_def)
qed

section \<open>No call panics\<close>

lemma run_phase_defined: "list_all rule_safe (waf_Rules w) \<Longrightarrow> run_phase env w p tx \<noteq> None"
  using run_phase_total [of w env p tx] by auto

lemma ProcessRequestBody_defined: "list_all rule_safe (waf_Rules w) \<Longrightarrow> ProcessRequestBody env w tx \<noteq> None"
  by (simp add: ProcessRequestBody_def Let_def run_phase_defined bind_eq_None_conv del: not_None_eq split: prod.splits)

lemma ProcessResponseBody_defined: "list_all rule_safe (waf_Rules w) \<Longrightarrow> ProcessResponseBody env w tx \<noteq> None"
  by (simp add: ProcessResponseBody_def Let_def run_phase_defined bind_eq_None_conv del: not_None_eq split: prod.splits)

lemma write_defined:
  assumes "list_all rule_safe (waf_Rules w)" "0 \<le> n" "n \<le> int (length b)"
  shows "write_request env w b n run tx \<noteq> None" "write_response env w b n run tx \<noteq> None"
  using assms(2,3) ProcessRequestBody_defined [OF assms(1)] ProcessResponseBody_defined [OF assms(1)]
  by (auto simp: write_request_def write_response_def Let_def bind_eq_None_conv simp del: not_None_eq split: prod.splits option.splits)

lemma copy_defined:
  assumes "list_all rule_safe (waf_Rules w)"
  shows "copy_request env w r n run tx \<noteq> None" "copy_response env w r n run tx \<noteq> None"
  using ProcessRequestBody_defined [OF assms(1)] ProcessResponseBody_defined [OF assms(1)]
  by (auto simp: copy_request_def copy_response_def Let_def bind_eq_None_conv simp del: not_None_eq split: prod.splits)

lemma concat_options_defined: "(\<And>x. x \<in> set xs \<Longrightarrow> f x \<noteq> None) \<Longrightarrow> concat_options f xs \<noteq> None"
  by (induction xs) (auto split: option.splits)

lemma fold_option_defined: "(\<And>x s. f x s \<noteq> None) \<Longrightarrow> fold_option f xs s \<noteq> None"
  by (induction xs arbitrary: s) (auto simp: bind_eq_None_conv simp del: not_None_eq)

lemma AuditLog_defined:
  assumes "matches_recorded tx"
  shows "AuditLog env w tx \<noteq> None"
proof -
  have e: "ErrorLog pt mr \<noteq> None" if "mr \<in> set (tx_matchedRules tx)" for pt mr
    using that assms by (cases "mr_MatchedDatas mr") (auto simp: ErrorLog_def matches_recorded_def list_all_iff)
  have k: "concat_options (rule_messages env w trailer) (tx_matchedRules tx) \<noteq> None" for trailer
    by (rule concat_options_defined) (use e in \<open>auto simp: rule_messages_def simp del: not_None_eq\<close>)
  have h: "concat_options (error_message env) (tx_matchedRules tx) \<noteq> None"
    by (rule concat_options_defined) (use e in \<open>auto simp: error_message_def simp del: not_None_eq\<close>)
  have "audit_part env w tx c st \<noteq> None" for c st
    using k by (auto simp: audit_part_def Let_def simp del: not_None_eq split: prod.splits)
  from fold_option_defined [of "audit_part env w tx", OF this] h show ?thesis
    by (auto simp: AuditLog_def simp del: not_None_eq split: option.splits)
qed

lemma body_length_bounds:
  "bb_inv br \<Longrightarrow> 0 \<le> bb_length br \<and> bb_length br \<le> Limit (bb_options br) \<and> Limit (bb_options br) \<le> max_int64"
  by (auto simp: bb_inv_def)

lemma rest_of_limit:
  assumes "bb_inv br"
  shows "wrap64 (Limit (bb_options br) - bb_length br) = Limit (bb_options br) - bb_length br"
  using body_length_bounds [OF assms] by (intro wrap64_id) (auto simp: min_int64_def)

lemma wrapped_length:
  assumes "bb_inv br" "small b" "Limit (bb_options br) \<le> wrap64 (bb_length br + int (length b))"
  shows "Limit (bb_options br) \<le> bb_length br + int (length b)"
proof (rule ccontr)
  assume "\<not> Limit (bb_options br) \<le> bb_length br + int (length b)"
  then have "wrap64 (bb_length br + int (length b)) = bb_length br + int (length b)"
    using body_length_bounds [OF assms(1)] by (intro wrap64_id) (auto simp: min_int64_def)
  then show False using assms(3) \<open>\<not> Limit (bb_options br) \<le> bb_length br + int (length b)\<close> by simp
qed

lemma tx_step_defined:
  assumes safe: "list_all rule_safe (waf_Rules w)" and inv: "tx_inv env w tx" and lim: "limits_configured w tx" and "call_ok c"
  shows "tx_step env w c tx \<noteq> None"
proof -
  note body = ProcessRequestBody_defined [OF safe] ProcessResponseBody_defined [OF safe] copy_defined [OF safe]
  have req: "bb_inv (tx_requestBodyBuffer tx)" "Limit (bb_options (tx_requestBodyBuffer tx)) = tx_RequestBodyLimit tx"
    and resp: "bb_inv (tx_responseBodyBuffer tx)" "Limit (bb_options (tx_responseBodyBuffer tx)) = tx_ResponseBodyLimit tx"
    using inv lim by (simp_all add: tx_inv_def limits_configured_def request_buffer_options_def response_buffer_options_def)
  have w1: "WriteRequestBody env w b tx \<noteq> None" for b
    using rest_of_limit [OF req(1)] body_length_bounds [OF req(1)] write_defined(1) [OF safe]
    by (auto simp: WriteRequestBody_def Let_def req(2) simp del: not_None_eq split: body_limit_action.splits)
  have w2: "WriteResponseBody env w b tx \<noteq> None" if "small b" for b
  proof -
    have "write_response env w b (tx_ResponseBodyLimit tx - bb_length (tx_responseBodyBuffer tx)) run tx' \<noteq> None"
      if "tx_ResponseBodyLimit tx \<le> wrap64 (bb_length (tx_responseBodyBuffer tx) + int (length b))" for run tx'
      using body_length_bounds [OF resp(1)] wrapped_length [OF resp(1) \<open>small b\<close>] that
      by (intro write_defined(2) [OF safe]) (auto simp: resp(2))
    then show ?thesis using rest_of_limit [OF resp(1)] write_defined(2) [OF safe]
      by (simp add: WriteResponseBody_def Let_def resp(2) del: not_None_eq split: body_limit_action.split)
  qed
  have "ReadRequestBodyFrom env w r tx \<noteq> None" "ReadResponseBodyFrom env w r tx \<noteq> None" for r
    using body by (auto simp: ReadRequestBodyFrom_def ReadResponseBodyFrom_def Let_def simp del: not_None_eq
        split: option.splits body_limit_action.splits)
  moreover have "ProcessRequestHeaders env w tx \<noteq> None" "ProcessResponseHeaders env w code proto tx \<noteq> None" for code proto
    using run_phase_defined [OF safe]
    by (auto simp: ProcessRequestHeaders_def ProcessResponseHeaders_def bind_eq_None_conv simp del: not_None_eq)
  moreover have "ProcessLogging env w tx \<noteq> None"
  proof -
    obtain tx1 where t: "(if IsRuleEngineOff tx then Some tx else run_phase env w PhaseLogging tx) = Some tx1" "tx_inv env w tx1"
      using run_phase_total [OF safe, of env PhaseLogging tx] run_phase_inv [OF _ inv] inv
      by (cases "IsRuleEngineOff tx") auto
    then show ?thesis using AuditLog_defined [of tx1 "le_audit env" w]
      by (auto simp: ProcessLogging_def t(1) tx_inv_def simp del: not_None_eq)
  qed
  ultimately show ?thesis
    using w1 w2 body(1,2) assms(4) by (cases c) (simp_all del: not_None_eq)
qed

end
