(* ===== verification/Lifecycle_Properties.thy ===== *)
theory Lifecycle_Properties
  imports Lifecycle_Inv Engine_Properties
begin

text \<open>
  The properties of the life of a transaction: an abstract machine of phases that every call
  refines, the invariant of the reachable transactions, that no call panics on them, and what the
  body limits do.
\<close>

section \<open>The machine of phases\<close>

text \<open>
  What a transaction promises to its connector: the last phase, whether the transaction is
  interrupted, and the rules that matched. A phase runs only after the phases it needs, only once
  (logging apart), and, logging apart, never on an interrupted transaction.
\<close>

type_synonym phase_view = "rule_phase \<times> bool \<times> matched_rule list"

definition phase_view :: "transaction \<Rightarrow> phase_view" where
  "phase_view tx = (tx_lastPhase tx, IsInterrupted tx, tx_matchedRules tx)"

inductive phase_next :: "rule_phase \<Rightarrow> rule_phase \<Rightarrow> bool" where
  request_headers: "p < PhaseRequestHeaders \<Longrightarrow> phase_next p PhaseRequestHeaders"
| request_body: "phase_next PhaseRequestHeaders PhaseRequestBody"
| response_headers: "p < PhaseResponseHeaders \<Longrightarrow> phase_next p PhaseResponseHeaders"
| response_body: "phase_next PhaseResponseHeaders PhaseResponseBody"
| logging: "phase_next p PhaseLogging"

inductive machine_step :: "phase_view \<Rightarrow> phase_view \<Rightarrow> bool" where
  stay: "(i \<Longrightarrow> i') \<Longrightarrow> machine_step (p, i, ms) (p, i', ms)"
| phase: "phase_next p q \<Longrightarrow> \<not> i \<or> q = PhaseLogging \<Longrightarrow> (i \<Longrightarrow> i') \<Longrightarrow> prefix ms ms' \<Longrightarrow>
    machine_step (p, i, ms) (q, i', ms')"

inductive_cases machine_stepE [elim!]: "machine_step (p, i, ms) (q, i', ms')"

lemma phase_due_next:
  assumes "phase_due p tx"
  shows "phase_next (tx_lastPhase tx) p \<and> (\<not> IsInterrupted tx \<or> p = PhaseLogging)"
  using assms by (cases p) (auto simp: phase_due_def intro: phase_next.intros)

lemma call_effect_machine:
  assumes "call_effect env w tx tx'"
  shows "machine_step (phase_view tx) (phase_view tx')"
proof -
  obtain tx1 where q: "quiet env tx tx1" and r: "tx' = tx1 \<or> (\<exists>p. phase_due p tx1 \<and> run_phase env w p tx1 = Some tx')"
    using assms unfolding call_effect_def by blast
  note s = quiet_same [OF q]
  show ?thesis
  proof (cases "tx' = tx1")
    case True
    then show ?thesis using s by (auto simp: phase_view_def intro: machine_step.stay)
  next
    case False
    then obtain p where p: "phase_due p tx1" "run_phase env w p tx1 = Some tx'" using r by blast
    have "tx_lastPhase tx' = p" "prefix (tx_matchedRules tx1) (tx_matchedRules tx')" "IsInterrupted tx1 \<longrightarrow> IsInterrupted tx'"
      using run_phase_evolves [OF p(2)] by (auto simp: tx_evolves_def IsInterrupted_def)
    then show ?thesis
      using phase_due_next [OF p(1)] s unfolding phase_view_def by (auto intro!: machine_step.phase)
  qed
qed

lemma phase_next_order: "phase_next p q \<Longrightarrow> p < q \<or> q = PhaseLogging"
  by (induction rule: phase_next.induct) (auto simp: less_rule_phase_def)

lemma machine_run_order:
  assumes "machine_step\<^sup>*\<^sup>* v v'" "v = (p, i, ms)" "v' = (q, i', ms')"
  shows "p \<le> q \<and> (i \<longrightarrow> i') \<and> prefix ms ms' \<and> (i \<and> q \<noteq> PhaseLogging \<longrightarrow> p = q \<and> ms = ms')"
  using assms
proof (induction arbitrary: q i' ms' rule: rtranclp_induct)
  case (step v1 v2)
  obtain p1 i1 ms1 where v1: "v1 = (p1, i1, ms1)" by (cases v1)
  have a: "p \<le> p1 \<and> (i \<longrightarrow> i1) \<and> prefix ms ms1 \<and> (i \<and> p1 \<noteq> PhaseLogging \<longrightarrow> p = p1 \<and> ms = ms1)"
    using step.IH [OF step.prems(1) v1] .
  have m: "x \<le> PhaseLogging" for x by (cases x) (auto simp: less_eq_rule_phase_def)
  have "machine_step (p1, i1, ms1) (q, i', ms')" using step v1 by simp
  then show ?case
    using a m by (auto dest!: phase_next_order intro: prefix_order.trans order.trans [OF _ less_imp_le])
qed simp

text \<open>A connector makes its calls one after the other; a panic ends the run.\<close>

definition tx_run :: "life_env \<Rightarrow> waf \<Rightarrow> call list \<Rightarrow> transaction \<Rightarrow> transaction option" where
  "tx_run env w cs tx = fold_option (tx_step env w) cs tx"

lemma tx_run_simps [simp]:
  "tx_run env w [] tx = Some tx"
  "tx_run env w (c # cs) tx = do { tx1 \<leftarrow> tx_step env w c tx; tx_run env w cs tx1 }"
  by (simp_all add: tx_run_def)

lemma tx_run_machine:
  assumes "env_ok env"
  shows "list_all call_ok cs \<Longrightarrow> tx_run env w cs tx = Some tx' \<Longrightarrow> machine_step\<^sup>*\<^sup>* (phase_view tx) (phase_view tx')"
proof (induction cs arbitrary: tx)
  case (Cons c cs)
  then obtain tx1 where t: "tx_step env w c tx = Some tx1" "tx_run env w cs tx1 = Some tx'"
    by (auto split: Option.bind_splits)
  have "machine_step (phase_view tx) (phase_view tx1)"
    using call_effect_machine tx_step_effect [OF assms _ t(1)] Cons.prems(1) by auto
  then show ?case using Cons t(2) by (auto intro: converse_rtranclp_into_rtranclp)
qed simp

lemma tx_run_reachable:
  "reachable env w tx \<Longrightarrow> list_all call_ok cs \<Longrightarrow> tx_run env w cs tx = Some tx' \<Longrightarrow> reachable env w tx'"
  by (induction cs arbitrary: tx) (auto split: Option.bind_splits intro: next_call)

lemma tx_run_defined:
  assumes "Validate fs w = None" "env_ok env" "io_ok (le_io env)" "rules_keep_limits w" "list_all rule_safe (waf_Rules w)"
  shows "reachable env w tx \<Longrightarrow> list_all call_ok cs \<Longrightarrow> \<exists>tx'. tx_run env w cs tx = Some tx'"
proof (induction cs arbitrary: tx)
  case (Cons c cs)
  then have i: "tx_inv env w tx" "limits_configured w tx" using reachable_inv [OF _ assms(1-3)] assms(4) by auto
  have "call_ok c" using Cons.prems by simp
  then obtain tx1 where "tx_step env w c tx = Some tx1" using tx_step_defined [OF assms(5) i] by blast
  moreover from this have "reachable env w tx1" using Cons.prems by (auto intro: next_call)
  ultimately show ?case using Cons by auto
qed simp

section \<open>The body under a limit\<close>

lemma ProcessRequestBody_buffer:
  assumes "env_ok env" "ProcessRequestBody env w tx = Some (r, tx')"
  shows "tx_requestBodyBuffer tx' = tx_requestBodyBuffer tx"
proof -
  obtain rbp tx1 where c: "choose_processor tx = (rbp, tx1)" by fastforce
  then have f: "tx_requestBodyBuffer tx1 = tx_requestBodyBuffer tx"
    by (auto simp: choose_processor_def Let_def set_single_def split: if_splits)
  have e: "tx_requestBodyBuffer t' = tx_requestBodyBuffer t" if "run_phase env w p t = Some t'" for p t t'
    using run_phase_evolves [OF that] by (simp add: tx_evolves_def)
  show ?thesis
    using assms(2) c f fills_same(5) [OF fills_process_request_body [OF assms(1)]]
    by (auto simp: ProcessRequestBody_def Let_def split: if_splits Option.bind_splits dest!: e)
qed

text \<open>The part of the bytes written so far that the buffer holds; until it is full the body is still collected.\<close>

definition body_collected :: "life_env \<Rightarrow> waf \<Rightarrow> string \<Rightarrow> transaction \<Rightarrow> bool" where
  "body_collected env w xs tx =
     (tx_inv env w tx \<and> limits_configured w tx \<and>
      contents (tx_requestBodyBuffer tx) = take (nat (waf_RequestBodyLimit w)) xs \<and>
      (int (length xs) < waf_RequestBodyLimit w \<longrightarrow> \<not> IsRuleEngineOff tx \<and> tx_RequestBodyAccess tx))"

lemma write_request_partial:
  assumes "env_ok env" "io_ok (le_io env)" "bb_inv (tx_requestBodyBuffer tx)" "small b"
    and fit: "0 \<le> n" "bb_length (tx_requestBodyBuffer tx) + n \<le> Limit (bb_options (tx_requestBodyBuffer tx))" "n \<le> int (length b)"
    and "write_request env w b n run tx = Some (r, tx')"
  shows "contents (tx_requestBodyBuffer tx') = contents (tx_requestBodyBuffer tx) @ take (nat n) b \<and>
    (\<not> run \<longrightarrow> tx_RuleEngine tx' = tx_RuleEngine tx \<and> tx_RequestBodyAccess tx' = tx_RequestBodyAccess tx)"
proof -
  have "bb_length (tx_requestBodyBuffer tx) + int (length (take (nat n) b)) \<le> Limit (bb_options (tx_requestBodyBuffer tx))"
    using fit by simp
  from Write_accept [OF assms(3) small_take [OF assms(4)] assms(2) this]
  obtain br' where "Write (le_io env) (tx_requestBodyBuffer tx) (take (nat n) b) = (int (length (take (nat n) b)), None, br')"
    "contents br' = contents (tx_requestBodyBuffer tx) @ take (nat n) b" by blast
  then show ?thesis using assms(8) fit
    by (auto simp: write_request_def Let_def split: if_splits Option.bind_splits dest!: ProcessRequestBody_buffer [OF assms(1)])
qed

lemma body_collected_step:
  assumes env: "env_ok env" "io_ok (le_io env)" and keep: "rules_keep_limits w" and v: "Validate fs w = None"
    and act: "waf_RequestBodyLimitAction w = BodyLimitActionProcessPartial" and b: "int (length b) < max_int64 - gib1"
    and col: "body_collected env w xs tx" and step: "tx_step env w (WriteRequestCall b) tx = Some tx'"
  shows "body_collected env w (xs @ b) tx'"
proof -
  let ?L = "waf_RequestBodyLimit w" and ?br = "tx_requestBodyBuffer tx"
  have inv: "tx_inv env w tx" "limits_configured w tx" "contents ?br = take (nat ?L) xs" using col by (auto simp: body_collected_def)
  have L: "0 < ?L" "?L \<le> gib1" using v by (auto simp: Validate_def split: if_splits)
  have sm: "small b" using b by (simp add: small_def gib1_def)
  have br: "bb_inv ?br" "Limit (bb_options ?br) = ?L" "tx_RequestBodyLimit tx = ?L"
    using inv by (auto simp: tx_inv_def request_buffer_options_def limits_configured_def)
  then have len: "bb_length ?br = min ?L (int (length xs))" using inv(3) L by (auto simp: bb_inv_def min_def)
  obtain r where s: "WriteRequestBody env w b tx = Some (r, tx')" using step by auto
  note e = tx_step_effect [OF env(1) _ step]
  have inv': "tx_inv env w tx'" "limits_configured w tx'"
    using call_effect_inv [OF e env(2) inv(1)] call_effect_limits [OF e keep] inv(2) sm
    by (auto simp: limits_configured_def limits_kept_def)
  show ?thesis
  proof (cases "?L \<le> int (length xs)")
    case True
    then have "tx' = tx" using s br(3) len by (auto simp: WriteRequestBody_def Let_def split: if_splits)
    then show ?thesis using True inv L by (auto simp: body_collected_def)
  next
    case False
    then have on: "\<not> IsRuleEngineOff tx" "tx_RequestBodyAccess tx" and xs: "contents ?br = xs" "bb_length ?br = int (length xs)"
      using col len by (auto simp: body_collected_def)
    have o: "\<not> max_int64 - int (length b) \<le> bb_length ?br" using b False L(2) xs(2) by simp
    note p = write_request_partial [OF env _ sm]
    show ?thesis
    proof (cases "?L \<le> int (length xs) + int (length b)")
      case full: True
      let ?t = "set_single V_InboundDataError ''1'' tx"
      have "wrap64 (?L - bb_length ?br) = ?L - bb_length ?br" using rest_of_limit [OF br(1)] br(2) by simp
      then have "write_request env w b (?L - bb_length ?br) True ?t = Some (r, tx')"
        using s on False full o xs(2) br(3) act by (simp add: WriteRequestBody_def Let_def)
      then have "contents (tx_requestBodyBuffer tx') = xs @ take (nat (?L - int (length xs))) b"
        using p [of ?t "?L - bb_length ?br" w True r tx'] br xs False full by (simp add: set_single_def)
      moreover have "nat (?L - int (length xs)) = nat ?L - length xs" by simp
      ultimately show ?thesis using inv' full False L by (auto simp: body_collected_def)
    next
      case fits: False
      then have "write_request env w b (int (length b)) False tx = Some (r, tx')"
        using s on False o xs(2) br(3) by (simp add: WriteRequestBody_def Let_def)
      then show ?thesis
        using p [of tx "int (length b)" w False r tx'] br xs False fits inv' on L
        by (auto simp: body_collected_def IsRuleEngineOff_def)
    qed
  qed
qed

lemma body_collected_run:
  assumes "env_ok env" "io_ok (le_io env)" "rules_keep_limits w" "Validate fs w = None"
    and "waf_RequestBodyLimitAction w = BodyLimitActionProcessPartial"
  shows "list_all (\<lambda>b. int (length b) < max_int64 - gib1) bs \<Longrightarrow> body_collected env w xs tx \<Longrightarrow>
    tx_run env w (map WriteRequestCall bs) tx = Some tx' \<Longrightarrow> body_collected env w (xs @ concat bs) tx'"
proof (induction bs arbitrary: xs tx)
  case (Cons b bs)
  then obtain tx1 where t: "tx_step env w (WriteRequestCall b) tx = Some tx1" "tx_run env w (map WriteRequestCall bs) tx1 = Some tx'"
    by (auto split: Option.bind_splits)
  have "body_collected env w (xs @ b) tx1"
    using body_collected_step [OF assms _ Cons.prems(2) t(1)] Cons.prems(1) by simp
  then show ?case using Cons.IH [of "xs @ b" tx1] Cons.prems(1) t(2) by simp
qed simp

section \<open>Reuse\<close>

text \<open>Two transactions that differ at most in variables no rule can read.\<close>

definition reads_alike :: "transaction \<Rightarrow> transaction \<Rightarrow> bool" where
  "reads_alike t u =
     (t = u\<lparr>tx_variables := tx_variables t\<rparr> \<and>
      (\<forall>v \<in> set single_variables. singles (tx_variables t) v = singles (tx_variables u) v) \<and>
      (\<forall>v \<in> set map_variables. maps (tx_variables t) v = maps (tx_variables u) v))"

lemma reads_alike_fields:
  assumes "reads_alike t u"
  shows "tx_Timestamp t = tx_Timestamp u" "v \<in> set map_variables \<Longrightarrow> get_map t v = get_map u v"
proof -
  have "tx_Timestamp t = tx_Timestamp (u\<lparr>tx_variables := tx_variables t\<rparr>)" using assms unfolding reads_alike_def by metis
  then show "tx_Timestamp t = tx_Timestamp u" by simp
  show "v \<in> set map_variables \<Longrightarrow> get_map t v = get_map u v" using assms by (simp add: reads_alike_def get_map_def)
qed

lemma reads_alike_single: "reads_alike t u \<Longrightarrow> reads_alike (set_single v x t) (set_single v x u)"
  unfolding reads_alike_def set_single_def by simp (metis transaction.update_convs(27) transaction.surjective)

lemma reads_alike_map: "reads_alike t u \<Longrightarrow> reads_alike (set_map v c t) (set_map v c u)"
  unfolding reads_alike_def set_map_def by simp (metis transaction.update_convs(27) transaction.surjective)

lemma reads_alike_fold:
  "(\<And>x t u. reads_alike t u \<Longrightarrow> reads_alike (f x t) (f x u)) \<Longrightarrow> reads_alike t u \<Longrightarrow> reads_alike (fold f xs t) (fold f xs u)"
  by (induction xs arbitrary: t u) auto

lemma reads_alike_new:
  assumes "reads_alike (init_fields w txid now (pooled w t)) (init_fields w txid now (pooled w u))"
  shows "reads_alike (newTransaction ct off w txid now t) (newTransaction ct off w txid now u)"
proof -
  have c: "reads_alike (set_captures ct t) (set_captures ct u)" if "reads_alike t u" for t u
    unfolding set_captures_def
    by (rule reads_alike_fold [OF _ that]) (simp add: reads_alike_fields(2) map_variables_def reads_alike_map)
  have d: "reads_alike (set_defaults txid t) (set_defaults txid u)" if "reads_alike t u" for t u
    unfolding set_defaults_def by (rule reads_alike_fold [OF _ that]) (auto intro: reads_alike_single)
  have s: "reads_alike (setTimeVariables off t) (setTimeVariables off u)" if "reads_alike t u" for t u
    using reads_alike_fields(1) [OF that] that
    by (simp add: setTimeVariables_def Let_def reads_alike_single split: prod.split)
  show ?thesis unfolding newTransaction_def using assms by (intro c d s)
qed

lemma reset_buffer_New:
  "bb_options br = opt \<Longrightarrow> reset_buffer True br = NewBodyBuffer opt"
  by (simp add: reset_buffer_def Reset_def NewBodyBuffer_def Let_def)

lemma reads_alike_closed:
  assumes "tx_inv env w tx" "ce_fs cenv"
  shows "reads_alike (init_fields w txid now (snd (snd (Transaction_Close ct cenv w tx)))) (init_fields w txid now (pooled w None))"
  using assms
  by (auto simp: reads_alike_def init_fields_def Transaction_Close_def Let_def pooled_def zero_transaction_def tx_inv_def
      resetTransformationCaches_def reset_buffer_New reset_single reset_map_New) (simp_all add: NewTransactionVariables_def)

section \<open>An environment and a configuration for the witnesses\<close>

definition sample_audit_env :: audit_env where
  "sample_audit_env =
     \<lparr>ae_ct = (\<lambda>r. r), ae_pt = (\<lambda>_. True), ae_off = 0, ae_fs = True, ae_stopwatch = [], ae_mime = (\<lambda>_. []), ae_status = (\<lambda>_. []),
      ae_boundary = ''x'', ae_order = (\<lambda>m. m)\<rparr>"

definition sample_life_env :: life_env where
  "sample_life_env =
     \<lparr>le_eval = sample_env, le_body = sample_body_env,
      le_io = \<lparr>HasAccessToFS = True, create_ok = True, dump_ok = True, write_fails_after = None\<rparr>,
      le_audit = sample_audit_env, le_url = (\<lambda>u. Inr \<lparr>url_Path = u, url_RawQuery = [], url_String = u\<rparr>)\<rparr>"

definition sample_life_waf :: waf where
  "sample_life_waf =
     (NewWAF True ''/tmp'')\<lparr>waf_RequestBodyAccess := True, waf_RequestBodyLimit := 4,
        waf_RequestBodyLimitAction := BodyLimitActionProcessPartial, waf_Rules := [deny_rule, marker_rule ''END'']\<rparr>"

abbreviation sample_new :: transaction where
  "sample_new \<equiv> newTransaction (le_ct sample_life_env) 0 sample_life_waf ''id'' 0 None"

lemma sample_life_ok:
  "Validate True sample_life_waf = None" "env_ok sample_life_env" "io_ok (le_io sample_life_env)" "rules_keep_limits sample_life_waf"
  "list_all rule_safe (waf_Rules sample_life_waf)" "reachable sample_life_env sample_life_waf sample_new"
  "waf_RequestBodyLimitAction sample_life_waf = BodyLimitActionProcessPartial" "waf_RequestBodyLimit sample_life_waf = 4"
proof -
  show "reachable sample_life_env sample_life_waf sample_new" by (rule new_transaction)
qed (auto simp: sample_life_waf_def NewWAF_def Validate_def gib1_def DefaultRequestBodyJsonDepthLimit_def env_ok_def
      sample_life_env_def sample_env_def sample_body_env_def io_ok_def rules_keep_limits_def keeps_limits_def sample_rule_defs)

lemma sample_new_fields:
  "\<not> IsRuleEngineOff sample_new" "tx_RequestBodyAccess sample_new" "contents (tx_requestBodyBuffer sample_new) = []"
  unfolding IsRuleEngineOff_def fills_same [OF fills_newTransaction]
  by (simp_all add: init_fields_def pooled_def sample_life_waf_def NewWAF_def zero_transaction_def NewBodyBuffer_def contents_def)

section \<open>Properties\<close>

text \<open>
  C2: Every call of a connector refines the machine of phases: it either runs no rule, and leaves
  the phase and the matched rules alone, or runs one phase that may follow the last one, on a
  transaction that is not interrupted unless the phase is logging; matched rules are only added and
  an interruption stays.
\<close>

theorem tx_step_refines:
  assumes "env_ok env" "call_ok c" "tx_step env w c tx = Some tx'"
  shows "machine_step (phase_view tx) (phase_view tx')"
  by (rule call_effect_machine [OF tx_step_effect [OF assms]])

theorem tx_step_refines_witness:
  "\<exists>tx'. tx_step sample_life_env sample_life_waf RequestHeadersCall sample_new = Some tx' \<and>
     machine_step (phase_view sample_new) (phase_view tx')"
  using tx_run_defined [OF sample_life_ok(1-6), of "[RequestHeadersCall]"]
    tx_step_refines [OF sample_life_ok(2), of RequestHeadersCall sample_life_waf sample_new]
  by (auto split: Option.bind_splits)

text \<open>
  Over any sequence of calls the phases are run in order, matched rules are only added, and
  once the transaction is interrupted no phase but logging is run and no rule matches before it.
\<close>

theorem tx_run_in_order:
  assumes "env_ok env" "list_all call_ok cs" "tx_run env w cs tx = Some tx'"
  shows "tx_lastPhase tx \<le> tx_lastPhase tx' \<and> prefix (tx_matchedRules tx) (tx_matchedRules tx') \<and>
    (IsInterrupted tx \<longrightarrow> IsInterrupted tx' \<and>
      (tx_lastPhase tx' = PhaseLogging \<or> tx_lastPhase tx' = tx_lastPhase tx \<and> tx_matchedRules tx' = tx_matchedRules tx))"
  using machine_run_order [OF tx_run_machine [OF assms] phase_view_def phase_view_def] by auto

theorem tx_run_in_order_witness:
  "\<exists>tx'. tx_run sample_life_env sample_life_waf [RequestHeadersCall, WriteRequestCall ''ab'', RequestBodyCall, LoggingCall] sample_new =
     Some tx' \<and> tx_lastPhase sample_new \<le> tx_lastPhase tx'"
  using tx_run_defined [OF sample_life_ok(1-6), of "[RequestHeadersCall, WriteRequestCall ''ab'', RequestBodyCall, LoggingCall]"]
    tx_run_in_order [OF sample_life_ok(2), of "[RequestHeadersCall, WriteRequestCall ''ab'', RequestBodyCall, LoggingCall]"
      sample_life_waf sample_new]
  by (auto simp: small_def max_int64_def)







text \<open>
  A rejected body interrupts even when the engine only detects. Under \<open>Reject\<close>, a write that
  reaches the limit stores nothing of its data and interrupts the transaction with status 413,
  whether the engine is on or in detection-only mode.
\<close>

theorem body_limit_interrupts_detection_only:
  assumes "tx_RuleEngine tx = RuleEngineOn \<or> tx_RuleEngine tx = RuleEngineDetectionOnly" "tx_RequestBodyAccess tx"
    and "waf_RequestBodyLimitAction w = BodyLimitActionReject" "bb_length (tx_requestBodyBuffer tx) \<noteq> tx_RequestBodyLimit tx"
    and "bb_length (tx_requestBodyBuffer tx) + int (length b) < max_int64"
    and "tx_RequestBodyLimit tx \<le> bb_length (tx_requestBodyBuffer tx) + int (length b)"
  shows "\<exists>i tx'. WriteRequestBody env w b tx = Some ((Some i, 0, None), tx') \<and> i_Status i = 413 \<and> IsInterrupted tx' \<and>
    tx_requestBodyBuffer tx' = tx_requestBodyBuffer tx"
  using assms by (auto simp: WriteRequestBody_def Let_def IsRuleEngineOff_def setAndReturnBodyLimitInterruption_def IsInterrupted_def
      set_single_def)

theorem body_limit_interrupts_detection_only_witness:
  "\<exists>i tx'. WriteRequestBody sample_life_env (NewWAF True []) ''abcd''
     (sample_transaction\<lparr>tx_RuleEngine := RuleEngineDetectionOnly, tx_RequestBodyAccess := True, tx_RequestBodyLimit := 4\<rparr>) =
     Some ((Some i, 0, None), tx') \<and> i_Status i = 413 \<and> IsInterrupted tx'"
proof -
  let ?tx = "sample_transaction\<lparr>tx_RuleEngine := RuleEngineDetectionOnly, tx_RequestBodyAccess := True, tx_RequestBodyLimit := 4\<rparr>"
  show ?thesis using body_limit_interrupts_detection_only [of ?tx "NewWAF True []" "''abcd''" sample_life_env]
    by (auto simp: sample_transaction_def zero_transaction_def NewBodyBuffer_def NewWAF_def max_int64_def Let_def)
qed

text \<open>
  C3: A transaction taken from the pool is as good as new. After a reachable transaction is closed,
  with whatever errors, a transaction made from it has the same fields as one made from scratch, and
  every collection a rule can select has the same contents: nothing of one request shows in the next.
\<close>

theorem transaction_reuse_isolated:
  assumes "Validate fs w = None" "env_ok env" "io_ok (le_io env)" "reachable env w tx" "ce_fs cenv"
    and "Transaction_Close ct cenv w tx = (errs, files, closed)"
  shows "\<exists>vs. newTransaction ct off w txid now (Some closed) = (newTransaction ct off w txid now None)\<lparr>tx_variables := vs\<rparr> \<and>
    (\<forall>v. Collection vs v = Collection (tx_variables (newTransaction ct off w txid now None)) v)"
proof -
  have "tx_inv env w tx" using reachable_inv [OF assms(4,1-3)] by simp
  then have "reads_alike (init_fields w txid now (pooled w (Some closed))) (init_fields w txid now (pooled w None))"
    using reads_alike_closed [of env w tx cenv txid now ct] assms(5,6) by (simp add: pooled_def)
  then have r: "reads_alike (newTransaction ct off w txid now (Some closed)) (newTransaction ct off w txid now None)"
    by (rule reads_alike_new)
  then show ?thesis
    unfolding reads_alike_def
    by (intro exI [of _ "tx_variables (newTransaction ct off w txid now (Some closed))"]) (blast intro: Collection_cong)
qed

definition sample_close_env :: close_env where
  "sample_close_env = \<lparr>ce_fs = True, ce_remove = (\<lambda>_. Some (Error ''gone'')), ce_reset_request = None, ce_reset_response = None\<rparr>"

theorem transaction_reuse_isolated_witness:
  "\<exists>vs. newTransaction (\<lambda>r. r) 0 sample_life_waf ''next'' 1 (Some (snd (snd (Transaction_Close (\<lambda>r. r) sample_close_env sample_life_waf sample_new)))) =
     (newTransaction (\<lambda>r. r) 0 sample_life_waf ''next'' 1 None)\<lparr>tx_variables := vs\<rparr>"
  using transaction_reuse_isolated [OF sample_life_ok(1-3,6), of sample_close_env "\<lambda>r. r" _ _ _ 0 "''next''" 1]
  by (metis prod.collapse close_env.select_convs(1) sample_close_env_def)

end
