(* ===== verification/Audit_Properties.thy ===== *)
theory Audit_Properties
  imports Lifecycle_Properties
begin

text \<open>
  What the audit log entry of a transaction holds, and that its native format can always be written.
\<close>

section \<open>Messages\<close>

definition match_messages :: "waf \<Rightarrow> matched_rule \<Rightarrow> message_data option list" where
  "match_messages w mr = (if mr_Audit mr then map (\<lambda>md. am_Data (rule_message w mr [] md)) (mr_MatchedDatas mr) else [])"

lemma rule_messages_data: "rule_messages env w trailer mr = Some ms \<Longrightarrow> map am_Data ms = match_messages w mr"
  by (auto simp: rule_messages_def match_messages_def rule_message_def Let_def split: if_splits)

lemma concat_options_data:
  "concat_options (rule_messages env w trailer) mrs = Some ms \<Longrightarrow> map am_Data ms = concat (map (match_messages w) mrs)"
  by (induction mrs arbitrary: ms) (auto split: option.splits simp: rule_messages_data)

lemma match_messages_Some: "None \<notin> set (match_messages w mr)"
  by (auto simp: match_messages_def rule_message_def Let_def)

text \<open>Every part K adds the messages of all matched rules once more.\<close>

lemma audit_part_step:
  assumes "audit_part env w tx c (al, h, k) = Some (al', h', k')"
  shows "al_Parts al' = al_Parts al \<and> k' = (k \<or> c = CHR ''K'') \<and>
    map am_Data (al_Messages al') =
      map am_Data (al_Messages al) @ (if c = CHR ''K'' then concat (map (match_messages w) (tx_matchedRules tx)) else [])"
  using assms by (auto simp: audit_part_def Let_def concat_options_data split: if_splits)

lemma audit_parts:
  "fold_option (audit_part env w tx) ps (al, h, k) = Some (al', h', k') \<Longrightarrow>
     al_Parts al' = al_Parts al \<and> k' = (k \<or> CHR ''K'' \<in> set ps) \<and>
     map am_Data (al_Messages al') = map am_Data (al_Messages al) @
       concat (replicate (count_list ps CHR ''K'') (concat (map (match_messages w) (tx_matchedRules tx))))"
proof (induction ps arbitrary: al h k)
  case (Cons c ps)
  then obtain al1 h1 k1 where "audit_part env w tx c (al, h, k) = Some (al1, h1, k1)"
    "fold_option (audit_part env w tx) ps (al1, h1, k1) = Some (al', h', k')"
    by (auto split: Option.bind_splits)
  from audit_part_step [OF this(1)] Cons.IH [OF this(2)] show ?case by auto
qed simp

lemma AuditLog_messages:
  assumes "AuditLog env w tx = Some al"
  shows "al_Parts al = tx_AuditLogParts tx" and
    "CHR ''K'' \<in> set (tx_AuditLogParts tx) \<Longrightarrow> map am_Data (al_Messages al) =
       concat (replicate (count_list (tx_AuditLogParts tx) CHR ''K'') (concat (map (match_messages w) (tx_matchedRules tx))))"
  using assms by (auto simp: AuditLog_def new_audit_log_def split: option.splits if_splits dest!: audit_parts)

lemma part_text_defined: "c \<noteq> CHR ''K'' \<Longrightarrow> part_text env al c \<noteq> None"
  by (simp add: part_text_def Let_def)

lemma part_text_K:
  "part_text env al CHR ''K'' = concat_options (\<lambda>m. map_option (\<lambda>d. msd_Raw d @ nl) (am_Data m)) (al_Messages al)"
  by (simp add: part_text_def Let_def)

lemma native_Format_defined:
  assumes "CHR ''K'' \<in> set (al_Parts al) \<Longrightarrow> None \<notin> set (map am_Data (al_Messages al))"
  shows "native_Format env al \<noteq> None"
proof -
  have "part_text env al c \<noteq> None" if c: "c \<in> set (al_Parts al)" for c
  proof (cases "c = CHR ''K''")
    case True
    have "am_Data m \<noteq> None" if "m \<in> set (al_Messages al)" for m
      using assms c True that by (metis image_eqI list.set_map)
    then show ?thesis unfolding True part_text_K by (intro concat_options_defined) (simp del: not_None_eq)
  qed (rule part_text_defined)
  then show ?thesis
    unfolding native_Format_def by (intro concat_options_defined) (simp add: native_part_def del: not_None_eq)
qed

section \<open>Properties\<close>



end
