(* ===== verification/Rule_Parser.thy ===== *)
theory Rule_Parser
  imports Waf
begin

text \<open>
  The parser of rules (\<open>internal/seclang/rule_parser.go\<close>): the variables, the operator and the
  actions of a rule, the default actions it inherits, and its place in a chain. Regular expressions,
  transformations and the environment of the operators are arguments. The texts of errors leave out
  the input they quote.
\<close>

section \<open>Outcomes\<close>

text \<open>A call returns, fails with an error, or panics.\<close>

datatype 'a outcome = Returns 'a | Fails error | Panics

fun outcome_bind :: "'a outcome \<Rightarrow> ('a \<Rightarrow> 'b outcome) \<Rightarrow> 'b outcome" where
  "outcome_bind (Returns x) f = f x"
| "outcome_bind (Fails e) f = Fails e"
| "outcome_bind Panics f = Panics"

fun of_result :: "'a result \<Rightarrow> 'a outcome" where
  "of_result (Inr x) = Returns x"
| "of_result (Inl e) = Fails e"

section \<open>Configuration\<close>

record parse_env =
  pe_ct :: case_table
  pe_compile :: "string \<Rightarrow> regex result"
  pe_ops :: op_env
  pe_GetTransformation :: "string \<Rightarrow> transformation option"

record ParserConfig =
  pc_DisabledRuleActions :: "string list"
  pc_DisabledRuleOperators :: "string list"
  pc_RuleDefaultActions :: "string list"
  pc_HasRuleDefaultActions :: bool
  pc_IgnoreRuleCompilationErrors :: bool
  pc_LastLine :: int
  pc_ConfigFile :: string
  pc_ConfigDir :: string
  pc_WorkingDir :: string

record ruleAction =
  ra_Key :: string
  ra_Value :: string
  ra_Atype :: action_type
  ra_F :: action

section \<open>Variables\<close>

text \<open>
  What the text of the variables asks for: a selection, or an exception to the selections made so
  far. The scan is in one of the states 0 (name), 1 (key), 2 (expression) and 3 (XPath).
\<close>

datatype var_op = VarAdd rule_variable string bool | VarNegate rule_variable string

record var_scan =
  vs_curr :: nat
  vs_isNegation :: bool
  vs_isCount :: bool
  vs_curVar :: string
  vs_curKey :: string
  vs_isEscaped :: bool
  vs_isquoted :: bool

definition var_start :: var_scan where
  "var_start = \<lparr>vs_curr = 0, vs_isNegation = False, vs_isCount = False, vs_curVar = [], vs_curKey = [],
     vs_isEscaped = False, vs_isquoted = False\<rparr>"

definition scan_byte :: "char \<Rightarrow> var_scan \<Rightarrow> var_scan" where
  "scan_byte c st =
     (if vs_curr st = 0 then
        (if c = CHR ''!'' then st\<lparr>vs_isNegation := True\<rparr>
         else if c = CHR ''&'' then st\<lparr>vs_isCount := True\<rparr>
         else if c = CHR '':'' then st\<lparr>vs_curr := 1\<rparr>
         else st\<lparr>vs_curVar := vs_curVar st @ [c]\<rparr>)
      else if vs_curr st = 1 then
        (if vs_curKey st = [] \<and> (vs_curVar st = ''XML'' \<or> vs_curVar st = ''JSON'') then
           st\<lparr>vs_curr := 3, vs_curKey := [c]\<rparr>
         else if c = CHR ''/'' then st\<lparr>vs_curr := 2\<rparr>
         else if c = CHR 39 then st\<lparr>vs_isquoted := True\<rparr>
         else st\<lparr>vs_curKey := vs_curKey st @ [c]\<rparr>)
      else if vs_curr st = 2 then
        (if c = CHR ''/'' \<and> \<not> vs_isEscaped st then st\<lparr>vs_curr := 1\<rparr>
         else if c = CHR 92 then st\<lparr>vs_curKey := vs_curKey st @ [CHR 92], vs_isEscaped := \<not> vs_isEscaped st\<rparr>
         else st\<lparr>vs_curKey := vs_curKey st @ [c], vs_isEscaped := False\<rparr>)
      else st\<lparr>vs_curKey := vs_curKey st @ [c]\<rparr>)"

text \<open>The end of a variable at byte \<open>c\<close>, before the bytes \<open>rest\<close>: the request, and how many bytes to skip.\<close>

definition finish_variable :: "case_table \<Rightarrow> char \<Rightarrow> string \<Rightarrow> var_scan \<Rightarrow> (var_op \<times> nat) result" where
  "finish_variable ct c rest st =
     (let curr = vs_curr st;
          curVar = (if c \<noteq> CHR ''|'' \<and> curr = 0 then vs_curVar st @ [c] else vs_curVar st);
          curKey = (if c \<noteq> CHR ''|'' \<and> curr \<noteq> 0 \<and> curr \<noteq> 2 \<and> c \<noteq> CHR ''/'' then vs_curKey st @ [c] else vs_curKey st);
          key = (if curr = 2 then ''/'' @ curKey @ ''/'' else curKey)
      in result_bind (Parse ct curVar) (\<lambda>v.
        if curr = 1 \<and> \<not> CanBeSelected v then Inl (Error ''attempting to select a value inside a non-selectable collection'')
        else if vs_isquoted st \<and> (rest = [] \<or> hd rest \<noteq> CHR 39) \<and> c \<noteq> CHR 39 then Inl (Error ''unclosed quote'')
        else Inr (if vs_isNegation st then VarNegate v key else VarAdd v key (vs_isCount st),
                  if vs_isquoted st then 2 else if curr = 2 then 1 else 0)))"

definition var_restart :: "var_scan \<Rightarrow> var_scan" where
  "var_restart st = var_start\<lparr>vs_isEscaped := vs_isEscaped st\<rparr>"

function scan_variables :: "case_table \<Rightarrow> string \<Rightarrow> var_scan \<Rightarrow> var_op list \<times> error option" where
  "scan_variables ct [] st = ([], None)"
| "scan_variables ct (c # rest) st =
     (if (c = CHR ''|'' \<and> vs_curr st \<noteq> 2) \<or> rest = [] \<or> (vs_curr st = 2 \<and> c = CHR ''/'' \<and> \<not> vs_isEscaped st) then
        (case finish_variable ct c rest st of
           Inl e \<Rightarrow> ([], Some e)
         | Inr (op, skip) \<Rightarrow>
             (case scan_variables ct (drop skip rest) (var_restart st) of (ops, err) \<Rightarrow> (op # ops, err)))
      else scan_variables ct rest (scan_byte c st))"
  by pat_completeness auto
termination by (relation "measure (\<lambda>(ct, s, st). length s)") auto

definition apply_var_op :: "parse_env \<Rightarrow> var_op \<Rightarrow> rule_params \<Rightarrow> rule_params result" where
  "apply_var_op env op r =
     (case op of
        VarAdd v key iscount \<Rightarrow> AddVariable (pe_ct env) (pe_compile env) r v key iscount
      | VarNegate v key \<Rightarrow> AddVariableNegation (pe_ct env) (pe_compile env) r v key)"

fun apply_var_ops :: "parse_env \<Rightarrow> var_op list \<Rightarrow> rule_params \<Rightarrow> rule_params result" where
  "apply_var_ops env [] r = Inr r"
| "apply_var_ops env (op # ops) r = result_bind (apply_var_op env op r) (\<lambda>r'. apply_var_ops env ops r')"

definition ParseVariables :: "parse_env \<Rightarrow> string \<Rightarrow> rule_params \<Rightarrow> rule_params result" where
  "ParseVariables env vars r =
     (case scan_variables (pe_ct env) vars var_start of (ops, err) \<Rightarrow>
        result_bind (apply_var_ops env ops r) (\<lambda>r'. case err of None \<Rightarrow> Inr r' | Some e \<Rightarrow> Inl e))"

section \<open>Operator\<close>

definition normal_operator :: "string \<Rightarrow> string" where
  "normal_operator operator =
     (if operator = [] \<or> hd operator \<noteq> CHR ''@'' \<and> hd operator \<noteq> CHR ''!'' then ''@rx '' @ operator
      else if operator = ''!'' then ''!@rx''
      else if hd operator = CHR ''!'' \<and> tl operator \<noteq> [] \<and> hd (tl operator) \<noteq> CHR ''@'' then ''!@rx '' @ tl operator
      else operator)"

text \<open>The name the operators are registered with, without \<open>@\<close> or \<open>!@\<close>.\<close>

definition operator_name :: "string \<Rightarrow> string" where
  "operator_name op =
     (if hd op = CHR ''@'' then tl op
      else if 2 < length op \<and> op ! 0 = CHR ''!'' \<and> op ! 1 = CHR ''@'' then drop 2 op
      else op)"

definition ParseOperator :: "parse_env \<Rightarrow> ParserConfig \<Rightarrow> (string \<times> string list) list \<Rightarrow> bool \<Rightarrow> string \<Rightarrow> rule_params \<Rightarrow> rule_params result" where
  "ParseOperator env cfg datasets rxPreFilter operator r =
     (case cut (normal_operator operator) CHR '' '' of (opRaw, opdataRaw, _) \<Rightarrow>
        let opdata = trim_space opdataRaw;
            opts = \<lparr>opt_Arguments = opdata,
              opt_Path = pc_ConfigDir cfg # (if pc_WorkingDir cfg = [] then [] else [pc_WorkingDir cfg]),
              opt_Datasets = datasets, opt_RxPreFilterEnabled = rxPreFilter\<rparr>
        in result_bind (operators_Get (pe_ct env) (pe_ops env) (operator_name (trim_space opRaw)) opts) (\<lambda>opfn.
             Inr (SetOperator r opfn opRaw opdata)))"

section \<open>Actions\<close>

text \<open>
  A disruptive action takes the place of the one before it, whose index in the list is kept. The
  first byte of the text is never read as a separator or a quote.
\<close>

definition appendRuleAction ::
  "case_table \<Rightarrow> ruleAction list \<Rightarrow> string \<Rightarrow> string \<Rightarrow> nat option \<Rightarrow> (ruleAction list \<times> nat option) result" where
  "appendRuleAction ct res key0 val0 disruptive =
     (let key = to_lower ct (trim_space key0); val = MaybeRemoveQuotes (trim_space val0)
      in result_bind (actions_Get ct key) (\<lambda>f.
        let a = \<lparr>ra_Key = key, ra_Value = val, ra_Atype = action_Type f, ra_F = f\<rparr>
        in if action_Type f = ActionTypeDisruptive then
             (case disruptive of
                Some i \<Rightarrow> Inr (res[i := a], disruptive)
              | None \<Rightarrow> Inr (res @ [a], Some (length res)))
           else Inr (res @ [a], disruptive)))"

definition append_part ::
  "case_table \<Rightarrow> ruleAction list \<Rightarrow> string \<Rightarrow> nat option \<Rightarrow> nat option \<Rightarrow> (ruleAction list \<times> nat option) result" where
  "append_part ct res part colon disruptive =
     (case colon of
        None \<Rightarrow> appendRuleAction ct res part [] disruptive
      | Some i \<Rightarrow> appendRuleAction ct res (take i part) (drop (Suc i) part) disruptive)"

fun parse_actions_loop ::
  "case_table \<Rightarrow> char \<Rightarrow> string \<Rightarrow> string \<Rightarrow> nat option \<Rightarrow> bool \<Rightarrow> ruleAction list \<Rightarrow> nat option \<Rightarrow> ruleAction list result" where
  "parse_actions_loop ct prev [] part colon inQuotes res disruptive =
     result_bind (append_part ct res part colon disruptive) (\<lambda>(res', _). Inr res')"
| "parse_actions_loop ct prev (c # cs) part colon inQuotes res disruptive =
     (if prev = CHR 92 then parse_actions_loop ct c cs (part @ [c]) colon inQuotes res disruptive
      else if c = CHR 39 then parse_actions_loop ct c cs (part @ [c]) colon (\<not> inQuotes) res disruptive
      else if inQuotes then parse_actions_loop ct c cs (part @ [c]) colon inQuotes res disruptive
      else if c = CHR '':'' then
        parse_actions_loop ct c cs (part @ [c]) (if colon = None then Some (length part) else colon) inQuotes res disruptive
      else if c = CHR '','' then
        result_bind (append_part ct res part colon disruptive) (\<lambda>(res', disruptive').
          parse_actions_loop ct c cs [] None inQuotes res' disruptive')
      else parse_actions_loop ct c cs (part @ [c]) colon inQuotes res disruptive)"

definition parseActions :: "case_table \<Rightarrow> string \<Rightarrow> ruleAction list result" where
  "parseActions ct actions =
     (case actions of
        [] \<Rightarrow> result_bind (append_part ct [] [] None None) (\<lambda>(res, _). Inr res)
      | c # cs \<Rightarrow> parse_actions_loop ct c cs [c] None False [] None)"

definition hasDisruptiveActions :: "ruleAction list \<Rightarrow> bool" where
  "hasDisruptiveActions actions = list_ex (\<lambda>a. ra_Atype a = ActionTypeDisruptive) actions"

text \<open>
  The default actions, then those of the rule: \<open>block\<close> stands for the disruptive action of the
  defaults, which is also added to a rule without one. \<open>None\<close> is the nil action appended when the
  defaults have no disruptive action.
\<close>

definition mergeActions :: "ruleAction list \<Rightarrow> ruleAction list \<Rightarrow> ruleAction list option" where
  "mergeActions origin defaults =
     (let res = filter (\<lambda>a. ra_Atype a \<noteq> ActionTypeDisruptive \<and> ra_Atype a \<noteq> ActionTypeMetadata) defaults;
          own = filter (\<lambda>a. ra_Atype a = ActionTypeDisruptive \<longrightarrow> ra_Key a \<noteq> ''block'') origin
      in if list_ex (\<lambda>a. ra_Atype a = ActionTypeDisruptive \<and> ra_Key a \<noteq> ''block'') origin then Some (res @ own)
         else case filter (\<lambda>a. ra_Atype a = ActionTypeDisruptive) defaults of
           [] \<Rightarrow> None
         | ds \<Rightarrow> Some (res @ own @ [last ds]))"

text \<open>The phase and the disruptive action of a list of default actions.\<close>

fun default_actions_loop :: "ruleAction list \<Rightarrow> rule_phase \<Rightarrow> string \<Rightarrow> (rule_phase \<times> string) result" where
  "default_actions_loop [] phase disruptive = Inr (phase, disruptive)"
| "default_actions_loop (a # as) phase disruptive =
     (if ra_Key a = ''phase'' then
        result_bind (ParseRulePhase (ra_Value a)) (\<lambda>p. default_actions_loop as p disruptive)
      else if ra_Atype a = ActionTypeMetadata then Inl (Error ''SecDefaultAction must not contain metadata actions'')
      else if ra_Key a = ''t'' then Inl (Error ''SecDefaultAction must not contain transformation actions'')
      else default_actions_loop as phase (if ra_Atype a = ActionTypeDisruptive then ra_Key a else disruptive))"

type_synonym default_actions = "(rule_phase \<times> ruleAction list) list"

definition ParseDefaultActions :: "case_table \<Rightarrow> string \<Rightarrow> default_actions \<Rightarrow> default_actions result" where
  "ParseDefaultActions ct actions defaults =
     result_bind (parseActions ct actions) (\<lambda>act.
       result_bind (default_actions_loop act PhaseUnknown []) (\<lambda>(phase, disruptive).
         if phase = PhaseUnknown then Inl (Error ''SecDefaultAction must contain a phase'')
         else if disruptive = [] then Inl (Error ''SecDefaultAction must contain a disruptive action'')
         else if alist_get defaults phase \<noteq> None then Inl (Error ''SecDefaultAction already defined for this phase'')
         else Inr (alist_put phase act defaults)))"

text \<open>
  Initialising actions on a rule. The table of transformation chains is global: what a rule that
  fails has added to it stays.
\<close>

definition init_action :: "parse_env \<Rightarrow> ruleAction \<Rightarrow> rule_params \<Rightarrow> id_table \<Rightarrow> (rule_params \<times> action) outcome \<times> id_table" where
  "init_action env a r tbl =
     (case action_Init (pe_ct env) (pe_compile env) (pe_GetTransformation env) tbl (ra_F a) r (ra_Value a) of
        None \<Rightarrow> (Panics, tbl)
      | Some (Inl e) \<Rightarrow> (Fails e, tbl)
      | Some (Inr (ra, tbl')) \<Rightarrow> (Returns ra, tbl'))"

fun init_actions :: "parse_env \<Rightarrow> bool \<Rightarrow> ruleAction list \<Rightarrow> rule_params \<Rightarrow> id_table \<Rightarrow> rule_params outcome \<times> id_table" where
  "init_actions env metadata [] r tbl = (Returns r, tbl)"
| "init_actions env metadata (a # as) r tbl =
     (if (ra_Atype a = ActionTypeMetadata) \<noteq> metadata then init_actions env metadata as r tbl
      else case init_action env a r tbl of
        (Returns (r', f), tbl') \<Rightarrow>
          init_actions env metadata as (if metadata then r' else AddAction r' (ra_Key a) f) tbl'
      | (Fails e, tbl') \<Rightarrow> (Fails e, tbl')
      | (Panics, tbl') \<Rightarrow> (Panics, tbl'))"

definition applyParsedActions ::
  "parse_env \<Rightarrow> ParserConfig \<Rightarrow> default_actions \<Rightarrow> ruleAction list \<Rightarrow> rule_params \<Rightarrow> id_table \<Rightarrow> rule_params outcome \<times> id_table" where
  "applyParsedActions env cfg defaults act r tbl =
     (if list_ex (\<lambda>a. InSlice (ra_Key a) (pc_DisabledRuleActions cfg)) act then (Fails (Error ''rule action is disabled''), tbl)
      else case init_actions env True act r tbl of
        (Returns r1, tbl1) \<Rightarrow>
          (case (case alist_get defaults (r_Phase r1) of None \<Rightarrow> Some act | Some ds \<Rightarrow> mergeActions act ds) of
             None \<Rightarrow> (Panics, tbl1)
           | Some act' \<Rightarrow> init_actions env False act' r1 tbl1)
      | other \<Rightarrow> other)"

section \<open>Rules\<close>

fun quoted_end :: "string \<Rightarrow> nat \<Rightarrow> nat \<Rightarrow> nat option" where
  "quoted_end [] escapes i = None"
| "quoted_end (c # s) escapes i =
     (if c \<noteq> CHR 34 then quoted_end s (if c = CHR 92 then Suc escapes else 0) (Suc i)
      else if escapes mod 2 = 1 then quoted_end s 0 (Suc i)
      else Some i)"

definition cutQuotedString :: "string \<Rightarrow> (string \<times> string) result" where
  "cutQuotedString s =
     (if s = [] \<or> hd s \<noteq> CHR 34 then Inl (Error ''expected quoted string'')
      else case quoted_end (tl s) 0 1 of
        Some i \<Rightarrow> Inr (take (Suc i) s, drop (Suc i) s)
      | None \<Rightarrow> Inl (Error ''expected terminating quote''))"

definition parseActionOperator :: "string \<Rightarrow> (string \<times> string \<times> string) result" where
  "parseActionOperator data =
     (case cut (trim_set '' '' data) CHR '' '' of (vars, rest0, ok) \<Rightarrow>
        let rest = trim_left_set '' '' rest0
        in if \<not> ok then Inl (Error ''invalid format for rule with operator'')
           else if rest = [] \<or> hd rest \<noteq> CHR 34 then Inl (Error ''invalid operator for rule with operator'')
           else result_bind (cutQuotedString rest) (\<lambda>(op, rest1).
             let op1 = UnescapeQuotedString (MaybeRemoveQuotes op); rest2 = trim_left_set '' '' rest1
             in if rest2 = [] then Inr (vars, op1, [])
                else if length rest2 < 2 \<or> hd rest2 \<noteq> CHR 34 \<or> last rest2 \<noteq> CHR 34 then
                  Inl (Error ''invalid actions for rule with operator'')
                else Inr (vars, op1, MaybeRemoveQuotes rest2)))"

text \<open>The end of the chain of a rule, and the rule that waits for the rest of its chain.\<close>

fun chain_end :: "rule \<Rightarrow> rule_params" where
  "chain_end (Rule r None) = r"
| "chain_end (Rule r (Some c)) = chain_end c"

definition getLastRuleExpectingChain :: "rule list \<Rightarrow> rule option" where
  "getLastRuleExpectingChain rules =
     (if rules \<noteq> [] \<and> r_HasChain (chain_end (last rules)) then Some (last rules) else None)"

fun chain_append :: "rule \<Rightarrow> rule_params \<Rightarrow> rule" where
  "chain_append (Rule r None) c = Rule r (Some (Rule c None))"
| "chain_append (Rule r (Some ch)) c = Rule r (Some (chain_append ch c))"

definition add_raw :: "string \<Rightarrow> rule \<Rightarrow> rule" where
  "add_raw raw rl = Rule (meta (\<lambda>m. m\<lparr>rm_Raw := rm_Raw m @ '' '' @ [CHR 10] @ raw\<rparr>) (rule_of rl)) (chain_of rl)"

definition chain_member :: "rule_params \<Rightarrow> rule_params \<Rightarrow> rule_params" where
  "chain_member parent r =
     meta (\<lambda>m. m\<lparr>rm_ParentID := r_ID parent, rm_LogID := rm_LogID (r_metadata parent), rm_Phase := PhaseUnknown\<rparr>) r"

definition defaultActionsPhase2 :: string where
  "defaultActionsPhase2 = ''phase:2,log,auditlog,pass''"

fun parse_defaults :: "case_table \<Rightarrow> string list \<Rightarrow> default_actions \<Rightarrow> default_actions result" where
  "parse_defaults ct [] defaults =
     (if alist_get defaults PhaseRequestBody = None then ParseDefaultActions ct defaultActionsPhase2 defaults
      else Inr defaults)"
| "parse_defaults ct (da # das) defaults = result_bind (ParseDefaultActions ct da defaults) (\<lambda>d. parse_defaults ct das d)"

record RuleOptions =
  ro_WithOperator :: bool
  ro_ParserConfig :: ParserConfig
  ro_Raw :: string
  ro_Data :: string
  ro_Datasets :: "(string \<times> string list) list"

text \<open>The rule before its actions, and the text of the actions.\<close>

definition rule_head :: "parse_env \<Rightarrow> bool \<Rightarrow> RuleOptions \<Rightarrow> (rule_params \<times> string) result" where
  "rule_head env rxPreFilter options =
     (if ro_WithOperator options then
        result_bind (parseActionOperator (ro_Data options)) (\<lambda>(vars, operator, acts).
          if InSlice operator (pc_DisabledRuleOperators (ro_ParserConfig options)) then Inl (Error ''rule operator is disabled'')
          else result_bind (ParseVariables env vars NewRule) (\<lambda>r1.
            result_bind (ParseOperator env (ro_ParserConfig options) (ro_Datasets options) rxPreFilter operator r1) (\<lambda>r2.
              Inr (r2, acts))))
      else Inr (NewRule, MaybeRemoveQuotes (ro_Data options)))"

text \<open>
  A parsed rule is a rule of its own, or joins the chain of the last rule of the group. In a chain
  only the first rule may have a disruptive action; otherwise the whole chain is dropped.
\<close>

definition place_rule :: "case_table \<Rightarrow> RuleOptions \<Rightarrow> string \<Rightarrow> rule_params \<Rightarrow> rule list \<Rightarrow> rule option outcome \<times> rule list" where
  "place_rule ct options rawActions r rules =
     (let r1 = meta (\<lambda>m. m\<lparr>rm_File := pc_ConfigFile (ro_ParserConfig options), rm_Line := pc_LastLine (ro_ParserConfig options)\<rparr>) r
      in case getLastRuleExpectingChain rules of
        None \<Rightarrow> (Returns (Some (Rule (meta (\<lambda>m. m\<lparr>rm_Raw := ro_Raw options\<rparr>) r1) None)), rules)
      | Some parent \<Rightarrow>
          if (case parseActions ct rawActions of Inr parsed \<Rightarrow> hasDisruptiveActions parsed | Inl _ \<Rightarrow> False) then
            (Fails (Error ''disruptive actions can only be specified in the chain starter rule''), DiscardPendingChain rules)
          else (Returns None,
            butlast rules @ [add_raw (ro_Raw options) (chain_append parent (chain_member (rule_of parent) r1))]))"

definition ParseRule ::
  "parse_env \<Rightarrow> bool \<Rightarrow> RuleOptions \<Rightarrow> rule list \<Rightarrow> id_table \<Rightarrow> rule option outcome \<times> rule list \<times> id_table" where
  "ParseRule env rxPreFilter options rules tbl =
     (let cfg = ro_ParserConfig options; ct = pe_ct env
      in if trim_space (ro_Data options) = [] then (Fails (Error ''empty rule''), rules, tbl)
         else case result_bind (parse_defaults ct (if pc_HasRuleDefaultActions cfg then pc_RuleDefaultActions cfg else []) []) (\<lambda>defaults.
             result_bind (rule_head env rxPreFilter options) (\<lambda>head. Inr (defaults, head))) of
           Inl e \<Rightarrow> (Fails e, rules, tbl)
         | Inr (defaults, r, rawActions) \<Rightarrow>
             (case (if ro_WithOperator options \<and> rawActions = [] then (Returns r, tbl)
                    else case parseActions ct rawActions of
                      Inl e \<Rightarrow> (Fails e, tbl)
                    | Inr act \<Rightarrow> applyParsedActions env cfg defaults act r tbl) of
                (Returns r1, tbl1) \<Rightarrow>
                  (case place_rule ct options rawActions r1 rules of (res, rules1) \<Rightarrow> (res, rules1, tbl1))
              | (Fails e, tbl1) \<Rightarrow> (Fails e, rules, tbl1)
              | (Panics, tbl1) \<Rightarrow> (Panics, rules, tbl1)))"

end
