(* ===== verification/Rule_Parser_Inv.thy ===== *)
theory Rule_Parser_Inv
  imports Rule_Parser
begin

text \<open>
  Lemmas on parsed actions: what initialising an action leaves alone, and that the list of parsed
  actions, also after the defaults are merged in, has at most one disruptive action.
\<close>

section \<open>Initialisation\<close>

lemma result_bind_Inr: "result_bind x f = Inr y \<longleftrightarrow> (\<exists>z. x = Inr z \<and> f z = Inr y)"
  by (cases x) (auto simp: result_bind_def)

lemmas plain_inits = accuracy_Init_def allow_Init_def auditlog_Init_def block_Init_def capture_Init_def chain_Init_def
  deny_Init_def drop_Init_def exec_Init_def expirevar_Init_def id_Init_def initcol_Init_def log_Init_def logdata_Init_def
  maturity_Init_def msg_Init_def multimatch_Init_def noauditlog_Init_def nolog_Init_def pass_Init_def phase_Init_def
  redirect_Init_def rev_Init_def setenv_Init_def severity_Init_def skip_Init_def skipafter_Init_def status_Init_def
  tag_Init_def ver_Init_def ctl_Init_def

lemma setvar_Init_shape: "setvar_Init ct r data = Inr (r', f) \<Longrightarrow> r' = r \<and> (\<exists>s. f = setvarFn s)"
  by (auto simp: setvar_Init_def need_args_def Let_def result_bind_Inr split: prod.splits if_splits)

lemma t_Init_shape:
  "t_Init gt tbl r data = Some (Inr ((r', f), tbl')) \<Longrightarrow> f = tFn \<and> r_actions r' = r_actions r \<and> r_metadata r' = r_metadata r"
  by (auto simp: t_Init_def ClearTransformations_def AddTransformation_def result_bind_Inr split: option.splits if_splits)

lemma action_Init_shape:
  assumes "action_Init ct compile gt tbl a r data = Some (Inr ((r', f), tbl'))"
  shows "action_Type f = action_Type a \<and> r_actions r' = r_actions r \<and>
    (action_Type a \<noteq> ActionTypeMetadata \<longrightarrow> r_metadata r' = r_metadata r)"
  using assms
  by (cases a)
    (auto simp: action_Init_def plain_inits no_args_def need_args_def meta_def result_bind_Inr Let_def
      split: if_splits prod.splits dest!: setvar_Init_shape t_Init_shape)

lemma init_action_shape:
  "init_action env a r tbl = (Returns (r', f), tbl') \<Longrightarrow> action_Type f = action_Type (ra_F a) \<and> r_actions r' = r_actions r \<and>
    (action_Type (ra_F a) \<noteq> ActionTypeMetadata \<longrightarrow> r_metadata r' = r_metadata r)"
  by (auto simp: init_action_def split: option.splits sum.splits dest: action_Init_shape)

text \<open>The handler and the type a parsed action carries are those its key is registered with.\<close>

definition typed_action :: "case_table \<Rightarrow> ruleAction \<Rightarrow> bool" where
  "typed_action ct a = (actions_Get ct (ra_Key a) = Inr (ra_F a) \<and> ra_Atype a = action_Type (ra_F a))"

lemma init_metadata_actions:
  "init_actions env True as r tbl = (Returns r', tbl') \<Longrightarrow> r_actions r' = r_actions r"
  by (induction as arbitrary: r tbl) (auto split: if_splits prod.splits outcome.splits dest!: init_action_shape)

lemma init_other_actions:
  "init_actions env False as r tbl = (Returns r', tbl') \<Longrightarrow> list_all (typed_action ct) as \<Longrightarrow>
     r_metadata r' = r_metadata r \<and>
     map (\<lambda>(k, f). (k, action_Type f)) (r_actions r') = map (\<lambda>(k, f). (k, action_Type f)) (r_actions r) @
       map (\<lambda>a. (ra_Key a, ra_Atype a)) (filter (\<lambda>a. ra_Atype a \<noteq> ActionTypeMetadata) as)"
proof (induction as arbitrary: r tbl)
  case (Cons a as)
  show ?case
  proof (cases "ra_Atype a = ActionTypeMetadata")
    case False
    then obtain r1 f tbl1 where i: "init_action env a r tbl = (Returns (r1, f), tbl1)"
      and n: "init_actions env False as (AddAction r1 (ra_Key a) f) tbl1 = (Returns r', tbl')"
      using Cons.prems(1) by (auto split: prod.splits outcome.splits)
    have t: "ra_Atype a = action_Type (ra_F a)" "list_all (typed_action ct) as" using Cons.prems(2) by (simp add: typed_action_def, simp)
    show ?thesis using Cons.IH [OF n t(2)] init_action_shape [OF i] False t(1) by (simp add: AddAction_def)
  qed (use Cons in simp)
qed simp

section \<open>Disruptive actions\<close>

abbreviation is_disruptive :: "ruleAction \<Rightarrow> bool" where
  "is_disruptive a \<equiv> ra_Atype a = ActionTypeDisruptive"

text \<open>The remembered index is that of the only disruptive action.\<close>

definition disruptive_at :: "case_table \<Rightarrow> ruleAction list \<Rightarrow> nat option \<Rightarrow> bool" where
  "disruptive_at ct res d =
     (list_all (typed_action ct) res \<and>
      (case d of
         None \<Rightarrow> filter is_disruptive res = []
       | Some i \<Rightarrow> \<exists>pre a post. res = pre @ a # post \<and> length pre = i \<and> is_disruptive a \<and>
           filter is_disruptive pre = [] \<and> filter is_disruptive post = []))"

lemma disruptive_at_le: "disruptive_at ct res d \<Longrightarrow> length (filter is_disruptive res) \<le> 1 \<and> list_all (typed_action ct) res"
  by (auto simp: disruptive_at_def split: option.splits)

lemma appendRuleAction_disruptive:
  assumes "appendRuleAction ct res key val d = Inr (res', d')" "disruptive_at ct res d"
  shows "disruptive_at ct res' d'"
proof -
  obtain f where f: "actions_Get ct (to_lower ct (trim_space key)) = Inr f"
    using assms(1) by (auto simp: appendRuleAction_def Let_def result_bind_Inr)
  let ?a = "\<lparr>ra_Key = to_lower ct (trim_space key), ra_Value = MaybeRemoveQuotes (trim_space val), ra_Atype = action_Type f, ra_F = f\<rparr>"
  have t: "typed_action ct ?a" using f by (simp add: typed_action_def)
  show ?thesis
  proof (cases "action_Type f = ActionTypeDisruptive")
    case D: True
    show ?thesis
    proof (cases d)
      case None
      then have "res' = res @ [?a]" "d' = Some (length res)"
        using assms(1) f D by (auto simp: appendRuleAction_def Let_def result_bind_Inr)
      then show ?thesis using assms(2) None D t by (auto simp: disruptive_at_def intro!: exI [of _ res])
    next
      case (Some i)
      then obtain pre a post where r: "res = pre @ a # post" "length pre = i" "filter is_disruptive pre = []" "filter is_disruptive post = []"
        using assms(2) by (auto simp: disruptive_at_def)
      have "res' = pre @ ?a # post" "d' = Some i"
        using assms(1) f D Some r(1,2) by (auto simp: appendRuleAction_def Let_def result_bind_Inr)
      then show ?thesis using assms(2) r D t by (auto simp: disruptive_at_def intro!: exI [of _ pre])
    qed
  next
    case False
    then have "res' = res @ [?a]" "d' = d"
      using assms(1) f by (auto simp: appendRuleAction_def Let_def result_bind_Inr)
    then show ?thesis
    proof (cases d)
      case (Some i)
      then obtain pre a post where r: "res = pre @ a # post" "length pre = i" "is_disruptive a" "filter is_disruptive pre = []"
        "filter is_disruptive post = []" "list_all (typed_action ct) res"
        using assms(2) by (auto simp: disruptive_at_def)
      have "res' = pre @ a # (post @ [?a])" using \<open>res' = res @ [?a]\<close> r(1) by simp
      moreover have "filter is_disruptive (post @ [?a]) = []" using r(5) False by simp
      moreover have "list_all (typed_action ct) res'" using \<open>res' = res @ [?a]\<close> r(6) t by simp
      ultimately show ?thesis unfolding disruptive_at_def \<open>d' = d\<close> Some option.case using r(2-4) by blast
    qed (use assms(2) False t in \<open>simp add: disruptive_at_def\<close>)
  qed
qed

lemma append_part_disruptive:
  "append_part ct res part colon d = Inr (res', d') \<Longrightarrow> disruptive_at ct res d \<Longrightarrow> disruptive_at ct res' d'"
  by (auto simp: append_part_def split: option.splits intro: appendRuleAction_disruptive)

lemma parse_actions_loop_disruptive:
  "parse_actions_loop ct prev cs part colon q res d = Inr as \<Longrightarrow> disruptive_at ct res d \<Longrightarrow> \<exists>d'. disruptive_at ct as d'"
  by (induction ct prev cs part colon q res d rule: parse_actions_loop.induct)
    (auto simp: result_bind_Inr split: if_splits prod.splits dest: append_part_disruptive)

lemma parseActions_disruptive:
  "parseActions ct actions = Inr as \<Longrightarrow> length (filter is_disruptive as) \<le> 1 \<and> list_all (typed_action ct) as"
proof -
  assume p: "parseActions ct actions = Inr as"
  have "disruptive_at ct [] None" by (simp add: disruptive_at_def)
  then have "\<exists>d. disruptive_at ct as d"
    using p by (auto simp: parseActions_def result_bind_Inr split: list.splits prod.splits
        dest: append_part_disruptive parse_actions_loop_disruptive)
  then show ?thesis using disruptive_at_le by blast
qed

lemma mergeActions_disruptive:
  assumes "mergeActions act defaults = Some as" "length (filter is_disruptive act) \<le> 1"
    "list_all (typed_action ct) act" "list_all (typed_action ct) defaults"
  shows "length (filter is_disruptive as) = 1 \<and> list_all (typed_action ct) as"
proof -
  let ?res = "filter (\<lambda>a. ra_Atype a \<noteq> ActionTypeDisruptive \<and> ra_Atype a \<noteq> ActionTypeMetadata) defaults"
  let ?own = "filter (\<lambda>a. is_disruptive a \<longrightarrow> ra_Key a \<noteq> ''block'') act"
  have r: "filter is_disruptive ?res = []" by (auto simp: filter_empty_conv)
  have o: "filter is_disruptive ?own = filter (\<lambda>a. is_disruptive a \<and> ra_Key a \<noteq> ''block'') act"
    unfolding filter_filter by (rule filter_cong) auto
  have f: "filter (\<lambda>a. is_disruptive a \<and> ra_Key a \<noteq> ''block'') act = filter (\<lambda>a. ra_Key a \<noteq> ''block'') (filter is_disruptive act)"
    unfolding filter_filter by (rule filter_cong) auto
  have le: "length (filter is_disruptive ?own) \<le> 1"
    unfolding o f using assms(2) length_filter_le order_trans by blast
  have t: "list_all (typed_action ct) ?res" "list_all (typed_action ct) ?own" using assms(3,4) by (auto simp: list_all_iff)
  show ?thesis
  proof (cases "list_ex (\<lambda>a. is_disruptive a \<and> ra_Key a \<noteq> ''block'') act")
    case True
    then have "filter is_disruptive ?own \<noteq> []" unfolding o by (auto simp: list_ex_iff filter_empty_conv)
    then have "length (filter is_disruptive ?own) = 1" using le by (cases "filter is_disruptive ?own") auto
    moreover have "as = ?res @ ?own" using assms(1) True by (simp add: mergeActions_def Let_def)
    ultimately show ?thesis using r t by simp
  next
    case False
    then have n: "filter is_disruptive ?own = []" unfolding o by (auto simp: list_ex_iff filter_empty_conv)
    obtain d ds where ds: "filter is_disruptive defaults = d # ds" "as = ?res @ ?own @ [last (d # ds)]"
      using assms(1) False by (auto simp: mergeActions_def Let_def split: list.splits)
    have "last (d # ds) \<in> set (filter is_disruptive defaults)" unfolding ds(1) by (rule last_in_set) simp
    then have "is_disruptive (last (d # ds))" "typed_action ct (last (d # ds))" using assms(4) by (auto simp: list_all_iff)
    then show ?thesis using r n t ds(2) by simp
  qed
qed

section \<open>Rules\<close>

definition disruptive_actions :: "rule_params \<Rightarrow> (string \<times> action) list" where
  "disruptive_actions r = filter (\<lambda>a. action_Type (snd a) = ActionTypeDisruptive) (r_actions r)"

text \<open>A rule keeps no metadata action, and every action it keeps has the type its key is registered with.\<close>

definition registered_actions :: "case_table \<Rightarrow> rule_params \<Rightarrow> bool" where
  "registered_actions ct r =
     list_all (\<lambda>(k, f). case actions_Get ct k of
        Inr g \<Rightarrow> action_Type f = action_Type g \<and> action_Type f \<noteq> ActionTypeMetadata
      | Inl _ \<Rightarrow> False) (r_actions r)"

lemma registered_actions_typed:
  assumes "map (\<lambda>(k, f). (k, action_Type f)) (r_actions r) =
      map (\<lambda>a. (ra_Key a, ra_Atype a)) (filter (\<lambda>a. ra_Atype a \<noteq> ActionTypeMetadata) as)"
    and "list_all (typed_action ct) as"
  shows "registered_actions ct r"
  unfolding registered_actions_def list_all_iff
proof (intro ballI, clarify)
  fix k f
  assume "(k, f) \<in> set (r_actions r)"
  then have "(k, action_Type f) \<in> set (map (\<lambda>(k, f). (k, action_Type f)) (r_actions r))" by force
  then obtain a where "a \<in> set as" "ra_Atype a \<noteq> ActionTypeMetadata" "k = ra_Key a" "action_Type f = ra_Atype a"
    unfolding assms(1) by auto
  then show "case actions_Get ct k of Inr g \<Rightarrow> action_Type f = action_Type g \<and> action_Type f \<noteq> ActionTypeMetadata | Inl _ \<Rightarrow> False"
    using assms(2) by (simp add: list_all_iff typed_action_def)
qed

lemma disruptive_actions_count:
  assumes "map (\<lambda>(k, f). (k, action_Type f)) xs = map (\<lambda>a. (ra_Key a, ra_Atype a)) as"
  shows "length (filter (\<lambda>a. action_Type (snd a) = ActionTypeDisruptive) xs) = length (filter is_disruptive as)"
proof -
  have "filter (\<lambda>p. snd p = ActionTypeDisruptive) (map (\<lambda>(k, f). (k, action_Type f)) xs) =
    filter (\<lambda>p. snd p = ActionTypeDisruptive) (map (\<lambda>a. (ra_Key a, ra_Atype a)) as)" using assms by simp
  then have "length (filter (\<lambda>p. snd p = ActionTypeDisruptive) (map (\<lambda>(k, f). (k, action_Type f)) xs)) =
    length (filter (\<lambda>p. snd p = ActionTypeDisruptive) (map (\<lambda>a. (ra_Key a, ra_Atype a)) as))" by simp
  then show ?thesis by (simp add: filter_map comp_def case_prod_beta)
qed

lemma applyParsedActions_disruptive:
  assumes "applyParsedActions env cfg defaults act r tbl = (Returns r', tbl')" "r_actions r = []"
    and act: "length (filter is_disruptive act) \<le> 1" "list_all (typed_action ct) act"
    and defs: "\<And>p ds. alist_get defaults p = Some ds \<Longrightarrow> list_all (typed_action ct) ds"
  shows "length (disruptive_actions r') \<le> 1 \<and> (alist_get defaults (r_Phase r') \<noteq> None \<longrightarrow> length (disruptive_actions r') = 1) \<and>
    registered_actions ct r'"
proof -
  obtain r1 tbl1 where m: "init_actions env True act r tbl = (Returns r1, tbl1)"
    using assms(1) by (auto simp: applyParsedActions_def split: if_splits prod.splits outcome.splits)
  obtain act' where a: "(case alist_get defaults (r_Phase r1) of None \<Rightarrow> Some act | Some ds \<Rightarrow> mergeActions act ds) = Some act'"
    and i: "init_actions env False act' r1 tbl1 = (Returns r', tbl')"
    using assms(1) m by (auto simp: applyParsedActions_def split: if_splits option.splits)
  have l: "length (filter is_disruptive act') \<le> 1 \<and> list_all (typed_action ct) act' \<and>
    (alist_get defaults (r_Phase r1) \<noteq> None \<longrightarrow> length (filter is_disruptive act') = 1)"
    using a act mergeActions_disruptive [OF _ act] defs by (auto split: option.splits)
  then have o: "r_metadata r' = r_metadata r1"
    "map (\<lambda>(k, f). (k, action_Type f)) (r_actions r') =
      map (\<lambda>a. (ra_Key a, ra_Atype a)) (filter (\<lambda>a. ra_Atype a \<noteq> ActionTypeMetadata) act')"
    using init_other_actions [OF i, of ct] init_metadata_actions [OF m] assms(2) by simp_all
  have "length (disruptive_actions r') = length (filter is_disruptive (filter (\<lambda>a. ra_Atype a \<noteq> ActionTypeMetadata) act'))"
    unfolding disruptive_actions_def by (rule disruptive_actions_count) (rule o(2))
  also have "filter is_disruptive (filter (\<lambda>a. ra_Atype a \<noteq> ActionTypeMetadata) act') = filter is_disruptive act'"
    unfolding filter_filter by (rule filter_cong) auto
  finally show ?thesis using l o(1) registered_actions_typed [OF o(2)] by simp
qed

lemma ParseDefaultActions_typed:
  assumes "ParseDefaultActions ct actions defaults = Inr defaults'" "\<And>p ds. alist_get defaults p = Some ds \<Longrightarrow> list_all (typed_action ct) ds"
    and "alist_get defaults' p = Some ds"
  shows "list_all (typed_action ct) ds"
  using assms parseActions_disruptive
  by (auto simp: ParseDefaultActions_def result_bind_Inr split: if_splits prod.splits)

lemma parse_defaults_typed:
  assumes "parse_defaults ct das defaults = Inr defaults'" "\<And>p ds. alist_get defaults p = Some ds \<Longrightarrow> list_all (typed_action ct) ds"
  shows "alist_get defaults' p = Some ds \<Longrightarrow> list_all (typed_action ct) ds"
  using assms
proof (induction das arbitrary: defaults)
  case Nil
  then show ?case using ParseDefaultActions_typed [of ct _ defaults defaults' p ds] by (auto split: if_splits)
next
  case (Cons da das)
  then obtain d where "ParseDefaultActions ct da defaults = Inr d" "parse_defaults ct das d = Inr defaults'"
    by (auto simp: result_bind_Inr)
  then show ?case using Cons.IH Cons.prems ParseDefaultActions_typed by metis
qed

section \<open>Printed actions\<close>

lemma trim_space_ascii:
  assumes "list_all is_ascii s"
  shows "trim_space s = rev (dropWhile (\<lambda>b. unicode_is_space (byte b)) (rev (dropWhile (\<lambda>b. unicode_is_space (byte b)) s)))"
proof -
  have d: "dropWhile (\<lambda>p. unicode_is_space (fst p)) (map (\<lambda>b. (byte b, [b])) s) =
    map (\<lambda>b. (byte b, [b])) (dropWhile (\<lambda>b. unicode_is_space (byte b)) s)" for s :: string
    by (induction s) auto
  have c: "concat (map (\<lambda>b. [b]) s) = s" for s :: string by (induction s) auto
  show ?thesis
    by (simp add: trim_space_def rune_chunks_ascii [OF assms] d rev_map [symmetric])
      (simp add: rev_map d comp_def c)
qed

lemma trim_space_tight:
  assumes "list_all is_ascii s" "s \<noteq> []" "\<not> unicode_is_space (byte (hd s))" "\<not> unicode_is_space (byte (last s))"
  shows "trim_space s = s"
proof -
  have "dropWhile (\<lambda>b. unicode_is_space (byte b)) s = s" using assms(2,3) by (cases s) auto
  moreover have "dropWhile (\<lambda>b. unicode_is_space (byte b)) (rev s) = rev s"
    using assms(2,4) by (cases s rule: rev_cases) auto
  ultimately show ?thesis by (simp add: trim_space_ascii [OF assms(1)])
qed

lemma ParseRulePhase_two: "ParseRulePhase ''2'' = Inr PhaseRequestBody"
  by code_simp

lemma phase2_defaults:
  "alist_get d PhaseRequestBody = None \<Longrightarrow> ParseDefaultActions ct defaultActionsPhase2 d = Inr d' \<Longrightarrow> alist_get d' PhaseRequestBody \<noteq> None"
  by (auto simp: ParseDefaultActions_def defaultActionsPhase2_def parseActions_def append_part_def appendRuleAction_def
      trim_space_ascii to_lower_ascii is_ascii_def actions_Get_def actionmap_def result_bind_def MaybeRemoveQuotes_def
      unicode_is_space_def lower_byte_def is_upper_def ParseRulePhase_two)

lemma parse_defaults_phase2: "parse_defaults ct das d = Inr d' \<Longrightarrow> alist_get d' PhaseRequestBody \<noteq> None"
proof (induction das arbitrary: d)
  case Nil
  then show ?case using phase2_defaults by (simp split: if_splits del: not_None_eq)
qed (auto simp: result_bind_Inr)

lemma apply_var_op_keeps:
  "apply_var_op env op r = Inr r' \<Longrightarrow> r_actions r' = r_actions r \<and> r_metadata r' = r_metadata r"
  by (auto simp: apply_var_op_def AddVariable_def AddVariableNegation_def result_bind_Inr Let_def split: var_op.splits if_splits)

lemma apply_var_ops_keep:
  "apply_var_ops env ops r = Inr r' \<Longrightarrow> r_actions r' = r_actions r \<and> r_metadata r' = r_metadata r"
  by (induction ops arbitrary: r) (auto simp: result_bind_Inr dest!: apply_var_op_keeps)

lemma ParseVariables_keeps:
  "ParseVariables env vars r = Inr r' \<Longrightarrow> r_actions r' = r_actions r \<and> r_metadata r' = r_metadata r"
  by (auto simp: ParseVariables_def result_bind_Inr split: prod.splits option.splits dest: apply_var_ops_keep)

lemma ParseOperator_keeps:
  "ParseOperator env cfg ds pf operator r = Inr r' \<Longrightarrow> r_actions r' = r_actions r \<and> r_metadata r' = r_metadata r"
  by (auto simp: ParseOperator_def SetOperator_def result_bind_Inr Let_def split: prod.splits)

lemma rule_head_fresh:
  "rule_head env pf options = Inr (r, acts) \<Longrightarrow> r_actions r = [] \<and> r_metadata r = r_metadata NewRule"
proof -
  have n: "r_actions NewRule = []" by (simp add: NewRule_def)
  assume "rule_head env pf options = Inr (r, acts)"
  then show ?thesis
    by (auto simp: rule_head_def result_bind_Inr n split: if_splits dest!: ParseVariables_keeps ParseOperator_keeps)
qed

text \<open>The actions a rule gets, before it is placed.\<close>

lemma parsed_actions_disruptive:
  assumes defaults: "parse_defaults ct das [] = Inr defaults" and r: "r_actions r = []"
    and a: "(if b then (Returns r, tbl) else case parseActions ct raw of Inl e \<Rightarrow> (Fails e, tbl)
        | Inr act \<Rightarrow> applyParsedActions env cfg defaults act r tbl) = (Returns r', tbl')"
  shows "length (disruptive_actions r') \<le> 1 \<and>
    (r_Phase r' = PhaseRequestBody \<and> r_actions r' \<noteq> [] \<longrightarrow> length (disruptive_actions r') = 1) \<and> registered_actions ct r'"
proof (cases b)
  case True
  then show ?thesis using a r by (simp add: disruptive_actions_def registered_actions_def)
next
  case False
  then obtain act where act: "parseActions ct raw = Inr act" and ap: "applyParsedActions env cfg defaults act r tbl = (Returns r', tbl')"
    using a by (auto split: sum.splits)
  note p = parseActions_disruptive [OF act]
  have "\<And>p ds. alist_get defaults p = Some ds \<Longrightarrow> list_all (typed_action ct) ds"
    using parse_defaults_typed [OF defaults] by simp
  then show ?thesis
    using applyParsedActions_disruptive [OF ap r conjunct1 [OF p] conjunct2 [OF p]] parse_defaults_phase2 [OF defaults] by auto
qed

text \<open>
  Text of actions that is read back: names of lower-case letters that are registered, values in
  quotes without a quote or a backslash, and at most one disruptive action.
\<close>

definition plain_letter :: "char \<Rightarrow> bool" where
  "plain_letter c = (97 \<le> byte c \<and> byte c \<le> 122)"

definition plain_value :: "char \<Rightarrow> bool" where
  "plain_value c = (is_ascii c \<and> c \<noteq> CHR 39 \<and> c \<noteq> CHR 92)"

definition printable_action :: "case_table \<Rightarrow> ruleAction \<Rightarrow> bool" where
  "printable_action ct a =
     (ra_Key a \<noteq> [] \<and> list_all plain_letter (ra_Key a) \<and> list_all plain_value (ra_Value a) \<and>
      typed_action ct a)"

definition print_action :: "ruleAction \<Rightarrow> string" where
  "print_action a = ra_Key a @ '':'' @ [CHR 39] @ ra_Value a @ [CHR 39]"

fun print_actions :: "ruleAction list \<Rightarrow> string" where
  "print_actions [] = []"
| "print_actions [a] = print_action a"
| "print_actions (a # as) = print_action a @ '','' @ print_actions as"

lemma plain_letter_bytes:
  assumes "plain_letter c"
  shows "c \<noteq> CHR 92" "c \<noteq> CHR 39" "c \<noteq> CHR '':''" "c \<noteq> CHR '',''" "is_ascii c" "\<not> unicode_is_space (byte c)" "lower_byte c = c"
  using assms by (auto simp: plain_letter_def is_ascii_def unicode_is_space_def lower_byte_def is_upper_def less_eq_char_def)

lemma loop_key:
  "list_all plain_letter ks \<Longrightarrow> prev \<noteq> CHR 92 \<Longrightarrow>
     parse_actions_loop ct prev (ks @ s) part None False res d = parse_actions_loop ct (last (prev # ks)) s (part @ ks) None False res d"
proof (induction ks arbitrary: prev part)
  case (Cons k ks)
  then have k: "plain_letter k" "list_all plain_letter ks" by simp_all
  show ?case using Cons.IH [OF k(2) plain_letter_bytes(1) [OF k(1)]] Cons.prems(2) plain_letter_bytes [OF k(1)] by simp
qed simp

lemma loop_quoted:
  "list_all plain_value vs \<Longrightarrow> prev \<noteq> CHR 92 \<Longrightarrow>
     parse_actions_loop ct prev (vs @ s) part colon True res d = parse_actions_loop ct (last (prev # vs)) s (part @ vs) colon True res d"
proof (induction vs arbitrary: prev part)
  case (Cons v vs)
  then have "plain_value v" and v: "list_all plain_value vs" by simp_all
  then have n: "v \<noteq> CHR 92" "v \<noteq> CHR 39" by (simp_all add: plain_value_def)
  show ?case using Cons.IH [OF v n(1)] Cons.prems(2) n by simp
qed simp

lemma loop_print_action:
  assumes a: "printable_action ct a" and k: "ra_Key a = part @ ks" and p: "prev \<noteq> CHR 92"
  shows "parse_actions_loop ct prev (ks @ '':'' @ [CHR 39] @ ra_Value a @ [CHR 39] @ s) part None False res d =
    parse_actions_loop ct CHR 39 s (print_action a) (Some (length (ra_Key a))) False res d"
proof -
  have ks: "list_all plain_letter ks" and v: "list_all plain_value (ra_Value a)" using a k by (simp_all add: printable_action_def)
  have l: "last (prev # ks) \<noteq> CHR 92"
    using p ks plain_letter_bytes(1) by (cases ks rule: rev_cases) (auto simp: list_all_iff)
  have lv: "last (CHR 39 # ra_Value a) \<noteq> CHR 92"
    using v by (cases "ra_Value a" rule: rev_cases) (auto simp: plain_value_def)
  show ?thesis
    unfolding append.assoc append_Cons append_Nil loop_key [OF ks p]
    using l lv loop_quoted [OF v, of "CHR 39" ct "CHR 39 # s"] by (simp add: print_action_def k)
qed

lemma append_printed:
  assumes a: "printable_action ct a"
  shows "append_part ct res (print_action a) (Some (length (ra_Key a))) d =
    (if is_disruptive a then case d of Some i \<Rightarrow> Inr (res[i := a], d) | None \<Rightarrow> Inr (res @ [a], Some (length res))
     else Inr (res @ [a], d))"
proof -
  have k: "ra_Key a \<noteq> []" "list_all plain_letter (ra_Key a)" and v: "list_all plain_value (ra_Value a)"
    and g: "actions_Get ct (ra_Key a) = Inr (ra_F a)" "ra_Atype a = action_Type (ra_F a)"
    using a by (simp_all add: printable_action_def typed_action_def)
  have ka: "list_all is_ascii (ra_Key a)" using k(2) plain_letter_bytes(5) by (auto simp: list_all_iff)
  have s: "\<not> unicode_is_space (byte (hd (ra_Key a)))" "\<not> unicode_is_space (byte (last (ra_Key a)))"
    using k plain_letter_bytes(6) by (auto simp: list_all_iff)
  have low: "to_lower ct (trim_space (ra_Key a)) = ra_Key a"
    using k(2) plain_letter_bytes(7) unfolding trim_space_tight [OF ka k(1) s] to_lower_ascii [OF ka]
    by (simp add: list_all_iff map_idI)
  have "list_all is_ascii ([CHR 39] @ ra_Value a @ [CHR 39])"
    using v by (auto simp: list_all_iff plain_value_def is_ascii_def)
  then have val: "MaybeRemoveQuotes (trim_space ([CHR 39] @ ra_Value a @ [CHR 39])) = ra_Value a"
    by (subst trim_space_tight) (simp_all add: unicode_is_space_def MaybeRemoveQuotes_def)
  show ?thesis
    using low val g by (cases a) (simp add: append_part_def appendRuleAction_def print_action_def result_bind_def split: option.splits)
qed

lemma loop_print_actions:
  assumes "list_all (printable_action ct) (a # as)" "ra_Key a = part @ ks" "prev \<noteq> CHR 92"
    "disruptive_at ct res d" "length (filter is_disruptive (res @ a # as)) \<le> 1"
  shows "parse_actions_loop ct prev (drop (length part) (print_actions (a # as))) part None False res d = Inr (res @ a # as)"
  using assms
proof (induction as arbitrary: a prev part ks res d)
  case Nil
  have p: "printable_action ct a" using Nil.prems(1) by simp
  show ?case
    using loop_print_action [OF p Nil.prems(2,3), of "[]" res d] Nil.prems(2,4,5) append_printed [OF p, of res d]
    by (auto simp: print_action_def result_bind_def disruptive_at_def split: option.splits)
next
  case (Cons b bs)
  have p: "printable_action ct a" and bs: "list_all (printable_action ct) (b # bs)" using Cons.prems(1) by simp_all
  obtain d' where d': "append_part ct res (print_action a) (Some (length (ra_Key a))) d = Inr (res @ [a], d')"
    using append_printed [OF p, of res d] Cons.prems(4,5) by (auto simp: disruptive_at_def split: option.splits if_splits)
  then have da: "disruptive_at ct (res @ [a]) d'" using append_part_disruptive Cons.prems(4) by blast
  have "parse_actions_loop ct prev (drop (length part) (print_actions (a # b # bs))) part None False res d =
    parse_actions_loop ct CHR '','' (print_actions (b # bs)) [] None False (res @ [a]) d'"
    using loop_print_action [OF p Cons.prems(2,3), of "'','' @ print_actions (b # bs)" res d] d' Cons.prems(2)
    by (simp add: print_action_def result_bind_def)
  also have "\<dots> = Inr (res @ a # b # bs)"
    using Cons.IH [OF bs, of "[]" "ra_Key b" "CHR '',''" "res @ [a]" d'] da Cons.prems(5) by simp
  finally show ?case .
qed

end
