(* ===== verification/Seclang.thy ===== *)
theory Seclang
  imports Rule_Parser
begin

text \<open>
  The directives of the configuration language (\<open>internal/seclang/directives.go\<close> and
  \<open>directivesmap.gen.go\<close>). A directive reads its options and changes the WAF under construction or
  the configuration of the parser. After an error the WAF under construction is given up, so only
  successful directives and rules whose errors are ignored pass on a state. Debug log lines are left
  out.
\<close>

section \<open>State\<close>

text \<open>
  The file system, the audit log writers, and the spare capacity the run time left in the slices of
  a rule are those of the environment.
\<close>

record seclang_env = parse_env +
  se_HasAccessToFS :: bool
  se_IsDirWritable :: "string \<Rightarrow> error option"
  se_Getwd :: "string result"
  se_SetDebugLogPath :: "string \<Rightarrow> error option"
  se_status_regexp :: "string \<Rightarrow> regex result"
  se_spare :: "rule_params \<Rightarrow> nat"

abbreviation se_parse :: "seclang_env \<Rightarrow> parse_env" where
  "se_parse env \<equiv> parse_env.truncate env"

abbreviation se_ct :: "seclang_env \<Rightarrow> case_table" where
  "se_ct env \<equiv> pe_ct env"

record DirectiveOptions =
  do_WAF :: waf
  do_Raw :: string
  do_Opts :: string
  do_Datasets :: "(string \<times> string list) list"
  do_Parser :: ParserConfig
  do_table :: id_table

type_synonym directive = "seclang_env \<Rightarrow> DirectiveOptions \<Rightarrow> DirectiveOptions outcome"

definition on_waf :: "(waf \<Rightarrow> waf) \<Rightarrow> DirectiveOptions \<Rightarrow> DirectiveOptions outcome" where
  "on_waf f o1 = Returns (o1\<lparr>do_WAF := f (do_WAF o1)\<rparr>)"

definition on_rules :: "(rule list \<Rightarrow> rule list) \<Rightarrow> DirectiveOptions \<Rightarrow> DirectiveOptions outcome" where
  "on_rules f = on_waf (\<lambda>w. w\<lparr>waf_Rules := f (waf_Rules w)\<rparr>)"

definition on_parser :: "(ParserConfig \<Rightarrow> ParserConfig) \<Rightarrow> DirectiveOptions \<Rightarrow> DirectiveOptions outcome" where
  "on_parser f o1 = Returns (o1\<lparr>do_Parser := f (do_Parser o1)\<rparr>)"

definition errEmptyOptions :: error where "errEmptyOptions = Error ''expected options''"

definition need_opts :: "DirectiveOptions \<Rightarrow> DirectiveOptions outcome \<Rightarrow> DirectiveOptions outcome" where
  "need_opts o1 res = (if do_Opts o1 = [] then Fails errEmptyOptions else res)"

definition parseBoolean :: "case_table \<Rightarrow> string \<Rightarrow> bool outcome" where
  "parseBoolean ct data =
     (let d = to_lower ct data
      in if d = ''on'' then Returns True else if d = ''off'' then Returns False else Fails (Error ''syntax error: [on/off]''))"

definition parseInt64 :: "nat \<Rightarrow> string \<Rightarrow> int outcome" where
  "parseInt64 bits s = (case parse_int bits s of (i, err) \<Rightarrow> if err then Fails (Error ''strconv.ParseInt'') else Returns i)"

text \<open>\<open>strconv.ParseInt(s, 8, 32)\<close>, the notation of file modes, and the conversion to 32 bits.\<close>

fun parse_octal_loop :: "nat \<Rightarrow> string \<Rightarrow> nat option" where
  "parse_octal_loop n [] = Some n"
| "parse_octal_loop n (c # cs) =
     (if \<not> (CHR ''0'' \<le> c \<and> c \<le> CHR ''7'') then None
      else if 2 ^ 32 - 1 < 8 * n + (byte c - 48) then None
      else parse_octal_loop (8 * n + (byte c - 48)) cs)"

definition parseFileMode :: "string \<Rightarrow> int outcome" where
  "parseFileMode s =
     (let neg = (s \<noteq> [] \<and> hd s = CHR ''-'');
          ds = (if s \<noteq> [] \<and> (hd s = CHR ''-'' \<or> hd s = CHR ''+'') then tl s else s)
      in if ds = [] then Fails (Error ''strconv.ParseInt'')
         else case parse_octal_loop 0 ds of
           None \<Rightarrow> Fails (Error ''strconv.ParseInt'')
         | Some n \<Rightarrow>
             (case clamp_int 32 neg (int n) of (i, err) \<Rightarrow>
                if err then Fails (Error ''strconv.ParseInt'') else Returns (i mod 2 ^ 32)))"

section \<open>Settings\<close>

definition directiveSecComponentSignature :: directive where
  "directiveSecComponentSignature env o1 =
     need_opts o1 (on_waf (\<lambda>w. w\<lparr>waf_ComponentNames := waf_ComponentNames w @ [do_Opts o1]\<rparr>) o1)"

definition boolean_directive :: "(bool \<Rightarrow> waf \<Rightarrow> waf) \<Rightarrow> directive" where
  "boolean_directive f env o1 =
     need_opts o1 (outcome_bind (parseBoolean (se_ct env) (do_Opts o1)) (\<lambda>b. on_waf (f b) o1))"

definition int64_directive :: "(int \<Rightarrow> waf \<Rightarrow> waf) \<Rightarrow> directive" where
  "int64_directive f env o1 = need_opts o1 (outcome_bind (parseInt64 64 (do_Opts o1)) (\<lambda>i. on_waf (f i) o1))"

definition text_directive :: "(string \<Rightarrow> waf \<Rightarrow> waf) \<Rightarrow> directive" where
  "text_directive f env o1 = need_opts o1 (on_waf (f (do_Opts o1)) o1)"

definition mode_directive :: "(int \<Rightarrow> waf \<Rightarrow> waf) \<Rightarrow> directive" where
  "mode_directive f env o1 = need_opts o1 (outcome_bind (parseFileMode (do_Opts o1)) (\<lambda>m. on_waf (f m) o1))"

definition directiveSecResponseBodyAccess :: directive where
  "directiveSecResponseBodyAccess = boolean_directive (\<lambda>b w. w\<lparr>waf_ResponseBodyAccess := b\<rparr>)"

definition directiveSecRequestBodyLimit :: directive where
  "directiveSecRequestBodyLimit = int64_directive (\<lambda>i w. w\<lparr>waf_RequestBodyLimit := i\<rparr>)"

definition directiveSecRequestBodyAccess :: directive where
  "directiveSecRequestBodyAccess = boolean_directive (\<lambda>b w. w\<lparr>waf_RequestBodyAccess := b\<rparr>)"

definition directiveSecRequestBodyJsonDepthLimit :: directive where
  "directiveSecRequestBodyJsonDepthLimit env o1 =
     need_opts o1 (outcome_bind (of_result (atoi_result (do_Opts o1))) (\<lambda>limit.
       if limit \<le> 0 then Fails (Error ''limit must be a positive integer'')
       else on_waf (\<lambda>w. w\<lparr>waf_RequestBodyJsonDepthLimit := limit\<rparr>) o1))"

definition directiveSecRuleEngine :: directive where
  "directiveSecRuleEngine env o1 =
     outcome_bind (of_result (ParseRuleEngineStatus (se_ct env) (do_Opts o1))) (\<lambda>e. on_waf (\<lambda>w. w\<lparr>waf_RuleEngine := e\<rparr>) o1)"

text \<open>The directives that are accepted and do nothing.\<close>

definition directiveUnsupported :: directive where
  "directiveUnsupported env o1 = Returns o1"

definition directiveSecWebAppID :: directive where
  "directiveSecWebAppID = text_directive (\<lambda>s w. w\<lparr>waf_WebAppID := s\<rparr>)"

definition directiveSecServerSignature :: directive where
  "directiveSecServerSignature = text_directive (\<lambda>s w. w\<lparr>waf_ServerSignature := MaybeRemoveQuotes s\<rparr>)"

definition directiveSecResponseBodyMimeTypesClear :: directive where
  "directiveSecResponseBodyMimeTypesClear env o1 =
     (if do_Opts o1 \<noteq> [] then Fails (Error ''unexpected options'') else on_waf (\<lambda>w. w\<lparr>waf_ResponseBodyMimeTypes := []\<rparr>) o1)"

definition directiveSecResponseBodyMimeType :: directive where
  "directiveSecResponseBodyMimeType = text_directive (\<lambda>s w. w\<lparr>waf_ResponseBodyMimeTypes := split_byte s CHR '' ''\<rparr>)"

definition limit_action :: "case_table \<Rightarrow> string \<Rightarrow> body_limit_action outcome" where
  "limit_action ct s =
     (let l = to_lower ct s
      in if l = ''reject'' then Returns BodyLimitActionReject
         else if l = ''processpartial'' then Returns BodyLimitActionProcessPartial
         else Fails (Error ''syntax error: [Reject/ProcessPartial]''))"

definition directiveSecResponseBodyLimitAction :: directive where
  "directiveSecResponseBodyLimitAction env o1 =
     outcome_bind (limit_action (se_ct env) (do_Opts o1)) (\<lambda>a. on_waf (\<lambda>w. w\<lparr>waf_ResponseBodyLimitAction := a\<rparr>) o1)"

definition directiveSecResponseBodyLimit :: directive where
  "directiveSecResponseBodyLimit = int64_directive (\<lambda>i w. w\<lparr>waf_ResponseBodyLimit := i\<rparr>)"

definition directiveSecRequestBodyLimitAction :: directive where
  "directiveSecRequestBodyLimitAction env o1 =
     outcome_bind (limit_action (se_ct env) (do_Opts o1)) (\<lambda>a. on_waf (\<lambda>w. w\<lparr>waf_RequestBodyLimitAction := a\<rparr>) o1)"

definition directiveSecRequestBodyInMemoryLimit :: directive where
  "directiveSecRequestBodyInMemoryLimit = int64_directive SetRequestBodyInMemoryLimit"

definition directiveSecRemoteRulesFailAction :: directive where
  "directiveSecRemoteRulesFailAction env o1 =
     need_opts o1 (let l = to_lower (se_ct env) (do_Opts o1)
       in if l = ''abort'' then on_waf (\<lambda>w. w\<lparr>waf_AbortOnRemoteRulesFail := True\<rparr>) o1
          else if l = ''warn'' then on_waf (\<lambda>w. w\<lparr>waf_AbortOnRemoteRulesFail := False\<rparr>) o1
          else Fails (Error ''unknown option''))"

definition directiveSecRemoteRules :: directive where
  "directiveSecRemoteRules env o1 = Fails (Error ''not implemented'')"

definition directiveSecSensorID :: directive where
  "directiveSecSensorID = text_directive (\<lambda>s w. w\<lparr>waf_SensorID := s\<rparr>)"

definition directiveSecDefaultAction :: directive where
  "directiveSecDefaultAction env o1 =
     need_opts o1 (on_parser (\<lambda>p. p\<lparr>pc_RuleDefaultActions := pc_RuleDefaultActions p @ [do_Opts o1],
       pc_HasRuleDefaultActions := True\<rparr>) o1)"

section \<open>Audit log, uploads and limits\<close>

definition on_writer_config :: "(audit_log_config \<Rightarrow> audit_log_config) \<Rightarrow> waf \<Rightarrow> waf" where
  "on_writer_config f w = w\<lparr>waf_AuditLogWriterConfig := f (waf_AuditLogWriterConfig w)\<rparr>"

definition audit_writers :: "string list" where
  "audit_writers = [''concurrent'', ''serial'', ''https'', ''syslog'']"

definition audit_formatters :: "string list" where
  "audit_formatters = [''json'', ''jsonlegacy'', ''native'', ''ocsf'']"

definition GetWriter :: "case_table \<Rightarrow> string \<Rightarrow> string outcome" where
  "GetWriter ct name = (let n = to_lower ct name in if InSlice n audit_writers then Returns n else Fails (Error ''invalid logger''))"

definition GetFormatter :: "case_table \<Rightarrow> string \<Rightarrow> string outcome" where
  "GetFormatter ct name =
     (let n = to_lower ct name in if InSlice n audit_formatters then Returns n else Fails (Error ''invalid formatter''))"

definition directiveSecAuditLog :: directive where
  "directiveSecAuditLog = text_directive (\<lambda>s. on_writer_config (\<lambda>c. c\<lparr>alc_Target := s\<rparr>))"

definition directiveSecAuditLogType :: directive where
  "directiveSecAuditLogType env o1 =
     need_opts o1 (outcome_bind (GetWriter (se_ct env) (do_Opts o1)) (\<lambda>wr. on_waf (SetAuditLogWriter wr) o1))"

definition directiveSecAuditLogFormat :: directive where
  "directiveSecAuditLogFormat env o1 =
     need_opts o1 (outcome_bind (GetFormatter (se_ct env) (do_Opts o1)) (\<lambda>f. on_waf (on_writer_config (\<lambda>c. c\<lparr>alc_Formatter := f\<rparr>)) o1))"

definition directiveSecAuditLogStorageDir :: directive where
  "directiveSecAuditLogStorageDir = text_directive (\<lambda>s. on_writer_config (\<lambda>c. c\<lparr>alc_Dir := s\<rparr>))"

definition directiveSecAuditLogDirMode :: directive where
  "directiveSecAuditLogDirMode = mode_directive (\<lambda>m. on_writer_config (\<lambda>c. c\<lparr>alc_DirMode := m\<rparr>))"

definition directiveSecAuditLogFileMode :: directive where
  "directiveSecAuditLogFileMode = mode_directive (\<lambda>m. on_writer_config (\<lambda>c. c\<lparr>alc_FileMode := m\<rparr>))"

definition directiveSecAuditLogRelevantStatus :: directive where
  "directiveSecAuditLogRelevantStatus env o1 =
     need_opts o1 (outcome_bind (of_result (se_status_regexp env (do_Opts o1))) (\<lambda>re.
       on_waf (\<lambda>w. w\<lparr>waf_AuditLogRelevantStatus := Some re\<rparr>) o1))"

definition directiveSecAuditLogParts :: directive where
  "directiveSecAuditLogParts env o1 =
     need_opts o1 (outcome_bind (of_result (ParseAuditLogParts (do_Opts o1))) (\<lambda>ps. on_waf (\<lambda>w. w\<lparr>waf_AuditLogParts := ps\<rparr>) o1))"

definition directiveSecAuditEngine :: directive where
  "directiveSecAuditEngine env o1 =
     need_opts o1 (outcome_bind (of_result (ParseAuditEngineStatus (se_ct env) (do_Opts o1))) (\<lambda>a.
       on_waf (\<lambda>w. w\<lparr>waf_AuditEngine := a\<rparr>) o1))"

definition directiveSecDataDir :: directive where
  "directiveSecDataDir = text_directive (\<lambda>s w. w\<lparr>waf_DataDir := s\<rparr>)"

definition directiveSecUploadKeepFiles :: directive where
  "directiveSecUploadKeepFiles env o1 =
     need_opts o1 (outcome_bind (of_result (ParseUploadKeepFilesStatus (se_ct env) (do_Opts o1))) (\<lambda>st.
       if \<not> se_HasAccessToFS env \<and> st \<noteq> UploadKeepFilesOff then
         Fails (Error ''SecUploadKeepFiles: cannot enable keeping uploaded files: filesystem access is disabled'')
       else on_waf (\<lambda>w. w\<lparr>waf_UploadKeepFiles := st\<rparr>) o1))"

definition directiveSecUploadFileMode :: directive where
  "directiveSecUploadFileMode = mode_directive (\<lambda>m w. w\<lparr>waf_UploadFileMode := m\<rparr>)"

definition directiveSecUploadFileLimit :: directive where
  "directiveSecUploadFileLimit env o1 =
     need_opts o1 (outcome_bind (of_result (atoi_result (do_Opts o1))) (\<lambda>i. on_waf (\<lambda>w. w\<lparr>waf_UploadFileLimit := i\<rparr>) o1))"

definition directiveSecUploadDir :: directive where
  "directiveSecUploadDir env o1 =
     need_opts o1
       (if \<not> se_HasAccessToFS env then Fails (Error ''SecUploadDir directive is not effective because of no access to the filesystem'')
        else case se_IsDirWritable env (do_Opts o1) of
          Some e \<Rightarrow> Fails e
        | None \<Rightarrow> on_waf (\<lambda>w. w\<lparr>waf_UploadDir := do_Opts o1\<rparr>) o1)"

definition directiveSecRequestBodyNoFilesLimit :: directive where
  "directiveSecRequestBodyNoFilesLimit = int64_directive (\<lambda>i w. w\<lparr>waf_RequestBodyNoFilesLimit := i\<rparr>)"

definition directiveSecDebugLog :: directive where
  "directiveSecDebugLog env o1 =
     need_opts o1 (case se_SetDebugLogPath env (do_Opts o1) of Some e \<Rightarrow> Fails e | None \<Rightarrow> Returns o1)"

definition directiveSecDebugLogLevel :: directive where
  "directiveSecDebugLogLevel env o1 =
     outcome_bind (parseInt64 8 (do_Opts o1)) (\<lambda>lvl.
       outcome_bind (of_result (SetDebugLogLevel lvl (do_WAF o1))) (\<lambda>w. Returns (o1\<lparr>do_WAF := w\<rparr>)))"

definition directiveSecIgnoreRuleCompilationErrors :: directive where
  "directiveSecIgnoreRuleCompilationErrors env o1 =
     outcome_bind (parseBoolean (se_ct env) (do_Opts o1)) (\<lambda>b. on_parser (\<lambda>p. p\<lparr>pc_IgnoreRuleCompilationErrors := b\<rparr>) o1)"

text \<open>The lines of a data set, without blank lines and comments.\<close>

definition directiveSecDataset :: directive where
  "directiveSecDataset env o1 =
     need_opts o1
       (case cut (do_Opts o1) CHR '' '' of (name, d, ok) \<Rightarrow>
          if \<not> ok then Fails (Error ''syntax error: SecDataset name'')
          else
            let arr = filter (\<lambda>s. s \<noteq> [] \<and> hd s \<noteq> CHR ''#'') (map trim_space (split_byte (trim_set [CHR 96] d) (CHR 10)))
            in Returns (o1\<lparr>do_Datasets := alist_put name arr (do_Datasets o1)\<rparr>))"

definition directiveSecArgumentsLimit :: directive where
  "directiveSecArgumentsLimit env o1 =
     outcome_bind (of_result (atoi_result (do_Opts o1))) (\<lambda>limit.
       if limit \<le> 0 then Fails (Error ''argument limit should be bigger than 0'')
       else on_waf (\<lambda>w. w\<lparr>waf_ArgumentLimit := limit\<rparr>) o1)"

definition directiveSecRxPreFilter :: directive where
  "directiveSecRxPreFilter = boolean_directive (\<lambda>b w. w\<lparr>waf_RxPreFilterEnabled := b\<rparr>)"

section \<open>Rules\<close>

definition directiveSecMarker :: directive where
  "directiveSecMarker env o1 =
     need_opts o1
       (let r = meta (\<lambda>m. m\<lparr>rm_Raw := ''SecMarker '' @ do_Opts o1, rm_SecMark := do_Opts o1, rm_ID := 0, rm_LogID := ''0'',
              rm_Phase := PhaseUnknown, rm_Line := pc_LastLine (do_Parser o1), rm_File := pc_ConfigFile (do_Parser o1)\<rparr>) NewRule
        in outcome_bind (of_result (RuleGroup_Add (waf_Rules (do_WAF o1)) (Some (Rule r None)))) (\<lambda>rules.
             on_rules (\<lambda>_. rules) o1))"

text \<open>\<open>ignore\<close> says whether the errors of the rule are ignored.\<close>

definition add_rule :: "bool \<Rightarrow> bool \<Rightarrow> (string \<times> string list) list \<Rightarrow> directive" where
  "add_rule withOperator ignore datasets env o1 =
     need_opts o1
       (case ParseRule (se_parse env) (waf_RxPreFilterEnabled (do_WAF o1))
          \<lparr>ro_WithOperator = withOperator, ro_ParserConfig = do_Parser o1, ro_Raw = do_Raw o1, ro_Data = do_Opts o1,
           ro_Datasets = datasets\<rparr> (waf_Rules (do_WAF o1)) (do_table o1) of
          (res, rules, tbl) \<Rightarrow>
            let o2 = o1\<lparr>do_WAF := (do_WAF o1)\<lparr>waf_Rules := rules\<rparr>, do_table := tbl\<rparr>
            in case res of
                 Panics \<Rightarrow> Panics
               | Fails e \<Rightarrow> (if ignore then Returns o2 else Fails e)
               | Returns rl \<Rightarrow>
                   (case RuleGroup_Add rules rl of
                      Inl e \<Rightarrow> (if ignore then Returns o2 else Fails e)
                    | Inr rules' \<Rightarrow> on_rules (\<lambda>_. rules') o2))"

definition directiveSecAction :: directive where
  "directiveSecAction env o1 = add_rule False False [] env o1"

definition directiveSecRule :: directive where
  "directiveSecRule env o1 = add_rule True (pc_IgnoreRuleCompilationErrors (do_Parser o1)) (do_Datasets o1) env o1"

definition directiveSecRuleRemoveByTag :: directive where
  "directiveSecRuleRemoveByTag env o1 = need_opts o1 (on_rules (\<lambda>rules. DeleteByTag rules (do_Opts o1)) o1)"

definition directiveSecRuleRemoveByMsg :: directive where
  "directiveSecRuleRemoveByMsg env o1 =
     need_opts o1 (case DeleteByMsg (waf_Rules (do_WAF o1)) (do_Opts o1) of
       None \<Rightarrow> Panics
     | Some rules \<Rightarrow> on_rules (\<lambda>_. rules) o1)"

text \<open>\<open>strings.Fields\<close>.\<close>

fun fields_loop :: "(nat \<times> string) list \<Rightarrow> string \<Rightarrow> string list" where
  "fields_loop [] cur = (if cur = [] then [] else [cur])"
| "fields_loop ((r, b) # cs) cur =
     (if unicode_is_space r then (if cur = [] then fields_loop cs [] else cur # fields_loop cs [])
      else fields_loop cs (cur @ b))"

definition fields_of :: "string \<Rightarrow> string list" where
  "fields_of s = fields_loop (rune_chunks s) []"

datatype id_spec = SingleID int | IDRange int int

definition parse_id_spec :: "string \<Rightarrow> id_spec outcome" where
  "parse_id_spec s =
     (case index_byte s CHR ''-'' of
        None \<Rightarrow> outcome_bind (of_result (atoi_result s)) (\<lambda>i. Returns (SingleID i))
      | Some idx \<Rightarrow>
          if idx = 0 then Fails (Error ''invalid negative id'')
          else outcome_bind (of_result (atoi_result (take idx s))) (\<lambda>start.
            outcome_bind (of_result (atoi_result (drop (Suc idx) s))) (\<lambda>stop.
              if stop < start then Fails (Error ''invalid range'') else Returns (IDRange start stop))))"

fun remove_by_ids :: "string list \<Rightarrow> rule list \<Rightarrow> rule list outcome" where
  "remove_by_ids [] rules = Returns rules"
| "remove_by_ids (s # ss) rules =
     outcome_bind (parse_id_spec s) (\<lambda>spec.
       remove_by_ids ss (case spec of SingleID i \<Rightarrow> DeleteByID rules i | IDRange a b \<Rightarrow> DeleteByRange rules a b))"

definition directiveSecRuleRemoveByID :: directive where
  "directiveSecRuleRemoveByID env o1 =
     need_opts o1 (outcome_bind (remove_by_ids (fields_of (do_Opts o1)) (waf_Rules (do_WAF o1))) (\<lambda>rules. on_rules (\<lambda>_. rules) o1))"

section \<open>Updates of rules\<close>

fun update_first :: "(rule \<Rightarrow> bool) \<Rightarrow> (rule_params \<Rightarrow> rule_params) \<Rightarrow> rule list \<Rightarrow> rule list" where
  "update_first P f [] = []"
| "update_first P f (rl # rls) = (if P rl then Rule (f (rule_of rl)) (chain_of rl) # rls else rl # update_first P f rls)"

definition unquoted :: "string \<Rightarrow> string" where
  "unquoted s = trim_set [CHR 34] s"

definition updateTargetBySingleID :: "seclang_env \<Rightarrow> int \<Rightarrow> string \<Rightarrow> rule list \<Rightarrow> rule list outcome" where
  "updateTargetBySingleID env i vars rules =
     (case FindByID rules i of
        None \<Rightarrow> Fails (Error ''SecRuleUpdateTargetById: rule not found'')
      | Some rl \<Rightarrow>
          outcome_bind (of_result (ParseVariables (se_parse env) (unquoted vars) (rule_of rl))) (\<lambda>r.
            Returns (update_first (\<lambda>x. r_ID (rule_of x) = i) (\<lambda>_. r) rules)))"

text \<open>
  The updates of a range and of a tag work on a copy of the rule, which shares the array of the
  variables with the rule. An exception is written into the array; a variable is appended to the
  copy, and once that needs a new array the rule does not see anything any more.
\<close>

fun shared_var_ops :: "parse_env \<Rightarrow> var_op list \<Rightarrow> nat \<Rightarrow> bool \<Rightarrow> rule_params \<Rightarrow> rule_params \<Rightarrow> rule_params result" where
  "shared_var_ops env [] spare shared r copy = Inr r"
| "shared_var_ops env (op # ops) spare shared r copy =
     result_bind (apply_var_op env op copy) (\<lambda>copy'.
       case op of
         VarAdd _ _ _ \<Rightarrow> shared_var_ops env ops (spare - 1) (shared \<and> 0 < spare) r copy'
       | VarNegate _ _ \<Rightarrow> shared_var_ops env ops spare shared
           (if shared then r\<lparr>r_variables := take (length (r_variables r)) (r_variables copy')\<rparr> else r) copy')"

definition update_copy :: "seclang_env \<Rightarrow> string \<Rightarrow> rule_params \<Rightarrow> rule_params outcome" where
  "update_copy env vars r =
     (case scan_variables (se_ct env) (unquoted vars) var_start of (ops, err) \<Rightarrow>
        outcome_bind (of_result (shared_var_ops (se_parse env) ops (se_spare env r) True r r)) (\<lambda>r'.
          case err of None \<Rightarrow> Returns r' | Some e \<Rightarrow> Fails e))"

fun update_where :: "(rule_params \<Rightarrow> bool) \<Rightarrow> (rule_params \<Rightarrow> rule_params outcome) \<Rightarrow> rule list \<Rightarrow> rule list outcome" where
  "update_where P f [] = Returns []"
| "update_where P f (rl # rls) =
     (if P (rule_of rl) then
        outcome_bind (f (rule_of rl)) (\<lambda>r. outcome_bind (update_where P f rls) (\<lambda>rs. Returns (Rule r (chain_of rl) # rs)))
      else outcome_bind (update_where P f rls) (\<lambda>rs. Returns (rl # rs)))"

text \<open>A single identifier ends the loop: the rest of the list is not looked at.\<close>

fun update_targets :: "seclang_env \<Rightarrow> string \<Rightarrow> string list \<Rightarrow> rule list \<Rightarrow> rule list outcome" where
  "update_targets env vars [] rules = Returns rules"
| "update_targets env vars (s # ss) rules =
     outcome_bind (parse_id_spec s) (\<lambda>spec.
       case spec of
         SingleID i \<Rightarrow> updateTargetBySingleID env i vars rules
       | IDRange a b \<Rightarrow>
           if a = b then updateTargetBySingleID env a vars rules
           else outcome_bind (update_where (\<lambda>r. a \<le> r_ID r \<and> r_ID r \<le> b) (update_copy env vars) rules) (\<lambda>rules'.
             update_targets env vars ss rules'))"

definition directiveSecRuleUpdateTargetByID :: directive where
  "directiveSecRuleUpdateTargetByID env o1 =
     need_opts o1
       (let fs = fields_of (do_Opts o1)
        in if length fs < 2 then Fails (Error ''syntax error: SecRuleUpdateTargetById id'')
           else outcome_bind (update_targets env (last fs) (butlast fs) (waf_Rules (do_WAF o1))) (\<lambda>rules. on_rules (\<lambda>_. rules) o1))"

definition directiveSecRuleUpdateTargetByTag :: directive where
  "directiveSecRuleUpdateTargetByTag env o1 =
     (case fields_of (do_Opts o1) of
        [tag, vars] \<Rightarrow>
          outcome_bind (update_where (\<lambda>r. InSlice (unquoted tag) (rm_Tags (r_metadata r))) (update_copy env vars) (waf_Rules (do_WAF o1)))
            (\<lambda>rules. on_rules (\<lambda>_. rules) o1)
      | _ \<Rightarrow> Fails (Error ''syntax error: SecRuleUpdateTargetByTag tag''))"

definition no_config :: ParserConfig where
  "no_config = \<lparr>pc_DisabledRuleActions = [], pc_DisabledRuleOperators = [], pc_RuleDefaultActions = [],
     pc_HasRuleDefaultActions = False, pc_IgnoreRuleCompilationErrors = False, pc_LastLine = 0, pc_ConfigFile = [],
     pc_ConfigDir = [], pc_WorkingDir = []\<rparr>"

text \<open>New actions on a rule: a disruptive one takes the place of the disruptive actions it has.\<close>

definition update_actions :: "parse_env \<Rightarrow> ruleAction list \<Rightarrow> rule_params \<Rightarrow> id_table \<Rightarrow> rule_params outcome \<times> id_table" where
  "update_actions env parsed r tbl =
     applyParsedActions env no_config [] parsed (if hasDisruptiveActions parsed then ClearDisruptiveActions r else r) tbl"

definition updateActionBySingleID :: "seclang_env \<Rightarrow> int \<Rightarrow> string \<Rightarrow> rule list \<Rightarrow> id_table \<Rightarrow> (rule list \<times> id_table) outcome" where
  "updateActionBySingleID env i actions rules tbl =
     (case FindByID rules i of
        None \<Rightarrow> Fails (Error ''SecRuleUpdateActionById: rule not found'')
      | Some rl \<Rightarrow>
          outcome_bind (of_result (parseActions (se_ct env) (unquoted actions))) (\<lambda>parsed.
            case update_actions (se_parse env) parsed (rule_of rl) tbl of (res, tbl') \<Rightarrow>
              outcome_bind res (\<lambda>r. Returns (update_first (\<lambda>x. r_ID (rule_of x) = i) (\<lambda>_. r) rules, tbl'))))"

fun update_actions_where ::
  "(rule_params \<Rightarrow> bool) \<Rightarrow> parse_env \<Rightarrow> ruleAction list \<Rightarrow> rule list \<Rightarrow> id_table \<Rightarrow> (rule list \<times> id_table) outcome" where
  "update_actions_where P env parsed [] tbl = Returns ([], tbl)"
| "update_actions_where P env parsed (rl # rls) tbl =
     (if P (rule_of rl) then
        (case update_actions env parsed (rule_of rl) tbl of (res, tbl1) \<Rightarrow>
           outcome_bind res (\<lambda>r.
             outcome_bind (update_actions_where P env parsed rls tbl1) (\<lambda>(rs, tbl2). Returns (Rule r (chain_of rl) # rs, tbl2))))
      else outcome_bind (update_actions_where P env parsed rls tbl) (\<lambda>(rs, tbl2). Returns (rl # rs, tbl2)))"

fun update_rule_actions :: "seclang_env \<Rightarrow> string \<Rightarrow> string list \<Rightarrow> rule list \<Rightarrow> id_table \<Rightarrow> (rule list \<times> id_table) outcome" where
  "update_rule_actions env actions [] rules tbl = Returns (rules, tbl)"
| "update_rule_actions env actions (s # ss) rules tbl =
     outcome_bind (parse_id_spec s) (\<lambda>spec.
       case spec of
         SingleID i \<Rightarrow> updateActionBySingleID env i actions rules tbl
       | IDRange a b \<Rightarrow>
           if a = b then updateActionBySingleID env a actions rules tbl
           else outcome_bind (of_result (parseActions (se_ct env) (unquoted actions))) (\<lambda>parsed.
             outcome_bind (update_actions_where (\<lambda>r. a \<le> r_ID r \<and> r_ID r \<le> b) (se_parse env) parsed rules tbl) (\<lambda>(rules', tbl').
               update_rule_actions env actions ss rules' tbl')))"

definition directiveSecRuleUpdateActionByID :: directive where
  "directiveSecRuleUpdateActionByID env o1 =
     need_opts o1
       (let fs = fields_of (do_Opts o1)
        in if length fs < 2 then Fails (Error ''syntax error: SecRuleUpdateActionById id'')
           else outcome_bind (update_rule_actions env (last fs) (butlast fs) (waf_Rules (do_WAF o1)) (do_table o1)) (\<lambda>(rules, tbl).
             Returns (o1\<lparr>do_WAF := (do_WAF o1)\<lparr>waf_Rules := rules\<rparr>, do_table := tbl\<rparr>)))"

section \<open>The directives by name\<close>

definition inert_directives :: "string list" where
  "inert_directives =
     [''secconnwritestatelimit'', ''secconnreadstatelimit'', ''secpcrematchlimitrecursion'', ''secpcrematchlimit'', ''sechttpblkey'',
      ''secgsblookupdb'', ''sechashmethodpm'', ''sechashmethodrx'', ''sechashparam'', ''sechashkey'', ''sechashengine'',
      ''secconnengine'', ''seccollectiontimeout'', ''secargumentseparator'', ''seccookieformat'', ''secruleupdatetargetbymsg'',
      ''secrulescript'', ''secruleperftime'', ''secunicodemap'', ''sectmpdir'']"

definition directivesMap :: "(string \<times> directive) list" where
  "directivesMap =
     [(''seccomponentsignature'', directiveSecComponentSignature), (''secmarker'', directiveSecMarker),
      (''secaction'', directiveSecAction), (''secrule'', directiveSecRule),
      (''secresponsebodyaccess'', directiveSecResponseBodyAccess), (''secrequestbodylimit'', directiveSecRequestBodyLimit),
      (''secrequestbodyaccess'', directiveSecRequestBodyAccess),
      (''secrequestbodyjsondepthlimit'', directiveSecRequestBodyJsonDepthLimit), (''secruleengine'', directiveSecRuleEngine),
      (''secwebappid'', directiveSecWebAppID), (''secserversignature'', directiveSecServerSignature),
      (''secruleremovebytag'', directiveSecRuleRemoveByTag), (''secruleremovebymsg'', directiveSecRuleRemoveByMsg),
      (''secruleremovebyid'', directiveSecRuleRemoveByID),
      (''secresponsebodymimetypesclear'', directiveSecResponseBodyMimeTypesClear),
      (''secresponsebodymimetype'', directiveSecResponseBodyMimeType),
      (''secresponsebodylimitaction'', directiveSecResponseBodyLimitAction),
      (''secresponsebodylimit'', directiveSecResponseBodyLimit),
      (''secrequestbodylimitaction'', directiveSecRequestBodyLimitAction),
      (''secrequestbodyinmemorylimit'', directiveSecRequestBodyInMemoryLimit),
      (''secremoterulesfailaction'', directiveSecRemoteRulesFailAction), (''secremoterules'', directiveSecRemoteRules),
      (''secsensorid'', directiveSecSensorID), (''secdefaultaction'', directiveSecDefaultAction),
      (''secauditlog'', directiveSecAuditLog), (''secauditlogtype'', directiveSecAuditLogType),
      (''secauditlogformat'', directiveSecAuditLogFormat), (''secauditlogstoragedir'', directiveSecAuditLogStorageDir),
      (''secauditlogdirmode'', directiveSecAuditLogDirMode), (''secauditlogfilemode'', directiveSecAuditLogFileMode),
      (''secauditlogrelevantstatus'', directiveSecAuditLogRelevantStatus), (''secauditlogparts'', directiveSecAuditLogParts),
      (''secauditengine'', directiveSecAuditEngine), (''secdatadir'', directiveSecDataDir),
      (''secuploadkeepfiles'', directiveSecUploadKeepFiles), (''secuploadfilemode'', directiveSecUploadFileMode),
      (''secuploadfilelimit'', directiveSecUploadFileLimit), (''secuploaddir'', directiveSecUploadDir),
      (''secrequestbodynofileslimit'', directiveSecRequestBodyNoFilesLimit), (''secdebuglog'', directiveSecDebugLog),
      (''secdebugloglevel'', directiveSecDebugLogLevel), (''secruleupdatetargetbyid'', directiveSecRuleUpdateTargetByID),
      (''secruleupdateactionbyid'', directiveSecRuleUpdateActionByID),
      (''secruleupdatetargetbytag'', directiveSecRuleUpdateTargetByTag),
      (''secignorerulecompilationerrors'', directiveSecIgnoreRuleCompilationErrors), (''secdataset'', directiveSecDataset),
      (''secargumentslimit'', directiveSecArgumentsLimit), (''secrxprefilter'', directiveSecRxPreFilter)] @
     map (\<lambda>name. (name, directiveUnsupported)) inert_directives"

end
