(* ===== verification/Config_Parser.thy ===== *)
theory Config_Parser
  imports Seclang Bufio
begin

text \<open>
  The parser of configuration files (\<open>internal/seclang/parser.go\<close>) and the construction of a WAF from
  a configuration (\<open>waf.go\<close> and \<open>config.go\<close> of the root package). Files and patterns are resolved by
  arguments. An \<open>Include\<close> recurses; the recursion takes fuel, and one more than the number of includes
  a parser allows is enough.
\<close>

section \<open>Slash-separated paths\<close>

text \<open>\<open>path.Clean\<close>: \<open>.\<close> and empty elements vanish, \<open>..\<close> takes back the element before it.\<close>

fun clean_elements :: "bool \<Rightarrow> string list \<Rightarrow> string list \<Rightarrow> string list" where
  "clean_elements rooted [] out = rev out"
| "clean_elements rooted (e # es) out =
     (if e = [] \<or> e = ''.'' then clean_elements rooted es out
      else if e = ''..'' then
        (if out \<noteq> [] \<and> hd out \<noteq> ''..'' then clean_elements rooted es (tl out)
         else if rooted then clean_elements rooted es out
         else clean_elements rooted es (e # out))
      else clean_elements rooted es (e # out))"

definition path_IsAbs :: "string \<Rightarrow> bool" where
  "path_IsAbs p = has_prefix p ''/''"

definition path_Clean :: "string \<Rightarrow> string" where
  "path_Clean p =
     (let body = join_str ''/'' (clean_elements (path_IsAbs p) (split_byte p CHR ''/'') [])
      in if path_IsAbs p then ''/'' @ body else if body = [] then ''.'' else body)"

definition path_Join :: "string \<Rightarrow> string \<Rightarrow> string" where
  "path_Join a b =
     (if a = [] \<and> b = [] then [] else path_Clean (if a = [] then b else if b = [] then a else a @ ''/'' @ b))"

definition path_Dir :: "string \<Rightarrow> string" where
  "path_Dir p =
     path_Clean (case last_index_byte p CHR ''/'' of Some i \<Rightarrow> take (Suc i) p | None \<Rightarrow> [])"

section \<open>The parser\<close>

record config_env = seclang_env +
  ce_Glob :: "string \<Rightarrow> string list result"
  ce_ReadFile :: "string \<Rightarrow> string result"

abbreviation ce_seclang :: "config_env \<Rightarrow> seclang_env" where
  "ce_seclang env \<equiv> seclang_env.truncate env"

record Parser =
  p_options :: DirectiveOptions
  p_currentLine :: int
  p_currentFile :: string
  p_currentDir :: string
  p_includeCount :: nat

definition maxIncludeRecursion :: nat where "maxIncludeRecursion = 100"

text \<open>Running out of fuel is an outcome of its own.\<close>

datatype 'a run = Done "'a outcome" | OutOfFuel

fun run_bind :: "'a run \<Rightarrow> ('a \<Rightarrow> 'b run) \<Rightarrow> 'b run" where
  "run_bind (Done (Returns x)) f = f x"
| "run_bind (Done (Fails e)) f = Done (Fails e)"
| "run_bind (Done Panics) f = Done Panics"
| "run_bind OutOfFuel f = OutOfFuel"

definition set_position :: "config_env \<Rightarrow> string \<Rightarrow> string \<Rightarrow> Parser \<Rightarrow> DirectiveOptions outcome" where
  "set_position env l opts p =
     outcome_bind (if se_HasAccessToFS env then of_result (se_Getwd env) else Returns (pc_WorkingDir (do_Parser (p_options p)))) (\<lambda>wd.
       Returns ((p_options p)\<lparr>do_Raw := l, do_Opts := opts,
         do_Parser := (do_Parser (p_options p))\<lparr>pc_LastLine := p_currentLine p, pc_ConfigFile := p_currentFile p,
           pc_ConfigDir := p_currentDir p, pc_WorkingDir := wd\<rparr>\<rparr>))"

text \<open>A line is a directive and its options; \<open>include\<close> calls \<open>FromFile\<close>, here the argument.\<close>

definition evaluateLine :: "(Parser \<Rightarrow> string \<Rightarrow> Parser run) \<Rightarrow> config_env \<Rightarrow> Parser \<Rightarrow> string \<Rightarrow> Parser run" where
  "evaluateLine FromFile env p l =
     (if l = [] \<or> hd l = CHR ''#'' then Done (Fails (Error ''invalid line''))
      else case cut l CHR '' '' of (dir, opts0, _) \<Rightarrow>
        let name = to_lower (pe_ct env) dir;
            opts = (if 3 \<le> length opts0 \<and> hd opts0 = CHR 34 \<and> last opts0 = CHR 34 then trim_set [CHR 34] opts0 else opts0)
        in if name = ''include'' then
             (if maxIncludeRecursion \<le> p_includeCount p then Done (Fails (Error ''cannot include more than 100 files''))
              else FromFile (p\<lparr>p_includeCount := Suc (p_includeCount p)\<rparr>) opts)
           else case alist_get directivesMap name of
             None \<Rightarrow> Done (Fails (Error ''unknown directive''))
           | Some d \<Rightarrow>
               Done (outcome_bind (set_position env l opts p) (\<lambda>o1.
                 outcome_bind (d (ce_seclang env) o1) (\<lambda>o2. Returns (p\<lparr>p_options := o2\<rparr>)))))"

text \<open>
  The lines of a text, after the scanner. Comments and blank lines are skipped, a backslash at the
  end joins a line with the next one, and a backtick at the end collects lines until one begins with
  a backtick.
\<close>

fun parse_lines :: "(Parser \<Rightarrow> string \<Rightarrow> Parser run) \<Rightarrow> config_env \<Rightarrow> Parser \<Rightarrow> string list \<Rightarrow> string \<Rightarrow> bool \<Rightarrow> Parser run" where
  "parse_lines FromFile env p [] buf inBackticks =
     Done (if inBackticks then Fails (Error ''backticks left open'') else Returns p)"
| "parse_lines FromFile env p (l # ls) buf inBackticks =
     (let line = trim_space l; p1 = p\<lparr>p_currentLine := p_currentLine p + 1\<rparr>
      in if line = [] \<or> hd line = CHR ''#'' then parse_lines FromFile env p1 ls buf inBackticks
         else
           let inB = (if \<not> inBackticks \<and> last line = CHR 96 then True
                      else if inBackticks \<and> hd line = CHR 96 then False else inBackticks)
           in if inB then parse_lines FromFile env p1 ls (buf @ line @ [CHR 10]) inB
              else if last line = CHR 92 then parse_lines FromFile env p1 ls (buf @ butlast line) inB
              else run_bind (evaluateLine FromFile env p1 (buf @ line)) (\<lambda>p2. parse_lines FromFile env p2 ls [] inB))"

definition parseString :: "(Parser \<Rightarrow> string \<Rightarrow> Parser run) \<Rightarrow> config_env \<Rightarrow> Parser \<Rightarrow> string \<Rightarrow> Parser run" where
  "parseString FromFile env p data = parse_lines FromFile env p (fst (scan_lines data)) [] False"

fun parse_files :: "(Parser \<Rightarrow> string \<Rightarrow> Parser run) \<Rightarrow> config_env \<Rightarrow> bool \<Rightarrow> Parser \<Rightarrow> string list \<Rightarrow> Parser run" where
  "parse_files parse env isGlob p [] = Done (Returns p)"
| "parse_files parse env isGlob p (f # fs) =
     (let f1 = trim_space f; f2 = (if \<not> isGlob \<and> \<not> path_IsAbs f1 then path_Join (p_currentDir p) f1 else f1)
      in case ce_ReadFile env f2 of
           Inl e \<Rightarrow> Done (Fails e)
         | Inr data \<Rightarrow>
             run_bind (parse (p\<lparr>p_currentFile := f2, p_currentDir := path_Dir f2\<rparr>) data) (\<lambda>p1.
               parse_files parse env isGlob (p1\<lparr>p_currentDir := p_currentDir p\<rparr>) fs))"

primrec FromFile :: "nat \<Rightarrow> config_env \<Rightarrow> Parser \<Rightarrow> string \<Rightarrow> Parser run" where
  "FromFile 0 env p profilePath = OutOfFuel"
| "FromFile (Suc n) env p profilePath =
     (let isGlob = (CHR ''*'' \<in> set profilePath)
      in case (if isGlob then ce_Glob env profilePath else Inr [profilePath]) of
           Inl e \<Rightarrow> Done (Fails e)
         | Inr files \<Rightarrow>
             run_bind (parse_files (parseString (FromFile n env) env) env isGlob p files) (\<lambda>p1.
               Done (Returns (p1\<lparr>p_currentDir := p_currentDir p, p_currentFile := []\<rparr>))))"

text \<open>Fuel for a parser: every include uses one of those the parser still allows.\<close>

definition enough_fuel :: nat where
  "enough_fuel = Suc maxIncludeRecursion"

definition FromString :: "config_env \<Rightarrow> Parser \<Rightarrow> string \<Rightarrow> Parser run" where
  "FromString env p data =
     run_bind (parseString (FromFile enough_fuel env) env (p\<lparr>p_currentFile := ''_inline_''\<rparr>) data) (\<lambda>p1.
       Done (Returns (p1\<lparr>p_currentFile := p_currentFile p\<rparr>)))"

definition NewParser :: "waf \<Rightarrow> id_table \<Rightarrow> Parser" where
  "NewParser w tbl =
     \<lparr>p_options = \<lparr>do_WAF = w, do_Raw = [], do_Opts = [], do_Datasets = [], do_Parser = no_config, do_table = tbl\<rparr>,
      p_currentLine = 0, p_currentFile = [], p_currentDir = [], p_includeCount = 0\<rparr>"

section \<open>Building a WAF\<close>

datatype waf_rule = GivenRule rule | GivenString string | GivenFile string

record auditLogConfig =
  ac_relevantOnly :: bool
  ac_parts :: audit_log_parts
  ac_writer :: "string option"

record wafConfig =
  wc_rules :: "waf_rule list"
  wc_auditLog :: "auditLogConfig option"
  wc_requestBodyAccess :: bool
  wc_requestBodyLimit :: "int option"
  wc_requestBodyInMemoryLimit :: "int option"
  wc_responseBodyAccess :: bool
  wc_responseBodyLimit :: "int option"
  wc_responseBodyMimeTypes :: "string list option"
  wc_errorCallback :: bool

definition NewWAFConfig :: wafConfig where
  "NewWAFConfig = \<lparr>wc_rules = [], wc_auditLog = None, wc_requestBodyAccess = False, wc_requestBodyLimit = None,
     wc_requestBodyInMemoryLimit = None, wc_responseBodyAccess = False, wc_responseBodyLimit = None,
     wc_responseBodyMimeTypes = None, wc_errorCallback = False\<rparr>"

text \<open>The configuration is immutable: every \<open>With\<close> function returns a changed copy.\<close>

definition WithRules :: "rule list \<Rightarrow> wafConfig \<Rightarrow> wafConfig" where
  "WithRules rules c = (if rules = [] then c else c\<lparr>wc_rules := wc_rules c @ map GivenRule rules\<rparr>)"

definition WithDirectivesFromFile :: "string \<Rightarrow> wafConfig \<Rightarrow> wafConfig" where
  "WithDirectivesFromFile path c = c\<lparr>wc_rules := wc_rules c @ [GivenFile path]\<rparr>"

definition WithDirectives :: "string \<Rightarrow> wafConfig \<Rightarrow> wafConfig" where
  "WithDirectives directives c = c\<lparr>wc_rules := wc_rules c @ [GivenString directives]\<rparr>"

definition WithRequestBodyAccess :: "wafConfig \<Rightarrow> wafConfig" where
  "WithRequestBodyAccess c = c\<lparr>wc_requestBodyAccess := True\<rparr>"

definition WithResponseBodyAccess :: "wafConfig \<Rightarrow> wafConfig" where
  "WithResponseBodyAccess c = c\<lparr>wc_responseBodyAccess := True\<rparr>"

definition WithRequestBodyLimit :: "int \<Rightarrow> wafConfig \<Rightarrow> wafConfig" where
  "WithRequestBodyLimit limit c = c\<lparr>wc_requestBodyLimit := Some limit\<rparr>"

definition WithRequestBodyInMemoryLimit :: "int \<Rightarrow> wafConfig \<Rightarrow> wafConfig" where
  "WithRequestBodyInMemoryLimit limit c = c\<lparr>wc_requestBodyInMemoryLimit := Some limit\<rparr>"

definition WithResponseBodyLimit :: "int \<Rightarrow> wafConfig \<Rightarrow> wafConfig" where
  "WithResponseBodyLimit limit c = c\<lparr>wc_responseBodyLimit := Some limit\<rparr>"

definition WithResponseBodyMimeTypes :: "string list option \<Rightarrow> wafConfig \<Rightarrow> wafConfig" where
  "WithResponseBodyMimeTypes mimeTypes c = c\<lparr>wc_responseBodyMimeTypes := mimeTypes\<rparr>"

definition LogRelevantOnly :: "auditLogConfig \<Rightarrow> auditLogConfig" where
  "LogRelevantOnly c = c\<lparr>ac_relevantOnly := True\<rparr>"

definition WithParts :: "audit_log_parts \<Rightarrow> auditLogConfig \<Rightarrow> auditLogConfig" where
  "WithParts parts c = c\<lparr>ac_parts := parts\<rparr>"

fun load_rules :: "config_env \<Rightarrow> waf_rule list \<Rightarrow> Parser \<Rightarrow> Parser run" where
  "load_rules env [] p = Done (Returns p)"
| "load_rules env (r # rs) p =
     run_bind
       (case r of
          GivenRule rl \<Rightarrow>
            Done (outcome_bind (of_result (RuleGroup_Add (waf_Rules (do_WAF (p_options p))) (Some rl))) (\<lambda>rules.
              outcome_bind (on_rules (\<lambda>_. rules) (p_options p)) (\<lambda>o1. Returns (p\<lparr>p_options := o1\<rparr>))))
        | GivenString s \<Rightarrow> if s = [] then Done (Returns p) else FromString env p s
        | GivenFile f \<Rightarrow> if f = [] then Done (Returns p) else FromFile enough_fuel env p f)
       (\<lambda>p1. load_rules env rs p1)"

definition populateAuditLog :: "wafConfig \<Rightarrow> waf \<Rightarrow> waf" where
  "populateAuditLog c w =
     (case wc_auditLog c of
        None \<Rightarrow> w
      | Some a \<Rightarrow>
          let w1 = w\<lparr>waf_AuditEngine := (if ac_relevantOnly a then AuditEngineRelevantOnly else AuditEngineOn)\<rparr>;
              w2 = (if ac_parts a \<noteq> [] then w1\<lparr>waf_AuditLogParts := ac_parts a\<rparr> else w1)
          in case ac_writer a of None \<Rightarrow> w2 | Some wr \<Rightarrow> SetAuditLogWriter wr w2)"

definition apply_settings :: "wafConfig \<Rightarrow> waf \<Rightarrow> waf" where
  "apply_settings c w =
     (let w = (if wc_requestBodyAccess c then w\<lparr>waf_RequestBodyAccess := True\<rparr> else w);
          w = (case wc_requestBodyLimit c of Some l \<Rightarrow> w\<lparr>waf_RequestBodyLimit := l\<rparr> | None \<Rightarrow> w);
          w = (case wc_requestBodyInMemoryLimit c of Some l \<Rightarrow> SetRequestBodyInMemoryLimit l w | None \<Rightarrow> w);
          w = (if wc_responseBodyAccess c then w\<lparr>waf_ResponseBodyAccess := True\<rparr> else w);
          w = (case wc_responseBodyLimit c of Some l \<Rightarrow> w\<lparr>waf_ResponseBodyLimit := l\<rparr> | None \<Rightarrow> w);
          w = (case wc_responseBodyMimeTypes c of Some ts \<Rightarrow> w\<lparr>waf_ResponseBodyMimeTypes := ts\<rparr> | None \<Rightarrow> w)
      in if wc_errorCallback c then w\<lparr>waf_ErrorLogCb := True\<rparr> else w)"

text \<open>In detection-only mode a body that reaches its limit is processed in part.\<close>

definition soften_limits :: "waf \<Rightarrow> waf" where
  "soften_limits w =
     (if waf_RuleEngine w = RuleEngineDetectionOnly then
        w\<lparr>waf_RequestBodyLimitAction := BodyLimitActionProcessPartial, waf_ResponseBodyLimitAction := BodyLimitActionProcessPartial\<rparr>
      else w)"

definition coraza_NewWAF ::
  "config_env \<Rightarrow> (string \<Rightarrow> audit_log_config \<Rightarrow> error option) \<Rightarrow> string \<Rightarrow> id_table \<Rightarrow> wafConfig \<Rightarrow> waf run" where
  "coraza_NewWAF env init_writer tempDir tbl c =
     (let fs = se_HasAccessToFS env; w0 = NewWAF fs tempDir
      in case (if fs then se_IsDirWritable env (waf_TmpDir w0) else None) of
           Some e \<Rightarrow> Done (Fails e)
         | None \<Rightarrow>
             run_bind (load_rules env (wc_rules c) (NewParser w0 tbl)) (\<lambda>p.
               Done (outcome_bind (of_result (InitAuditLogWriter init_writer (populateAuditLog c (do_WAF (p_options p))))) (\<lambda>w1.
                 let w2 = soften_limits (apply_settings c w1)
                 in case Validate fs w2 of Some e \<Rightarrow> Fails e | None \<Rightarrow> Returns w2))))"

end
