(* ===== verification/Config_Properties.thy ===== *)
theory Config_Properties
  imports Config_Parser Lifecycle_Properties
begin

text \<open>
  What the parser of the configuration guarantees: it always ends, rules have one disruptive action,
  identifiers stay distinct, and a WAF that was built is valid, so that the properties of its
  transactions apply.
\<close>

section \<open>Includes\<close>

text \<open>
  A reader of files is bounded when, on a parser that has used enough of its includes, it comes to an
  end, and never gives includes back.
\<close>

definition includes_used :: "nat \<Rightarrow> Parser \<Rightarrow> bool" where
  "includes_used k p = (k \<le> p_includeCount p \<and> p_includeCount p \<le> maxIncludeRecursion)"

definition bounded_run :: "nat \<Rightarrow> Parser run \<Rightarrow> bool" where
  "bounded_run k res = (res \<noteq> OutOfFuel \<and> (\<forall>p'. res = Done (Returns p') \<longrightarrow> includes_used k p'))"

definition bounded_reader :: "nat \<Rightarrow> (Parser \<Rightarrow> string \<Rightarrow> Parser run) \<Rightarrow> bool" where
  "bounded_reader k rd = (\<forall>p f. includes_used k p \<longrightarrow> bounded_run k (rd p f))"

lemma bounded_readerD: "bounded_reader k rd \<Longrightarrow> includes_used k p \<Longrightarrow> bounded_run k (rd p f)"
  by (simp add: bounded_reader_def)

lemma includes_used_simps [simp]:
  "includes_used k (p\<lparr>p_currentLine := l\<rparr>) = includes_used k p"
  "includes_used k (p\<lparr>p_currentFile := f\<rparr>) = includes_used k p"
  "includes_used k (p\<lparr>p_currentDir := d\<rparr>) = includes_used k p"
  "includes_used k (p\<lparr>p_options := op\<rparr>) = includes_used k p"
  by (simp_all add: includes_used_def)

lemma bounded_run_Fails [simp]: "bounded_run k (Done (Fails e))" "bounded_run k (Done Panics)" "\<not> bounded_run k OutOfFuel"
  "bounded_run k (Done (Returns p)) = includes_used k p"
  by (auto simp: bounded_run_def)

lemma bounded_run_bind:
  "bounded_run k x \<Longrightarrow> (\<And>p. includes_used k p \<Longrightarrow> bounded_run k (f p)) \<Longrightarrow> bounded_run k (run_bind x f)"
  by (cases "(x, f)" rule: run_bind.cases) (auto simp: bounded_run_def)

lemma bounded_run_mono: "bounded_run k x \<Longrightarrow> j \<le> k \<Longrightarrow> bounded_run j x"
  by (auto simp: bounded_run_def includes_used_def)

lemma run_bind_OutOfFuel: "run_bind x f = OutOfFuel \<longleftrightarrow> x = OutOfFuel \<or> (\<exists>y. x = Done (Returns y) \<and> f y = OutOfFuel)"
  by (cases "(x, f)" rule: run_bind.cases) auto

lemma run_bind_Returns: "run_bind x f = Done (Returns z) \<longleftrightarrow> (\<exists>y. x = Done (Returns y) \<and> f y = Done (Returns z))"
  by (cases "(x, f)" rule: run_bind.cases) auto

lemma outcome_bind_Returns: "outcome_bind x f = Returns z \<longleftrightarrow> (\<exists>y. x = Returns y \<and> f y = Returns z)"
  by (cases x) auto

lemma of_result_Returns: "of_result x = Returns y \<longleftrightarrow> x = Inr y"
  by (cases x) auto

lemmas outcome_simps = outcome_bind_Returns of_result_Returns

lemma evaluateLine_bounded:
  assumes "bounded_reader (Suc k) rd" "includes_used k p"
  shows "bounded_run k (evaluateLine rd env p l)"
proof -
  let ?p = "p\<lparr>p_includeCount := Suc (p_includeCount p)\<rparr>"
  have "bounded_run k (rd ?p f)" if "\<not> maxIncludeRecursion \<le> p_includeCount p" for f
    using bounded_run_mono [OF bounded_readerD [OF assms(1)], of ?p k f] that assms(2) by (simp add: includes_used_def)
  moreover have "bounded_run k (Done (outcome_bind x (\<lambda>o1. outcome_bind (d o1) (\<lambda>o2. Returns (p\<lparr>p_options := o2\<rparr>)))))" for x d
    using assms(2) by (auto simp: bounded_run_def outcome_simps)
  ultimately show ?thesis
    by (auto simp: evaluateLine_def Let_def split: prod.splits option.splits)
qed

lemma parse_lines_bounded:
  assumes "bounded_reader (Suc k) rd" "includes_used k p"
  shows "bounded_run k (parse_lines rd env p ls buf b)"
  using assms(2)
proof (induction ls arbitrary: p buf b)
  case (Cons l ls)
  then show ?case
    using evaluateLine_bounded [OF assms(1)] by (auto simp: Let_def intro!: bounded_run_bind)
qed simp

lemma parseString_bounded: "bounded_reader (Suc k) rd \<Longrightarrow> bounded_reader k (parseString rd env)"
  using parse_lines_bounded by (simp add: bounded_reader_def parseString_def)

lemma parse_files_bounded:
  assumes "bounded_reader k parse" "includes_used k p"
  shows "bounded_run k (parse_files parse env g p fs)"
  using assms(2)
proof (induction fs arbitrary: p)
  case (Cons f fs)
  show ?case
    unfolding parse_files.simps Let_def
  proof (split sum.split, intro conjI allI impI)
    fix data
    show "bounded_run k (run_bind (parse (p\<lparr>p_currentFile := f2, p_currentDir := path_Dir f2\<rparr>) data) (\<lambda>p1. parse_files parse env g (p1\<lparr>p_currentDir := p_currentDir p\<rparr>) fs))" for f2
      by (rule bounded_run_bind [OF bounded_readerD [OF assms(1)]]) (use Cons in simp_all)
  qed simp
qed simp

lemma FromFile_bounded: "Suc maxIncludeRecursion \<le> n + k \<Longrightarrow> bounded_reader k (FromFile n env)"
proof (induction n arbitrary: k)
  case 0
  then show ?case by (auto simp: bounded_reader_def includes_used_def)
next
  case (Suc n)
  have "bounded_reader (Suc k) (FromFile n env)" using Suc by simp
  note b = parse_files_bounded [OF parseString_bounded [OF this]]
  have "bounded_run k (FromFile (Suc n) env p f)" if "includes_used k p" for p f
    using that b [OF that] by (auto simp: Let_def simp del: parse_files.simps split: sum.split intro!: bounded_run_bind)
  then show ?case by (simp add: bounded_reader_def)
qed

lemma enough_fuel_reader: "bounded_reader k (FromFile enough_fuel env)"
  by (rule FromFile_bounded) (simp add: enough_fuel_def)

lemma FromString_bounded: "includes_used 0 p \<Longrightarrow> bounded_run 0 (FromString env p data)"
  unfolding FromString_def
  by (rule bounded_run_bind) (auto intro!: bounded_readerD [OF parseString_bounded [OF enough_fuel_reader]])

lemma load_rules_bounded: "includes_used 0 p \<Longrightarrow> bounded_run 0 (load_rules env rs p)"
proof (induction rs arbitrary: p)
  case (Cons r rs)
  have "bounded_run 0 (Done (outcome_bind x (\<lambda>rules. outcome_bind (f rules) (\<lambda>o1. Returns (p\<lparr>p_options := o1\<rparr>)))))" for x f
    using Cons.prems by (auto simp: bounded_run_def outcome_simps)
  then show ?case
    using Cons FromString_bounded [OF Cons.prems] bounded_readerD [OF enough_fuel_reader Cons.prems]
    by (auto split: waf_rule.split intro!: bounded_run_bind)
qed simp

lemma coraza_NewWAF_ends: "coraza_NewWAF env ini tmp tbl c \<noteq> OutOfFuel"
proof -
  have "includes_used 0 (NewParser w tbl)" for w by (simp add: includes_used_def NewParser_def)
  from load_rules_bounded [OF this] show ?thesis
    by (auto simp: coraza_NewWAF_def Let_def bounded_run_def run_bind_OutOfFuel split: option.splits)
qed

section \<open>Detection only\<close>

definition rules_keep_engine :: "waf \<Rightarrow> bool" where
  "rules_keep_engine w =
     list_all (\<lambda>rl. list_all (\<lambda>r. list_all (\<lambda>a. keeps_engine (snd a)) (r_actions r)) (chain_rules rl)) (waf_Rules w)"

definition partial_limits :: "waf \<Rightarrow> bool" where
  "partial_limits w =
     (waf_RequestBodyLimitAction w = BodyLimitActionProcessPartial \<and> waf_ResponseBodyLimitAction w = BodyLimitActionProcessPartial)"

lemma detects_fills: "fills ct tx tx' \<Longrightarrow> detects tx tx'"
  by (rule detects_vars) (simp add: fills_def vars_only_def)

lemma detects_buffers [simp]:
  "detects tx (t\<lparr>tx_requestBodyBuffer := b\<rparr>) = detects tx t" "detects tx (t\<lparr>tx_responseBodyBuffer := b\<rparr>) = detects tx t"
  "detects (t\<lparr>tx_requestBodyBuffer := b\<rparr>) tx = detects t tx" "detects (t\<lparr>tx_responseBodyBuffer := b\<rparr>) tx = detects t tx"
  "detects tx (set_single v x t) = detects tx t" "detects (set_single v x t) tx = detects t tx"
  by (simp_all add: detects_def set_single_def)

lemma run_phase_detects: "rules_keep_engine w \<Longrightarrow> run_phase env w p tx = Some tx' \<Longrightarrow> detects tx tx'"
  using Eval_detects run_phase_SomeD unfolding rules_keep_engine_def by blast

lemma ProcessRequestBody_detects:
  assumes "env_ok env" "rules_keep_engine w" "ProcessRequestBody env w tx = Some (r, tx')"
  shows "detects tx tx'"
proof -
  obtain rbp tx1 where c: "choose_processor tx = (rbp, tx1)" by fastforce
  then have f: "detects tx tx1" by (auto simp: choose_processor_def Let_def detects_refl split: if_splits)
  have "detects tx (process_request_body env w b m tx1)" for b m
    using f detects_fills [OF fills_process_request_body [OF assms(1)]] by (rule detects_trans)
  with f show ?thesis
    using assms(3) c
    by (auto simp: ProcessRequestBody_def Let_def detects_refl split: if_splits Option.bind_splits
        dest!: run_phase_detects [OF assms(2)] intro: detects_trans)
qed

lemma ProcessResponseBody_detects:
  assumes "env_ok env" "rules_keep_engine w" "ProcessResponseBody env w tx = Some (r, tx')"
  shows "detects tx tx'"
proof -
  obtain err tx1 where c: "process_response_body env (get_single tx V_ResBodyProcessor) tx = (err, tx1)" by fastforce
  then have "detects tx tx1" using detects_fills [OF fills_process_response_body [OF assms(1)]] by (metis snd_conv)
  with c show ?thesis
    using assms(3)
    by (auto simp: ProcessResponseBody_def Let_def detects_refl split: if_splits Option.bind_splits
        dest!: run_phase_detects [OF assms(2)] intro: detects_trans)
qed

lemma write_detects:
  assumes "env_ok env" "rules_keep_engine w" "detects tx tx0"
  shows "write_request env w b n run tx0 = Some (r, tx') \<Longrightarrow> detects tx tx'"
    "write_response env w b n run tx0 = Some (r, tx') \<Longrightarrow> detects tx tx'"
  using assms(3)
  by (auto simp: write_request_def write_response_def Let_def split: if_splits prod.splits option.splits Option.bind_splits
      dest!: ProcessRequestBody_detects [OF assms(1,2)] ProcessResponseBody_detects [OF assms(1,2)] intro: detects_trans)

lemma copy_detects:
  assumes "env_ok env" "rules_keep_engine w" "partial_limits w" "detects tx tx0"
  shows "copy_request env w r n run tx0 = Some (res, tx') \<Longrightarrow> detects tx tx'"
    "copy_response env w r n run tx0 = Some (res, tx') \<Longrightarrow> detects tx tx'"
proof -
  show "copy_request env w r n run tx0 = Some (res, tx') \<Longrightarrow> detects tx tx'"
    using assms(3,4)
    by (auto simp: copy_request_def partial_limits_def Let_def split: if_splits prod.splits Option.bind_splits
        dest!: ProcessRequestBody_detects [OF assms(1,2)] intro: detects_trans)
  show "copy_response env w r n run tx0 = Some (res, tx') \<Longrightarrow> detects tx tx'"
    using assms(3,4)
    by (auto simp: copy_response_def partial_limits_def Let_def split: if_splits prod.splits Option.bind_splits
        dest!: ProcessResponseBody_detects [OF assms(1,2)] intro: detects_trans)
qed

lemma tx_step_detects:
  assumes "env_ok env" "rules_keep_engine w" "partial_limits w" "tx_step env w c tx = Some tx'"
  shows "detects tx tx'"
proof -
  note d = run_phase_detects [OF assms(2)] write_detects [OF assms(1,2)] copy_detects [OF assms(1-3)]
    ProcessRequestBody_detects [OF assms(1,2)] ProcessResponseBody_detects [OF assms(1,2)] detects_fills [of "le_ct env"]
  have "detects tx tx'" if "WriteRequestBody env w b tx = Some (r, tx')" for b r
    using that assms(3) by (auto simp: WriteRequestBody_def Let_def partial_limits_def detects_refl split: if_splits intro: d)
  moreover have "detects tx tx'" if "WriteResponseBody env w b tx = Some (r, tx')" for b r
    using that assms(3) by (auto simp: WriteResponseBody_def Let_def partial_limits_def detects_refl split: if_splits intro: d)
  moreover have "detects tx tx'" if "ReadRequestBodyFrom env w b tx = Some (r, tx')" for b r
    using that assms(3)
    by (auto simp: ReadRequestBodyFrom_def Let_def partial_limits_def detects_refl split: if_splits option.splits intro: d)
  moreover have "detects tx tx'" if "ReadResponseBodyFrom env w b tx = Some (r, tx')" for b r
    using that assms(3)
    by (auto simp: ReadResponseBodyFrom_def Let_def partial_limits_def detects_refl split: if_splits option.splits intro: d)
  moreover have "detects tx tx'" if "ProcessRequestHeaders env w tx = Some (r, tx')" for r
    using that by (auto simp: ProcessRequestHeaders_def detects_refl split: if_splits Option.bind_splits intro: d)
  moreover have "detects tx tx'" if "ProcessResponseHeaders env w code proto tx = Some (r, tx')" for code proto r
    using that by (auto simp: ProcessResponseHeaders_def Let_def detects_refl split: if_splits Option.bind_splits dest!: d(1))
  moreover have "detects tx tx'" if "ProcessLogging env w tx = Some (r, tx')" for r
    using that by (auto simp: ProcessLogging_def detects_refl split: if_splits Option.bind_splits dest!: d(1))
  ultimately show ?thesis using assms(4) by (cases c) (auto intro: d detects_fills [OF fills_arguments(1)])
qed

lemma reachable_detects:
  assumes "reachable env w tx" "env_ok env" "rules_keep_engine w" "partial_limits w" "waf_RuleEngine w = RuleEngineDetectionOnly"
  shows "tx_RuleEngine tx = RuleEngineDetectionOnly \<and> \<not> IsInterrupted tx"
  using assms(1)
proof induction
  case (new_transaction off txid now)
  then show ?case
    unfolding IsInterrupted_def fills_same [OF fills_newTransaction] by (simp add: init_fields_def assms(5))
next
  case (next_call tx c tx')
  then show ?case
    using tx_step_detects [OF assms(2-4) next_call.hyps(3)] by (simp add: detects_def IsInterrupted_def)
qed

lemma coraza_NewWAF_valid:
  assumes "coraza_NewWAF env ini tmp tbl c = Done (Returns w)"
  shows "Validate (se_HasAccessToFS env) w = None" "waf_RuleEngine w = RuleEngineDetectionOnly \<Longrightarrow> partial_limits w"
  using assms
  by (auto simp: coraza_NewWAF_def Let_def run_bind_Returns outcome_simps soften_limits_def partial_limits_def
      split: option.splits if_splits)

end
