(* ===== verification/Seclang_Inv.thy ===== *)
theory Seclang_Inv
  imports Rule_Parser_Inv Config_Properties
begin

text \<open>
  What the directives do to the rules of the firewall. Most directives leave them alone; for the
  others two interfaces carry an invariant of the rules from the operations on the group, to the
  directives, to a whole configuration.
\<close>

section \<open>Directives that leave the rules alone\<close>

definition keeps_rules :: "directive \<Rightarrow> bool" where
  "keeps_rules d = (\<forall>env o1 o2. d env o1 = Returns o2 \<longrightarrow> waf_Rules (do_WAF o2) = waf_Rules (do_WAF o1))"

lemmas directive_forms = need_opts_def on_waf_def on_parser_def outcome_simps

lemma keeps_rules_forms:
  "(\<And>b w. waf_Rules (f b w) = waf_Rules w) \<Longrightarrow> keeps_rules (boolean_directive f)"
  "(\<And>i w. waf_Rules (g i w) = waf_Rules w) \<Longrightarrow> keeps_rules (int64_directive g)"
  "(\<And>i w. waf_Rules (g i w) = waf_Rules w) \<Longrightarrow> keeps_rules (mode_directive g)"
  "(\<And>s w. waf_Rules (h s w) = waf_Rules w) \<Longrightarrow> keeps_rules (text_directive h)"
  by (auto simp: keeps_rules_def boolean_directive_def int64_directive_def mode_directive_def text_directive_def directive_forms
      split: if_splits)

lemma keeps_rules_settings:
  "keeps_rules directiveSecComponentSignature" "keeps_rules directiveSecResponseBodyAccess"
  "keeps_rules directiveSecRequestBodyLimit" "keeps_rules directiveSecRequestBodyAccess"
  "keeps_rules directiveSecRequestBodyJsonDepthLimit" "keeps_rules directiveSecRuleEngine" "keeps_rules directiveUnsupported"
  "keeps_rules directiveSecWebAppID" "keeps_rules directiveSecServerSignature"
  "keeps_rules directiveSecResponseBodyMimeTypesClear" "keeps_rules directiveSecResponseBodyMimeType"
  "keeps_rules directiveSecResponseBodyLimitAction" "keeps_rules directiveSecResponseBodyLimit"
  "keeps_rules directiveSecRequestBodyLimitAction" "keeps_rules directiveSecRequestBodyInMemoryLimit"
  "keeps_rules directiveSecRemoteRulesFailAction" "keeps_rules directiveSecRemoteRules" "keeps_rules directiveSecSensorID"
  "keeps_rules directiveSecDefaultAction"
  unfolding directiveSecResponseBodyAccess_def directiveSecRequestBodyLimit_def directiveSecRequestBodyAccess_def
    directiveSecWebAppID_def directiveSecServerSignature_def directiveSecResponseBodyMimeType_def directiveSecResponseBodyLimit_def
    directiveSecRequestBodyInMemoryLimit_def directiveSecSensorID_def
  by (auto intro!: keeps_rules_forms simp: SetRequestBodyInMemoryLimit_def)
    (auto simp: keeps_rules_def directive_forms directiveSecComponentSignature_def directiveSecRequestBodyJsonDepthLimit_def
      directiveSecRuleEngine_def directiveUnsupported_def directiveSecResponseBodyMimeTypesClear_def
      directiveSecResponseBodyLimitAction_def directiveSecRequestBodyLimitAction_def directiveSecRemoteRulesFailAction_def
      directiveSecRemoteRules_def directiveSecDefaultAction_def Let_def split: if_splits)

lemma keeps_rules_logging:
  "keeps_rules directiveSecAuditLog" "keeps_rules directiveSecAuditLogType" "keeps_rules directiveSecAuditLogFormat"
  "keeps_rules directiveSecAuditLogStorageDir" "keeps_rules directiveSecAuditLogDirMode" "keeps_rules directiveSecAuditLogFileMode"
  "keeps_rules directiveSecAuditLogRelevantStatus" "keeps_rules directiveSecAuditLogParts" "keeps_rules directiveSecAuditEngine"
  "keeps_rules directiveSecDebugLog" "keeps_rules directiveSecDebugLogLevel"
  unfolding directiveSecAuditLog_def directiveSecAuditLogStorageDir_def directiveSecAuditLogDirMode_def directiveSecAuditLogFileMode_def
  by (auto intro!: keeps_rules_forms simp: on_writer_config_def)
    (auto simp: keeps_rules_def directive_forms directiveSecAuditLogType_def directiveSecAuditLogFormat_def on_writer_config_def
      SetAuditLogWriter_def directiveSecAuditLogRelevantStatus_def directiveSecAuditLogParts_def directiveSecAuditEngine_def
      directiveSecDebugLog_def directiveSecDebugLogLevel_def SetDebugLogLevel_def split: if_splits option.splits)

lemma keeps_rules_limits:
  "keeps_rules directiveSecDataDir" "keeps_rules directiveSecUploadKeepFiles" "keeps_rules directiveSecUploadFileMode"
  "keeps_rules directiveSecUploadFileLimit" "keeps_rules directiveSecUploadDir" "keeps_rules directiveSecRequestBodyNoFilesLimit"
  "keeps_rules directiveSecIgnoreRuleCompilationErrors" "keeps_rules directiveSecDataset" "keeps_rules directiveSecArgumentsLimit"
  "keeps_rules directiveSecRxPreFilter"
  unfolding directiveSecDataDir_def directiveSecUploadFileMode_def directiveSecRequestBodyNoFilesLimit_def directiveSecRxPreFilter_def
  by (auto intro!: keeps_rules_forms)
    (auto simp: keeps_rules_def directive_forms directiveSecUploadKeepFiles_def directiveSecUploadFileLimit_def directiveSecUploadDir_def
      directiveSecIgnoreRuleCompilationErrors_def directiveSecDataset_def directiveSecArgumentsLimit_def Let_def
      split: if_splits option.splits prod.splits)

lemmas keeps_rules_directives = keeps_rules_settings keeps_rules_logging keeps_rules_limits

section \<open>Updates of targets\<close>

text \<open>What an update of targets leaves alone.\<close>

definition rule_shape :: "rule \<Rightarrow> (string \<times> action) list \<times> rule_metadata \<times> rule option" where
  "rule_shape rl = (r_actions (rule_of rl), r_metadata (rule_of rl), chain_of rl)"

abbreviation targets :: "rule_params \<Rightarrow> rule_variable list" where
  "targets r \<equiv> map rvp_Variable (r_variables r)"

lemma apply_var_op_targets:
  "apply_var_op env op r = Inr r' \<Longrightarrow>
     (case op of VarAdd _ _ _ \<Rightarrow> prefix (targets r) (targets r') | VarNegate _ _ \<Rightarrow> targets r' = targets r)"
  by (auto simp: apply_var_op_def AddVariable_def AddVariableNegation_def result_bind_Inr Let_def
      split: var_op.splits if_splits)

lemma shared_var_ops_keep:
  "shared_var_ops env ops spare shared r copy = Inr r' \<Longrightarrow> prefix (targets r) (targets copy) \<Longrightarrow>
     r_actions r' = r_actions r \<and> r_metadata r' = r_metadata r \<and> targets r' = targets r"
proof (induction ops arbitrary: spare shared r copy)
  case (Cons op ops)
  then obtain copy' where c: "apply_var_op env op copy = Inr copy'" by (auto simp: result_bind_Inr)
  show ?case
  proof (cases op)
    case (VarAdd v key iscount)
    then show ?thesis
      using Cons.IH [of _ _ r copy'] Cons.prems c apply_var_op_targets [OF c] by (auto simp: result_bind_def dest: prefix_order.trans)
  next
    case (VarNegate v key)
    then have t: "targets copy' = targets copy" using apply_var_op_targets [OF c] by simp
    let ?r = "if shared then r\<lparr>r_variables := take (length (r_variables r)) (r_variables copy')\<rparr> else r"
    have "take (length (targets r)) (targets copy') = targets r" using Cons.prems(2) t by (auto simp: prefix_def)
    then have k: "targets ?r = targets r" by (simp add: take_map)
    have "r_actions r' = r_actions ?r \<and> r_metadata r' = r_metadata ?r \<and> targets r' = targets ?r"
      by (rule Cons.IH [of spare shared ?r copy']) (use Cons.prems c VarNegate t k in \<open>simp_all add: result_bind_def\<close>)
    then show ?thesis using k by simp
  qed
qed simp

lemma update_copy_keeps:
  "update_copy env vars r = Returns r' \<Longrightarrow> r_actions r' = r_actions r \<and> r_metadata r' = r_metadata r \<and> targets r' = targets r"
  by (auto simp: update_copy_def outcome_simps split: prod.splits option.splits dest: shared_var_ops_keep)

lemma update_where_copies:
  "update_where P (update_copy env vars) rules = Returns rules' \<Longrightarrow>
     map rule_shape rules' = map rule_shape rules \<and> map (targets \<circ> rule_of) rules' = map (targets \<circ> rule_of) rules"
  by (induction rules arbitrary: rules') (auto simp: outcome_simps rule_shape_def split: if_splits dest: update_copy_keeps)

lemma update_first_found:
  "find P rules = Some rl \<Longrightarrow> rule_shape (Rule r (chain_of rl)) = rule_shape rl \<Longrightarrow>
     map rule_shape (update_first P (\<lambda>_. r) rules) = map rule_shape rules"
  by (induction rules) (auto split: if_splits)

lemma updateTargetBySingleID_shape:
  "updateTargetBySingleID env i vars rules = Returns rules' \<Longrightarrow> map rule_shape rules' = map rule_shape rules"
  by (auto simp: updateTargetBySingleID_def FindByID_def outcome_simps rule_shape_def split: option.splits
      dest!: ParseVariables_keeps intro!: update_first_found)

lemma update_targets_shape: "update_targets env vars ss rules = Returns rules' \<Longrightarrow> map rule_shape rules' = map rule_shape rules"
proof (induction ss arbitrary: rules)
  case (Cons s ss)
  then obtain spec where spec: "(case spec of SingleID i \<Rightarrow> updateTargetBySingleID env i vars rules
      | IDRange a b \<Rightarrow> if a = b then updateTargetBySingleID env a vars rules
          else outcome_bind (update_where (\<lambda>r. a \<le> r_ID r \<and> r_ID r \<le> b) (update_copy env vars) rules) (update_targets env vars ss)) =
      Returns rules'"
    by (auto simp: outcome_simps)
  show ?case
  proof (cases spec)
    case (SingleID i)
    then show ?thesis using spec updateTargetBySingleID_shape by simp
  next
    case (IDRange a b)
    show ?thesis
    proof (cases "a = b")
      case True
      then show ?thesis using spec IDRange updateTargetBySingleID_shape by simp
    next
      case False
      then obtain rules1 where "update_where (\<lambda>r. a \<le> r_ID r \<and> r_ID r \<le> b) (update_copy env vars) rules = Returns rules1"
        "update_targets env vars ss rules1 = Returns rules'"
        using spec IDRange by (auto simp: outcome_simps)
      then show ?thesis using Cons.IH update_where_copies by metis
    qed
  qed
qed simp

section \<open>Invariants of the rules\<close>

definition directive_keeps :: "(rule list \<Rightarrow> bool) \<Rightarrow> directive \<Rightarrow> bool" where
  "directive_keeps P d =
     (\<forall>env o1 o2. P (waf_Rules (do_WAF o1)) \<longrightarrow> d env o1 = Returns o2 \<longrightarrow> P (waf_Rules (do_WAF o2)))"

lemma directive_keepsI:
  "(\<And>env o1 o2. P (waf_Rules (do_WAF o1)) \<Longrightarrow> d env o1 = Returns o2 \<Longrightarrow> P (waf_Rules (do_WAF o2))) \<Longrightarrow> directive_keeps P d"
  by (simp add: directive_keeps_def)

lemma keeps_rules_keeps: "keeps_rules d \<Longrightarrow> directive_keeps P d"
  by (auto simp: directive_keeps_def keeps_rules_def)

lemma on_rules_Returns: "on_rules f o1 = Returns o2 \<Longrightarrow> waf_Rules (do_WAF o2) = f (waf_Rules (do_WAF o1))"
  by (auto simp: on_rules_def on_waf_def)

lemma subseq_DeleteByID: "subseq (DeleteByID rules i) rules"
  by (induction rules) auto

lemma subseq_DeleteByMsg: "DeleteByMsg rules m = Some rules' \<Longrightarrow> subseq rules' rules"
  by (induction rules arbitrary: rules') (auto split: option.splits if_splits)

lemma subseq_remove_by_ids: "remove_by_ids ss rules = Returns rules' \<Longrightarrow> subseq rules' rules"
proof (induction ss arbitrary: rules)
  case (Cons s ss)
  then obtain spec where
    "remove_by_ids ss (case spec of SingleID i \<Rightarrow> DeleteByID rules i | IDRange a b \<Rightarrow> DeleteByRange rules a b) = Returns rules'"
    by (auto simp: outcome_simps)
  from Cons.IH [OF this] show ?case
    by (cases spec) (auto simp: DeleteByRange_def intro: subseq_order.trans subseq_DeleteByID subseq_filter_left)
qed simp

text \<open>The interface between the group of rules and the directives that change it.\<close>

locale rule_group_invariant =
  fixes P :: "rule list \<Rightarrow> bool"
  assumes none: "P []"
    and added: "P rules \<Longrightarrow> P [rl] \<Longrightarrow> RuleGroup_Add rules (Some rl) = Inr rules' \<Longrightarrow> P rules'"
    and parsed: "P rules \<Longrightarrow> ParseRule env pf options rules tbl = (res, rules', tbl') \<Longrightarrow>
      P rules' \<and> (\<forall>rl. res = Returns (Some rl) \<longrightarrow> P [rl])"
    and plain: "r_actions r = [] \<Longrightarrow> P [Rule r None]"
    and removed: "P rules \<Longrightarrow> subseq rules' rules \<Longrightarrow> P rules'"
    and reshaped: "P rules \<Longrightarrow> map rule_shape rules' = map rule_shape rules \<Longrightarrow> P rules'"
begin

lemma removed_filter: "P rules \<Longrightarrow> P (filter q rules)"
  by (rule removed [OF _ subseq_filter_left])

lemma add_rule_keeps:
  assumes "P (waf_Rules (do_WAF o1))" "add_rule b ignore ds env o1 = Returns o2"
  shows "P (waf_Rules (do_WAF o2))"
proof -
  let ?ro = "\<lparr>ro_WithOperator = b, ro_ParserConfig = do_Parser o1, ro_Raw = do_Raw o1, ro_Data = do_Opts o1, ro_Datasets = ds\<rparr>"
  obtain res rules tbl where p: "ParseRule (se_parse env) (waf_RxPreFilterEnabled (do_WAF o1)) ?ro (waf_Rules (do_WAF o1)) (do_table o1) =
    (res, rules, tbl)"
    by (cases "ParseRule (se_parse env) (waf_RxPreFilterEnabled (do_WAF o1)) ?ro (waf_Rules (do_WAF o1)) (do_table o1)") auto
  note k = parsed [OF assms(1) p]
  have "P rules'" if "res = Returns ro" "RuleGroup_Add rules ro = Inr rules'" for ro rules'
    using that k added by (cases ro) (auto simp: RuleGroup_Add_def [of _ None])
  then show ?thesis
    using assms(2) p k by (auto simp: add_rule_def need_opts_def Let_def split: if_splits outcome.splits sum.splits dest!: on_rules_Returns)
qed

lemma rule_directives_keep:
  "directive_keeps P directiveSecMarker" "directive_keeps P directiveSecAction" "directive_keeps P directiveSecRule"
  "directive_keeps P directiveSecRuleRemoveByTag" "directive_keeps P directiveSecRuleRemoveByMsg"
  "directive_keeps P directiveSecRuleRemoveByID" "directive_keeps P directiveSecRuleUpdateTargetByID"
  "directive_keeps P directiveSecRuleUpdateTargetByTag"
proof -
  have m: "P [Rule (meta f NewRule) None]" for f by (rule plain) (simp add: meta_def NewRule_def)
  show "directive_keeps P directiveSecMarker"
    by (rule directive_keepsI) (auto simp: directiveSecMarker_def need_opts_def outcome_simps Let_def split: if_splits
        dest!: on_rules_Returns intro: added [OF _ m])
  show "directive_keeps P directiveSecAction" "directive_keeps P directiveSecRule"
    by (auto intro!: directive_keepsI intro: add_rule_keeps simp: directiveSecAction_def directiveSecRule_def)
  show "directive_keeps P directiveSecRuleRemoveByTag" "directive_keeps P directiveSecRuleRemoveByMsg"
    "directive_keeps P directiveSecRuleRemoveByID"
    by (auto intro!: directive_keepsI simp: directiveSecRuleRemoveByTag_def directiveSecRuleRemoveByMsg_def
        directiveSecRuleRemoveByID_def need_opts_def outcome_simps DeleteByTag_def removed_filter split: if_splits option.splits
        dest!: on_rules_Returns intro: removed [OF _ subseq_DeleteByMsg] removed [OF _ subseq_remove_by_ids])
  show "directive_keeps P directiveSecRuleUpdateTargetByID"
    by (auto intro!: directive_keepsI simp: directiveSecRuleUpdateTargetByID_def need_opts_def outcome_simps Let_def split: if_splits
        dest!: on_rules_Returns intro: reshaped [OF _ update_targets_shape])
  show "directive_keeps P directiveSecRuleUpdateTargetByTag"
    by (auto intro!: directive_keepsI simp: directiveSecRuleUpdateTargetByTag_def outcome_simps split: list.splits
        dest!: on_rules_Returns intro: reshaped [OF _ conjunct1 [OF update_where_copies]])
qed

lemma directives_keep:
  "list_all (\<lambda>(name, d). name \<noteq> ''secruleupdateactionbyid'' \<longrightarrow> directive_keeps P d) directivesMap"
  by (simp add: directivesMap_def inert_directives_def rule_directives_keep keeps_rules_directives keeps_rules_keeps)

end

section \<open>Identifiers\<close>

text \<open>What a parsed rule is, and what it does to the group.\<close>

lemma ParseRule_actions:
  assumes "ParseRule env pf options rules tbl = (Returns (Some rl), rules', tbl')"
  shows "chain_of rl = None \<and> rules' = rules \<and> length (disruptive_actions (rule_of rl)) \<le> 1 \<and>
    (r_Phase (rule_of rl) = PhaseRequestBody \<and> r_actions (rule_of rl) \<noteq> [] \<longrightarrow> length (disruptive_actions (rule_of rl)) = 1) \<and>
    registered_actions (pe_ct env) (rule_of rl)"
proof -
  let ?cfg = "ro_ParserConfig options" and ?ct = "pe_ct env"
  obtain defaults r raw where d: "parse_defaults ?ct (if pc_HasRuleDefaultActions ?cfg then pc_RuleDefaultActions ?cfg else []) [] = Inr defaults"
    and h: "rule_head env pf options = Inr (r, raw)"
    using assms by (auto simp: ParseRule_def Let_def result_bind_Inr split: if_splits sum.splits)
  obtain r1 where a: "(if ro_WithOperator options \<and> raw = [] then (Returns r, tbl)
      else case parseActions ?ct raw of Inl e \<Rightarrow> (Fails e, tbl) | Inr act \<Rightarrow> applyParsedActions env ?cfg defaults act r tbl) = (Returns r1, tbl')"
    and p: "place_rule ?ct options raw r1 rules = (Returns (Some rl), rules')"
    using assms d h by (auto simp: ParseRule_def Let_def result_bind_def split: if_splits sum.splits prod.splits outcome.splits)
  have "r_actions (rule_of rl) = r_actions r1" "r_Phase (rule_of rl) = r_Phase r1" "chain_of rl = None" "rules' = rules"
    using p by (auto simp: place_rule_def meta_def Let_def split: option.splits if_splits)
  then show ?thesis
    using parsed_actions_disruptive [OF d conjunct1 [OF rule_head_fresh [OF h]] a]
    by (simp add: disruptive_actions_def registered_actions_def)
qed

lemma ParseRule_group:
  assumes "ParseRule env pf options rules tbl = (res, rules', tbl')"
  shows "rules' = rules \<or> rules' = DiscardPendingChain rules \<or>
    (rules \<noteq> [] \<and> (\<exists>raw r. rules' = butlast rules @ [add_raw raw (chain_append (last rules) r)] \<and> length (disruptive_actions r) \<le> 1))"
proof (cases "rules' = rules \<or> rules' = DiscardPendingChain rules")
  case False
  let ?cfg = "ro_ParserConfig options" and ?ct = "pe_ct env"
  obtain defaults r raw where d: "parse_defaults ?ct (if pc_HasRuleDefaultActions ?cfg then pc_RuleDefaultActions ?cfg else []) [] = Inr defaults"
    and h: "rule_head env pf options = Inr (r, raw)"
    using assms False by (auto simp: ParseRule_def Let_def result_bind_def split: if_splits sum.splits)
  obtain r1 where a: "(if ro_WithOperator options \<and> raw = [] then (Returns r, tbl)
      else case parseActions ?ct raw of Inl e \<Rightarrow> (Fails e, tbl) | Inr act \<Rightarrow> applyParsedActions env ?cfg defaults act r tbl) = (Returns r1, tbl')"
    and p: "place_rule ?ct options raw r1 rules = (res, rules')"
    using assms d h False by (auto simp: ParseRule_def Let_def result_bind_def split: if_splits sum.splits prod.splits outcome.splits)
  have "length (disruptive_actions r1) \<le> 1"
    using parsed_actions_disruptive [OF d conjunct1 [OF rule_head_fresh [OF h]] a] by simp
  then have "length (disruptive_actions (chain_member q (meta f r1))) \<le> 1" for q f
    by (simp add: chain_member_def meta_def disruptive_actions_def)
  moreover have "rules \<noteq> []" "\<exists>f. rules' = butlast rules @
      [add_raw (ro_Raw options) (chain_append (last rules) (chain_member (rule_of (last rules)) (meta f r1)))]"
    using p False by (auto simp: place_rule_def Let_def getLastRuleExpectingChain_def split: if_splits)
  ultimately show ?thesis by blast
qed blast

lemma head_chain_append [simp]: "rule_of (add_raw raw (chain_append rl r)) = meta (\<lambda>m. m\<lparr>rm_Raw := rm_Raw m @ '' '' @ [CHR 10] @ raw\<rparr>) (rule_of rl)"
  by (cases "(rl, r)" rule: chain_append.cases) (simp_all add: add_raw_def)

lemma ParseRule_ids: "ids_distinct rules \<Longrightarrow> ParseRule env pf options rules tbl = (res, rules', tbl') \<Longrightarrow> ids_distinct rules'"
proof -
  assume i: "ids_distinct rules" and "ParseRule env pf options rules tbl = (res, rules', tbl')"
  from ParseRule_group [OF this(2)] consider "rules' = rules" | "rules' = DiscardPendingChain rules"
    | raw r where "rules \<noteq> []" "rules' = butlast rules @ [add_raw raw (chain_append (last rules) r)]" by blast
  then show ?thesis
  proof cases
    case 3
    then have "ids_distinct (butlast rules @ [last rules])" using i by simp
    then show ?thesis unfolding 3(2) ids_distinct_append1 by (simp add: meta_def)
  qed (use i DiscardPendingChain_ids in auto)
qed

lemma ids_distinct_subseq: "ids_distinct rules \<Longrightarrow> subseq rules' rules \<Longrightarrow> ids_distinct rules'"
proof -
  assume "subseq rules' rules"
  then have "set rules' \<subseteq> set rules \<and> (ids_distinct rules \<longrightarrow> ids_distinct rules')"
    by (induction rule: list_emb.induct) (auto simp: ids_distinct_Cons)
  then show "ids_distinct rules \<Longrightarrow> ids_distinct rules'" by simp
qed

lemma ids_distinct_shape: "ids_distinct rules \<Longrightarrow> map rule_shape rules' = map rule_shape rules \<Longrightarrow> ids_distinct rules'"
proof -
  have "map (\<lambda>r. r_ID (rule_of r)) rules = map (\<lambda>s. rm_ID (fst (snd s))) (map rule_shape rules)" for rules
    by (simp add: rule_shape_def)
  then show "ids_distinct rules \<Longrightarrow> map rule_shape rules' = map rule_shape rules \<Longrightarrow> ids_distinct rules'"
    unfolding ids_distinct_def by metis
qed

interpretation identifiers: rule_group_invariant ids_distinct
proof unfold_locales
  fix env pf options rules tbl res rules' tbl'
  assume "ids_distinct rules" "ParseRule env pf options rules tbl = (res, rules', tbl')"
  then show "ids_distinct rules' \<and> (\<forall>rl. res = Returns (Some rl) \<longrightarrow> ids_distinct [rl])"
    using ParseRule_ids by (auto simp: ids_distinct_Cons)
qed (auto simp: ids_distinct_Cons intro: RuleGroup_Add_ids ids_distinct_subseq ids_distinct_shape)

section \<open>From directives to configurations\<close>

abbreviation parser_rules :: "Parser \<Rightarrow> rule list" where
  "parser_rules p \<equiv> waf_Rules (do_WAF (p_options p))"

definition run_keeps :: "(rule list \<Rightarrow> bool) \<Rightarrow> Parser run \<Rightarrow> bool" where
  "run_keeps P x = (\<forall>p. x = Done (Returns p) \<longrightarrow> P (parser_rules p))"

lemma run_keeps_simps [simp]:
  "run_keeps P (Done (Returns p)) = P (parser_rules p)" "run_keeps P (Done (Fails e))" "run_keeps P (Done Panics)" "run_keeps P OutOfFuel"
  by (simp_all add: run_keeps_def)

lemma run_keeps_bind:
  assumes "run_keeps P x" "\<And>p. P (parser_rules p) \<Longrightarrow> run_keeps P (f p)"
  shows "run_keeps P (run_bind x f)"
  using assms by (auto simp: run_keeps_def run_bind_Returns)

locale configuration_invariant = rule_group_invariant +
  assumes updated: "directive_keeps P directiveSecRuleUpdateActionByID"
begin

lemma all_directives_keep: "alist_get directivesMap name = Some d \<Longrightarrow> directive_keeps P d"
proof -
  assume "alist_get directivesMap name = Some d"
  then have m: "(name, d) \<in> set directivesMap" by (rule alist_get_SomeD)
  have "alist_get directivesMap ''secruleupdateactionbyid'' = Some directiveSecRuleUpdateActionByID"
    by (simp add: directivesMap_def)
  then have "directive_keeps P d" if "name = ''secruleupdateactionbyid''"
    using \<open>alist_get directivesMap name = Some d\<close> that updated by simp
  moreover have "directive_keeps P d" if "name \<noteq> ''secruleupdateactionbyid''"
    using directives_keep m that unfolding list_all_iff by blast
  ultimately show "directive_keeps P d" by blast
qed

lemma evaluateLine_keeps:
  assumes "\<And>p f. P (parser_rules p) \<Longrightarrow> run_keeps P (rd p f)" "P (parser_rules p)"
  shows "run_keeps P (evaluateLine rd env p l)"
proof -
  have "P (parser_rules (p\<lparr>p_options := o2\<rparr>))"
    if "alist_get directivesMap name = Some d" "set_position env l opts p = Returns o1" "d (ce_seclang env) o1 = Returns o2" for name d opts o1 o2
  proof -
    have "waf_Rules (do_WAF o1) = parser_rules p" using that(2) by (auto simp: set_position_def outcome_simps)
    then have "P (waf_Rules (do_WAF o1))" using assms(2) by simp
    then have "P (waf_Rules (do_WAF o2))" using all_directives_keep [OF that(1)] that(3) unfolding directive_keeps_def by blast
    then show ?thesis by simp
  qed
  then have "run_keeps P (Done (outcome_bind (set_position env l opts p) (\<lambda>o1.
      outcome_bind (d (ce_seclang env) o1) (\<lambda>o2. Returns (p\<lparr>p_options := o2\<rparr>)))))"
    if "alist_get directivesMap name = Some d" for name d opts
    using that by (auto simp: run_keeps_def outcome_simps)
  then show ?thesis
    using assms by (auto simp: evaluateLine_def Let_def split: prod.splits option.splits)
qed

lemma parse_lines_keeps:
  assumes "\<And>p f. P (parser_rules p) \<Longrightarrow> run_keeps P (rd p f)"
  shows "P (parser_rules p) \<Longrightarrow> run_keeps P (parse_lines rd env p ls buf b)"
proof (induction ls arbitrary: p buf b)
  case (Cons l ls)
  then show ?case using evaluateLine_keeps [OF assms] by (auto simp: Let_def intro!: run_keeps_bind)
qed simp

lemma parse_files_keeps:
  assumes "\<And>p s. P (parser_rules p) \<Longrightarrow> run_keeps P (parse p s)"
  shows "P (parser_rules p) \<Longrightarrow> run_keeps P (parse_files parse env g p fs)"
proof (induction fs arbitrary: p)
  case (Cons f fs)
  show ?case
    unfolding parse_files.simps Let_def
  proof (split sum.split, intro conjI allI impI)
    fix data
    show "run_keeps P (run_bind (parse (p\<lparr>p_currentFile := f2, p_currentDir := path_Dir f2\<rparr>) data)
        (\<lambda>p1. parse_files parse env g (p1\<lparr>p_currentDir := p_currentDir p\<rparr>) fs))" for f2
      by (rule run_keeps_bind [OF assms]) (use Cons in simp_all)
  qed simp
qed simp

lemma FromFile_keeps: "P (parser_rules p) \<Longrightarrow> run_keeps P (FromFile n env p f)"
proof (induction n arbitrary: p f)
  case (Suc n)
  have "run_keeps P (parseString (FromFile n env) env p s)" if "P (parser_rules p)" for p s
    unfolding parseString_def by (rule parse_lines_keeps [OF Suc.IH that])
  note b = parse_files_keeps [OF this]
  show ?case
    using b [OF _ Suc.prems] by (auto simp: Let_def simp del: parse_files.simps split: sum.split intro!: run_keeps_bind)
qed simp

lemma FromString_keeps: "P (parser_rules p) \<Longrightarrow> run_keeps P (FromString env p s)"
  unfolding FromString_def parseString_def
  by (rule run_keeps_bind [OF parse_lines_keeps]) (auto intro: FromFile_keeps)

lemma load_rules_keeps:
  "P (parser_rules p) \<Longrightarrow> (\<And>rl. GivenRule rl \<in> set rs \<Longrightarrow> P [rl]) \<Longrightarrow> run_keeps P (load_rules env rs p)"
proof (induction rs arbitrary: p)
  case (Cons r rs)
  have "run_keeps P (Done (outcome_bind (of_result (RuleGroup_Add (parser_rules p) (Some rl))) (\<lambda>rules.
      outcome_bind (on_rules (\<lambda>_. rules) (p_options p)) (\<lambda>o1. Returns (p\<lparr>p_options := o1\<rparr>)))))"
    if "r = GivenRule rl" for rl
  proof -
    have "P [rl]" using Cons.prems(2) that by simp
    from added [OF Cons.prems(1) this] show ?thesis
      unfolding run_keeps_def by (auto simp: outcome_simps dest!: on_rules_Returns)
  qed
  then have "run_keeps P (case r of
      GivenRule rl \<Rightarrow>
        Done (outcome_bind (of_result (RuleGroup_Add (parser_rules p) (Some rl))) (\<lambda>rules.
          outcome_bind (on_rules (\<lambda>_. rules) (p_options p)) (\<lambda>o1. Returns (p\<lparr>p_options := o1\<rparr>))))
    | GivenString s \<Rightarrow> if s = [] then Done (Returns p) else FromString env p s
    | GivenFile f \<Rightarrow> if f = [] then Done (Returns p) else FromFile enough_fuel env p f)"
    using FromString_keeps [OF Cons.prems(1)] FromFile_keeps [OF Cons.prems(1)] Cons.prems(1) by (cases r) simp_all
  then show ?case
    unfolding load_rules.simps by (rule run_keeps_bind) (use Cons in simp)
qed simp

lemma coraza_NewWAF_keeps:
  assumes "coraza_NewWAF env ini tmp tbl c = Done (Returns w)" "\<And>rl. GivenRule rl \<in> set (wc_rules c) \<Longrightarrow> P [rl]"
  shows "P (waf_Rules w)"
proof -
  have i: "InitAuditLogWriter ini w1 = Inr w2 \<Longrightarrow> waf_Rules w2 = waf_Rules w1" for w1 w2
    by (auto simp: InitAuditLogWriter_def split: option.splits if_splits)
  have s: "waf_Rules (soften_limits (apply_settings c w1)) = waf_Rules w1" "waf_Rules (populateAuditLog c w1) = waf_Rules w1" for w1
    by (simp_all add: soften_limits_def apply_settings_def Let_def SetRequestBodyInMemoryLimit_def populateAuditLog_def
        SetAuditLogWriter_def split: option.split)
  obtain p w1 where "load_rules env (wc_rules c) (NewParser (NewWAF (se_HasAccessToFS env) tmp) tbl) = Done (Returns p)"
    "InitAuditLogWriter ini (populateAuditLog c (do_WAF (p_options p))) = Inr w1" "w = soften_limits (apply_settings c w1)"
    using assms(1) by (auto simp: coraza_NewWAF_def Let_def run_bind_Returns outcome_simps split: option.splits)
  moreover have "run_keeps P (load_rules env (wc_rules c) (NewParser (NewWAF (se_HasAccessToFS env) tmp) tbl))"
    by (rule load_rules_keeps) (use assms(2) none in \<open>auto simp: NewParser_def NewWAF_def\<close>)
  ultimately show ?thesis using i s by (auto simp: run_keeps_def)
qed

end

section \<open>Disruptive actions\<close>

definition one_disruptive :: "rule \<Rightarrow> bool" where
  "one_disruptive rl = list_all (\<lambda>r. length (disruptive_actions r) \<le> 1) (chain_rules rl)"

lemma one_disruptive_Rule:
  "one_disruptive (Rule r ch) = (length (disruptive_actions r) \<le> 1 \<and> (case ch of None \<Rightarrow> True | Some nr \<Rightarrow> one_disruptive nr))"
  by (auto simp: one_disruptive_def chain_rules_Rule split: option.splits)

lemma one_disruptive_shape:
  "list_all one_disruptive rules = list_all (\<lambda>(as, m, ch). length (filter (\<lambda>a. action_Type (snd a) = ActionTypeDisruptive) as) \<le> 1 \<and>
     (case ch of None \<Rightarrow> True | Some nr \<Rightarrow> one_disruptive nr)) (map rule_shape rules)"
proof (induction rules)
  case (Cons rl rules)
  then show ?case by (cases rl) (simp add: rule_shape_def one_disruptive_Rule disruptive_actions_def)
qed simp

lemma one_disruptive_append:
  "one_disruptive (add_raw raw (chain_append rl r)) \<longleftrightarrow> one_disruptive rl \<and> length (disruptive_actions r) \<le> 1"
proof -
  have "one_disruptive (chain_append rl r) \<longleftrightarrow> one_disruptive rl \<and> length (disruptive_actions r) \<le> 1"
    by (induction rl r rule: chain_append.induct) (auto simp: one_disruptive_Rule)
  moreover have "one_disruptive (add_raw raw rl') = one_disruptive rl'" for rl'
    by (cases rl') (simp add: add_raw_def one_disruptive_Rule disruptive_actions_def meta_def)
  ultimately show ?thesis by simp
qed

lemma update_actions_disruptive:
  assumes "update_actions env parsed r tbl = (Returns r', tbl')" "length (disruptive_actions r) \<le> 1"
    and p: "length (filter is_disruptive parsed) \<le> 1" "list_all (typed_action ct) parsed"
  shows "length (disruptive_actions r') \<le> 1"
proof -
  let ?r = "if hasDisruptiveActions parsed then ClearDisruptiveActions r else r"
  obtain r1 tbl1 where m: "init_actions env True parsed ?r tbl = (Returns r1, tbl1)" and i: "init_actions env False parsed r1 tbl1 = (Returns r', tbl')"
    using assms(1) by (auto simp: update_actions_def applyParsedActions_def split: if_splits prod.splits outcome.splits)
  let ?t = "map (\<lambda>(k, f). (k, action_Type f))" and ?dis = "\<lambda>xs. length (filter (\<lambda>p. snd p = ActionTypeDisruptive) xs)"
  have t: "length (disruptive_actions q) = ?dis (?t (r_actions q))" for q
    by (simp add: disruptive_actions_def filter_map comp_def case_prod_beta)
  have "?t (r_actions r') = ?t (r_actions ?r) @ map (\<lambda>a. (ra_Key a, ra_Atype a)) (filter (\<lambda>a. ra_Atype a \<noteq> ActionTypeMetadata) parsed)"
    using init_other_actions [OF i p(2)] init_metadata_actions [OF m] by simp
  moreover have "?dis (map (\<lambda>a. (ra_Key a, ra_Atype a)) (filter (\<lambda>a. ra_Atype a \<noteq> ActionTypeMetadata) parsed)) = length (filter is_disruptive parsed)"
    by (induction parsed) auto
  ultimately have "length (disruptive_actions r') = length (disruptive_actions ?r) + length (filter is_disruptive parsed)"
    unfolding t by simp
  moreover have "disruptive_actions (ClearDisruptiveActions r) = []"
    by (auto simp: disruptive_actions_def ClearDisruptiveActions_def filter_empty_conv)
  moreover have "filter is_disruptive parsed = []" if "\<not> hasDisruptiveActions parsed"
    using that by (auto simp: hasDisruptiveActions_def list_ex_iff filter_empty_conv)
  ultimately show ?thesis using assms(2) p(1) by (auto split: if_splits)
qed

lemma update_first_disruptive:
  "list_all one_disruptive rules \<Longrightarrow> (\<And>r. length (disruptive_actions (f r)) \<le> 1) \<Longrightarrow>
     list_all one_disruptive (update_first P f rules)"
proof (induction rules)
  case (Cons rl rules)
  then show ?case by (cases rl) (auto simp: one_disruptive_Rule)
qed simp

lemma update_actions_where_disruptive:
  assumes p: "length (filter is_disruptive parsed) \<le> 1" "list_all (typed_action ct) parsed"
  shows "update_actions_where P env parsed rules tbl = Returns (rules', tbl') \<Longrightarrow> list_all one_disruptive rules \<Longrightarrow>
    list_all one_disruptive rules'"
proof (induction rules arbitrary: tbl rules')
  case (Cons rl rules)
  obtain r ch where rl: "rl = Rule r ch" by (cases rl)
  show ?case
    using Cons update_actions_disruptive [OF _ _ p, of env r tbl] rl
    by (fastforce simp: one_disruptive_Rule outcome_simps split: if_splits prod.splits)
qed simp

lemma updateActionBySingleID_disruptive:
  assumes "updateActionBySingleID env i actions rules tbl = Returns (rules', tbl')" "list_all one_disruptive rules"
  shows "list_all one_disruptive rules'"
proof -
  obtain rl parsed r where f: "FindByID rules i = Some rl" and p: "parseActions (se_ct env) (unquoted actions) = Inr parsed"
    and u: "update_actions (se_parse env) parsed (rule_of rl) tbl = (Returns r, tbl')"
    and r: "rules' = update_first (\<lambda>x. r_ID (rule_of x) = i) (\<lambda>_. r) rules"
    using assms(1) by (auto simp: updateActionBySingleID_def outcome_simps case_prod_beta prod_eq_iff split: option.splits)
  have "one_disruptive rl" using f assms(2) by (auto simp: FindByID_def find_Some_iff list_all_length)
  then have d: "length (disruptive_actions (rule_of rl)) \<le> 1" by (cases rl) (simp add: one_disruptive_Rule)
  note t = parseActions_disruptive [OF p]
  from update_actions_disruptive [OF u d conjunct1 [OF t] conjunct2 [OF t]]
  show ?thesis unfolding r using assms(2) by (intro update_first_disruptive) simp_all
qed

lemma update_rule_actions_disruptive:
  "update_rule_actions env actions ss rules tbl = Returns (rules', tbl') \<Longrightarrow> list_all one_disruptive rules \<Longrightarrow>
     list_all one_disruptive rules'"
proof (induction ss arbitrary: rules tbl)
  case (Cons s ss)
  then obtain spec where spec: "(case spec of SingleID i \<Rightarrow> updateActionBySingleID env i actions rules tbl
      | IDRange a b \<Rightarrow> if a = b then updateActionBySingleID env a actions rules tbl
          else outcome_bind (of_result (parseActions (se_ct env) (unquoted actions))) (\<lambda>parsed.
            outcome_bind (update_actions_where (\<lambda>r. a \<le> r_ID r \<and> r_ID r \<le> b) (se_parse env) parsed rules tbl) (\<lambda>(rules', tbl').
              update_rule_actions env actions ss rules' tbl'))) = Returns (rules', tbl')"
    by (auto simp: outcome_simps)
  show ?case
  proof (cases "\<exists>i. updateActionBySingleID env i actions rules tbl = Returns (rules', tbl')")
    case True
    then show ?thesis using updateActionBySingleID_disruptive Cons.prems(2) by blast
  next
    case False
    then obtain a b parsed rules1 tbl1 where p: "parseActions (se_ct env) (unquoted actions) = Inr parsed"
      and w: "update_actions_where (\<lambda>r. a \<le> r_ID r \<and> r_ID r \<le> b) (se_parse env) parsed rules tbl = Returns (rules1, tbl1)"
      and n: "update_rule_actions env actions ss rules1 tbl1 = Returns (rules', tbl')"
      using spec by (auto simp: outcome_simps split: id_spec.splits if_splits)
    note t = parseActions_disruptive [OF p]
    show ?thesis
      using Cons.IH [OF n] update_actions_where_disruptive [OF conjunct1 [OF t] conjunct2 [OF t] w Cons.prems(2)] by simp
  qed
qed simp

lemma ParseRule_one_disruptive:
  assumes "ParseRule env pf options rules tbl = (res, rules', tbl')" "list_all one_disruptive rules"
  shows "list_all one_disruptive rules'"
proof -
  from ParseRule_group [OF assms(1)] consider "rules' = rules" | "rules' = DiscardPendingChain rules"
    | raw r where "rules \<noteq> []" "rules' = butlast rules @ [add_raw raw (chain_append (last rules) r)]" "length (disruptive_actions r) \<le> 1"
    by blast
  then show ?thesis
  proof cases
    case 2
    then show ?thesis using assms(2) by (auto simp: DiscardPendingChain_def list_all_iff dest: in_set_butlastD)
  next
    case 3
    then have "list_all one_disruptive (butlast rules @ [last rules])" using assms(2) by (simp only: append_butlast_last_id [OF 3(1)])
    then have "list_all one_disruptive (butlast rules)" "one_disruptive (last rules)" unfolding list_all_append by simp_all
    then show ?thesis using 3 by (simp add: one_disruptive_append)
  qed (use assms(2) in simp)
qed

interpretation disruptive: configuration_invariant "list_all one_disruptive"
proof unfold_locales
  fix env pf options rules tbl res rules' tbl'
  assume p: "list_all one_disruptive rules" "ParseRule env pf options rules tbl = (res, rules', tbl')"
  have "one_disruptive rl" if "res = Returns (Some rl)" for rl
    using ParseRule_actions [of env pf options rules tbl rl rules' tbl'] p(2) that by (cases rl) (simp add: one_disruptive_Rule)
  then show "list_all one_disruptive rules' \<and> (\<forall>rl. res = Returns (Some rl) \<longrightarrow> list_all one_disruptive [rl])"
    using ParseRule_one_disruptive [OF p(2,1)] by simp
next
  show "directive_keeps (list_all one_disruptive) directiveSecRuleUpdateActionByID"
    by (rule directive_keepsI) (auto simp: directiveSecRuleUpdateActionByID_def need_opts_def outcome_simps Let_def split: if_splits
        dest: update_rule_actions_disruptive)
next
  fix rules rules'
  assume "list_all one_disruptive rules" "map rule_shape rules' = map rule_shape rules"
  then show "list_all one_disruptive rules'"
    unfolding one_disruptive_shape by metis
next
  fix rules rules'
  assume "list_all one_disruptive rules" "subseq rules' rules"
  then show "list_all one_disruptive rules'" by (auto simp: list_all_iff dest: list_emb_set)
qed (auto simp: RuleGroup_Add_def Let_def one_disruptive_Rule disruptive_actions_def split: if_splits)

end
