(* ===== verification/Seclang_Properties.thy ===== *)
theory Seclang_Properties
  imports Seclang_Inv
begin

text \<open>
  The properties of the configuration language: of parsed rules and their actions, of the
  directives, and of the firewalls a configuration gives.
\<close>

section \<open>An environment for examples\<close>

definition sample_op_env :: op_env where
  "sample_op_env =
     \<lparr>env_regexp = (\<lambda>_. Inl (Error ''no expressions'')), env_find_all = (\<lambda>_. Inl (Error ''no expressions'')),
      env_restpath = (\<lambda>_. Inl (Error ''no expressions'')), env_binaryregexp = (\<lambda>_. Inl (Error ''no expressions'')),
      env_binary_prefilter = (\<lambda>_. None), env_accelerated = (\<lambda>_. Inr None), env_minMatchLength = (\<lambda>_. 0),
      env_prefilter = (\<lambda>_. None), env_stateFilter = (\<lambda>_. None), env_exactMatch = (\<lambda>_. None),
      env_ahocorasick = (\<lambda>_ _ _. []), env_indexedMatcher = (\<lambda>_ _. False), env_ParseCIDR = (\<lambda>_. None),
      env_IsSQLi = (\<lambda>_. (False, [])), env_IsXSS = (\<lambda>_. False), env_resolver = (\<lambda>_. RblTimeout),
      env_schema = (\<lambda>_. Inl (Error ''no schemas'')), env_exec = (\<lambda>_ _. None), env_ReadFile = (\<lambda>_. Inl NotExist),
      env_IsAbs = path_IsAbs, env_Join = path_Join\<rparr>"

definition sample_parse_env :: parse_env where
  "sample_parse_env =
     \<lparr>pe_ct = (\<lambda>r. r), pe_compile = (\<lambda>_. Inl (Error ''no expressions'')), pe_ops = sample_op_env, pe_GetTransformation = (\<lambda>_. None)\<rparr>"

definition sample_parser_config :: ParserConfig where
  "sample_parser_config =
     \<lparr>pc_DisabledRuleActions = [], pc_DisabledRuleOperators = [], pc_RuleDefaultActions = [], pc_HasRuleDefaultActions = False,
      pc_IgnoreRuleCompilationErrors = False, pc_LastLine = 1, pc_ConfigFile = [], pc_ConfigDir = [], pc_WorkingDir = []\<rparr>"

definition sample_rule_options :: "bool \<Rightarrow> string \<Rightarrow> RuleOptions" where
  "sample_rule_options withOperator data =
     \<lparr>ro_WithOperator = withOperator, ro_ParserConfig = sample_parser_config, ro_Raw = data, ro_Data = data, ro_Datasets = []\<rparr>"

section \<open>Rules\<close>

text \<open>
  C14: a rule that starts a chain, however it is written and whatever the default actions of the
  configuration are, has at most one disruptive action; in the request body phase, where the
  parser always has defaults, a rule with actions has exactly one.
\<close>

theorem parsed_rule_disruptive:
  assumes "ParseRule env pf options rules tbl = (Returns (Some rl), rules', tbl')"
  shows "length (disruptive_actions (rule_of rl)) \<le> 1 \<and>
    (r_Phase (rule_of rl) = PhaseRequestBody \<and> r_actions (rule_of rl) \<noteq> [] \<longrightarrow> length (disruptive_actions (rule_of rl)) = 1)"
  using ParseRule_actions [OF assms] by simp

abbreviation sample_parse :: "rule option outcome \<times> rule list \<times> id_table" where
  "sample_parse \<equiv> ParseRule sample_parse_env False (sample_rule_options False ''id:7,deny,drop'') [] initial_id_table"

lemma sample_parse_returns:
  "case sample_parse of
     (Returns (Some rl), rules', tbl') \<Rightarrow> r_Phase (rule_of rl) = PhaseRequestBody \<and> map fst (r_actions (rule_of rl)) = [''log'', ''auditlog'', ''drop'']
   | _ \<Rightarrow> False"
  by code_simp

lemma sample_parse_rule:
  obtains rl rules' tbl' where "sample_parse = (Returns (Some rl), rules', tbl')" "r_Phase (rule_of rl) = PhaseRequestBody"
    "map fst (r_actions (rule_of rl)) = [''log'', ''auditlog'', ''drop'']"
  using sample_parse_returns by (auto split: prod.splits outcome.splits option.splits)

theorem parsed_rule_disruptive_witness:
  "\<exists>rl rules' tbl'. sample_parse = (Returns (Some rl), rules', tbl') \<and> length (disruptive_actions (rule_of rl)) = 1"
proof -
  obtain rl rules' tbl' where s: "sample_parse = (Returns (Some rl), rules', tbl')" "r_Phase (rule_of rl) = PhaseRequestBody"
    "map fst (r_actions (rule_of rl)) = [''log'', ''auditlog'', ''drop'']"
    by (rule sample_parse_rule)
  then have "r_actions (rule_of rl) \<noteq> []" by auto
  then show ?thesis using parsed_rule_disruptive [OF s(1)] s(1,2) by blast
qed

text \<open>
  C15: the actions a parsed rule carries are well typed: none is a metadata action, which only
  shape the rule while it is parsed, and each has the type of the action its key is registered for.
\<close>

theorem parsed_rule_typed:
  assumes "ParseRule env pf options rules tbl = (Returns (Some rl), rules', tbl')"
  shows "registered_actions (pe_ct env) (rule_of rl)"
  using ParseRule_actions [OF assms] by simp

theorem parsed_rule_typed_witness:
  "\<exists>rl rules' tbl'. sample_parse = (Returns (Some rl), rules', tbl') \<and> length (r_actions (rule_of rl)) = 3 \<and>
     registered_actions (\<lambda>r. r) (rule_of rl)"
proof -
  obtain rl rules' tbl' where s: "sample_parse = (Returns (Some rl), rules', tbl')" "r_Phase (rule_of rl) = PhaseRequestBody"
    "map fst (r_actions (rule_of rl)) = [''log'', ''auditlog'', ''drop'']"
    by (rule sample_parse_rule)
  have "length (r_actions (rule_of rl)) = 3" using arg_cong [OF s(3), of length] by simp
  then show ?thesis using parsed_rule_typed [OF s(1)] s(1) by (auto simp: sample_parse_env_def)
qed

text \<open>
  C16: reading the text of actions inverts printing it: a list of actions under registered names,
  with values in quotes that have no quote and no backslash of their own, and at most one
  disruptive action, is read back as it is.
\<close>

theorem parseActions_print:
  assumes "as \<noteq> []" "list_all (printable_action ct) as" "length (filter is_disruptive as) \<le> 1"
  shows "parseActions ct (print_actions as) = Inr as"
proof -
  obtain a bs where as: "as = a # bs" using assms(1) by (cases as) auto
  obtain k ks where k: "ra_Key a = k # ks" using assms(2) as by (cases "ra_Key a") (auto simp: printable_action_def)
  then have p: "\<exists>rest. print_actions as = k # rest" by (cases bs) (simp_all add: as print_action_def)
  have "plain_letter k" using assms(2) as k by (simp add: printable_action_def)
  then have "k \<noteq> CHR 92" by (rule plain_letter_bytes(1))
  then have "parse_actions_loop ct k (drop (length [k]) (print_actions (a # bs))) [k] None False [] None = Inr ([] @ a # bs)"
    by (intro loop_print_actions [where ks = ks]) (use assms as k in \<open>simp_all add: disruptive_at_def\<close>)
  then show ?thesis using p as by (auto simp: parseActions_def)
qed

theorem parseActions_print_witness:
  "parseActions (\<lambda>r. r) (print_actions
     [\<lparr>ra_Key = ''msg'', ra_Value = ''a, b: c'', ra_Atype = ActionTypeMetadata, ra_F = msgFn\<rparr>,
      \<lparr>ra_Key = ''deny'', ra_Value = [], ra_Atype = ActionTypeDisruptive, ra_F = denyFn\<rparr>]) =
   Inr [\<lparr>ra_Key = ''msg'', ra_Value = ''a, b: c'', ra_Atype = ActionTypeMetadata, ra_F = msgFn\<rparr>,
      \<lparr>ra_Key = ''deny'', ra_Value = [], ra_Atype = ActionTypeDisruptive, ra_F = denyFn\<rparr>]"
  by (rule parseActions_print)
    (simp_all add: printable_action_def plain_letter_def plain_value_def is_ascii_def typed_action_def actions_Get_def
      actionmap_def to_lower_ascii lower_byte_def is_upper_def)

section \<open>Configurations\<close>

definition sample_config_env :: config_env where
  "sample_config_env =
     \<lparr>pe_ct = (\<lambda>r. r), pe_compile = (\<lambda>_. Inl (Error ''no expressions'')), pe_ops = sample_op_env, pe_GetTransformation = (\<lambda>_. None),
      se_HasAccessToFS = True, se_IsDirWritable = (\<lambda>_. None), se_Getwd = Inr ''/etc'', se_SetDebugLogPath = (\<lambda>_. None),
      se_status_regexp = (\<lambda>_. Inl (Error ''no expressions'')), se_spare = (\<lambda>_. 0),
      ce_Glob = (\<lambda>f. Inr [f]), ce_ReadFile = (\<lambda>_. Inl (Error ''no files''))\<rparr>"

definition sample_config :: wafConfig where
  "sample_config = WithRequestBodyLimit 16 (WithDirectives (''SecRuleEngine DetectionOnly'' @ [CHR 10] @ ''SecAction id:7,deny'') NewWAFConfig)"

abbreviation sample_configured :: "waf run" where
  "sample_configured \<equiv> coraza_NewWAF sample_config_env (\<lambda>_ _. None) ''/tmp'' initial_id_table sample_config"

text \<open>For evaluation: the buffer of the scanner is compared as an integer.\<close>

lemma scan_limit_code [code_unfold]: "max_scan_token \<le> length (l :: string) \<longleftrightarrow> 65536 \<le> int (length l)"
  by (simp add: max_scan_token_def)

lemma sample_configured_returns:
  "case sample_configured of
     Done (Returns w) \<Rightarrow> waf_RuleEngine w = RuleEngineDetectionOnly \<and> rules_keep_engine w \<and> length (waf_Rules w) = 1
   | _ \<Rightarrow> False"
  by code_simp

text \<open>
  C8: building a firewall from a configuration always ends: files that include each other, also
  in a circle, are stopped by the limit on inclusions, and the result is a firewall, an error or
  a panic.
\<close>

theorem coraza_NewWAF_terminates: "\<exists>r. coraza_NewWAF env init_writer tempDir tbl c = Done r"
  using coraza_NewWAF_ends by (cases "coraza_NewWAF env init_writer tempDir tbl c") auto

text \<open>
  C5: a firewall configured for detection only never interrupts a transaction, from the text of
  its configuration on: when its rules do not switch the engine, no sequence of calls of a
  connector leads to an interruption, not even a body over its limit.
\<close>

theorem configured_detection_only:
  assumes "coraza_NewWAF env init_writer tempDir tbl c = Done (Returns w)" "waf_RuleEngine w = RuleEngineDetectionOnly"
    "rules_keep_engine w" "env_ok lenv" "reachable lenv w tx"
  shows "\<not> IsInterrupted tx"
  using reachable_detects [OF assms(5,4,3) coraza_NewWAF_valid(2) [OF assms(1,2)] assms(2)] by simp

theorem configured_detection_only_witness:
  "\<exists>w. sample_configured = Done (Returns w) \<and> length (waf_Rules w) = 1 \<and>
     \<not> IsInterrupted (newTransaction (le_ct sample_life_env) 0 w ''id'' 0 None)"
proof -
  obtain w where w: "sample_configured = Done (Returns w)" "waf_RuleEngine w = RuleEngineDetectionOnly" "rules_keep_engine w"
    "length (waf_Rules w) = 1"
    using sample_configured_returns by (auto split: run.splits outcome.splits)
  show ?thesis
    using configured_detection_only [OF w(1-3) sample_life_ok(2) new_transaction] w(1,4) by blast
qed

text \<open>
  C10: in a firewall built from directives and files every rule, and every rule of its chain, has
  at most one disruptive action, whatever the configuration says: a later disruptive action takes
  the place of an earlier one, also when \<open>SecRuleUpdateActionById\<close> adds it, and the default
  actions fill in only when the rule has none.
\<close>

theorem configured_rules_disruptive:
  assumes "coraza_NewWAF env init_writer tempDir tbl c = Done (Returns w)" "\<forall>rl. GivenRule rl \<notin> set (wc_rules c)"
  shows "list_all one_disruptive (waf_Rules w)"
  using disruptive.coraza_NewWAF_keeps [OF assms(1)] assms(2) by simp

theorem configured_rules_disruptive_witness:
  "\<exists>w. sample_configured = Done (Returns w) \<and> length (waf_Rules w) = 1 \<and> list_all one_disruptive (waf_Rules w)"
proof -
  obtain w where w: "sample_configured = Done (Returns w)" "length (waf_Rules w) = 1"
    using sample_configured_returns by (auto split: run.splits outcome.splits)
  show ?thesis using configured_rules_disruptive [OF w(1)] w by (simp add: sample_config_def WithRequestBodyLimit_def WithDirectives_def NewWAFConfig_def)
qed

section \<open>Directives\<close>

text \<open>
  C17: every directive but one keeps the identifiers of the rules distinct: rules are added,
  removed, joined to a chain and given other targets, but two rules never get the same identifier.
  The exception is \<open>SecRuleUpdateActionById\<close>, which accepts an \<open>id\<close> action and does not compare it
  with the other rules.
\<close>

theorem directives_keep_ids:
  assumes "alist_get directivesMap name = Some d" "name \<noteq> ''secruleupdateactionbyid''"
    "ids_distinct (waf_Rules (do_WAF o1))" "d env o1 = Returns o2"
  shows "ids_distinct (waf_Rules (do_WAF o2))"
proof -
  have "directive_keeps ids_distinct d"
    using identifiers.directives_keep alist_get_SomeD [OF assms(1)] assms(2) unfolding list_all_iff by blast
  then show ?thesis using assms(3,4) unfolding directive_keeps_def by blast
qed

definition sample_options :: "rule list \<Rightarrow> string \<Rightarrow> DirectiveOptions" where
  "sample_options rules opts =
     \<lparr>do_WAF = (NewWAF True ''/tmp'')\<lparr>waf_Rules := rules\<rparr>, do_Raw = opts, do_Opts = opts, do_Datasets = [],
      do_Parser = no_config, do_table = initial_id_table\<rparr>"

definition sample_rule :: "int \<Rightarrow> rule" where
  "sample_rule i = Rule (meta (\<lambda>m. m\<lparr>rm_ID := i, rm_Tags := [''app'']\<rparr>) NewRule) None"

theorem directives_keep_ids_witness:
  "\<exists>o2. directiveSecAction (ce_seclang sample_config_env) (sample_options [sample_rule 7] ''id:8,deny'') = Returns o2 \<and>
     length (waf_Rules (do_WAF o2)) = 2 \<and> ids_distinct (waf_Rules (do_WAF o2))"
proof -
  have "case directiveSecAction (ce_seclang sample_config_env) (sample_options [sample_rule 7] ''id:8,deny'') of
      Returns o2 \<Rightarrow> length (waf_Rules (do_WAF o2)) = 2 | _ \<Rightarrow> False"
    by code_simp
  then obtain o2 where r: "directiveSecAction (ce_seclang sample_config_env) (sample_options [sample_rule 7] ''id:8,deny'') = Returns o2"
    "length (waf_Rules (do_WAF o2)) = 2"
    by (auto split: outcome.splits)
  have "alist_get directivesMap ''secaction'' = Some directiveSecAction" by (simp add: directivesMap_def)
  from directives_keep_ids [OF this _ _ r(1)] show ?thesis
    using r by (simp add: sample_options_def ids_distinct_Cons)
qed



text \<open>
  C22: a line of 64 KiB or more ends the configuration without an error: whatever follows it, the
  parser gives the result it gives for the lines before it.
\<close>

theorem long_line_ends_configuration:
  assumes "list_all (\<lambda>l. CHR 10 \<notin> set l \<and> length l < max_scan_token) ls" "CHR 10 \<notin> set l" "max_scan_token \<le> length l"
  shows "parseString rd env p (concat (map (\<lambda>l. l @ [CHR 10]) ls) @ l @ CHR 10 # rest) =
    parseString rd env p (concat (map (\<lambda>l. l @ [CHR 10]) ls))"
proof -
  have n: "list_all (\<lambda>l. CHR 10 \<notin> set l) ls" and s: "list_all (\<lambda>l. length l < max_scan_token) ls"
    using assms(1) by (auto simp: list_all_iff)
  have "split_byte (concat (map (\<lambda>l. l @ [CHR 10]) ls) @ l @ CHR 10 # rest) (CHR 10) = ls @ l # split_byte rest (CHR 10)"
    using n assms(2) by (induction ls) (simp_all add: split_byte_line)
  moreover have "split_byte rest (CHR 10) \<noteq> []" by (induction rest) (auto split: list.splits)
  ultimately have "\<exists>more. raw_lines (concat (map (\<lambda>l. l @ [CHR 10]) ls) @ l @ CHR 10 # rest) = ls @ l # more"
    by (simp add: raw_lines_def Let_def butlast_append)
  then obtain more where "raw_lines (concat (map (\<lambda>l. l @ [CHR 10]) ls) @ l @ CHR 10 # rest) = ls @ l # more" by blast
  then show ?thesis
    using raw_lines_print [OF n] s assms(3) by (simp add: parseString_def scan_lines_def scan_tokens_too_long scan_tokens_all)
qed

theorem long_line_ends_configuration_witness:
  "parseString (FromFile enough_fuel sample_config_env) sample_config_env (NewParser (NewWAF True ''/tmp'') initial_id_table)
     ((''SecRuleEngine On'' @ [CHR 10]) @ replicate 65536 CHR ''#'' @ CHR 10 # ''SecAction id:7,deny'') =
   parseString (FromFile enough_fuel sample_config_env) sample_config_env (NewParser (NewWAF True ''/tmp'') initial_id_table)
     (''SecRuleEngine On'' @ [CHR 10])"
  using long_line_ends_configuration [of "[''SecRuleEngine On'']" "replicate 65536 CHR ''#''" _ _ _ "''SecAction id:7,deny''"]
  by (simp add: max_scan_token_def)

end
