(* ===== verification/Rx_Prefilter.thy ===== *)
theory Rx_Prefilter
  imports Operators "HOL-Library.Word"
begin

text \<open>
  The filters in front of regular expressions (\<open>internal/operators/rxprefilter.go\<close>): the analysis of
  the syntax tree of an expression, the searchers it builds, and the filter that says that a value
  cannot match. The syntax tree is what \<open>regexp/syntax\<close> delivers after parsing and simplification;
  the parser is an argument.
\<close>

unbundle bit_operations_syntax

section \<open>Syntax trees\<close>

text \<open>
  A node carries the flag \<open>FoldCase\<close>. The operators that match an empty string at certain positions
  share a constructor; the expressions of a character class are pairs of bounds. Runes are not
  negative, and the operators of one expression have exactly one.
\<close>

datatype rx_assertion =
  OpEmptyMatch | OpBeginLine | OpEndLine | OpBeginText | OpEndText | OpWordBoundary | OpNoWordBoundary

datatype regexp =
    OpNoMatch bool
  | OpAssert bool rx_assertion
  | OpLiteral bool "nat list"
  | OpCharClass bool "(nat \<times> nat) list"
  | OpAnyCharNotNL bool
  | OpAnyChar bool
  | OpCapture bool regexp
  | OpStar bool regexp
  | OpPlus bool regexp
  | OpQuest bool regexp
  | OpRepeat bool int int regexp
  | OpConcat bool "regexp list"
  | OpAlternate bool "regexp list"

section \<open>Minimum length\<close>

text \<open>\<open>utf8.RuneLen\<close>.\<close>

definition RuneLen :: "nat \<Rightarrow> int" where
  "RuneLen r = (if valid_rune r then int (length (encode_rune r)) else -1)"

fun minLen :: "regexp \<Rightarrow> int" where
  "minLen (OpLiteral _ rs) = sum_list (map (\<lambda>r. if r = RuneError then 1 else RuneLen r) rs)"
| "minLen (OpAnyCharNotNL _) = 1"
| "minLen (OpAnyChar _) = 1"
| "minLen (OpCharClass _ _) = 1"
| "minLen (OpCapture _ re) = minLen re"
| "minLen (OpConcat _ subs) = sum_list (map minLen subs)"
| "minLen (OpAlternate _ subs) = (case map minLen subs of [] \<Rightarrow> 0 | m # ms \<Rightarrow> foldl min m ms)"
| "minLen (OpQuest _ _) = 0"
| "minLen (OpStar _ _) = 0"
| "minLen (OpPlus _ re) = minLen re"
| "minLen (OpRepeat _ lo _ re) = (if lo = 0 then 0 else lo * minLen re)"
| "minLen (OpNoMatch _) = 0"
| "minLen (OpAssert _ _) = 0"

definition minMatchLength :: "(string \<Rightarrow> regexp option) \<Rightarrow> string \<Rightarrow> int" where
  "minMatchLength parse pattern = (case parse pattern of None \<Rightarrow> 0 | Some re \<Rightarrow> minLen re)"

section \<open>Required literals\<close>

datatype literals = AllRequired "string list" | AnyRequired "string list"

fun hasFlag :: "regexp \<Rightarrow> bool" where
  "hasFlag (OpNoMatch f) = f"
| "hasFlag (OpAssert f _) = f"
| "hasFlag (OpLiteral f _) = f"
| "hasFlag (OpCharClass f _) = f"
| "hasFlag (OpAnyCharNotNL f) = f"
| "hasFlag (OpAnyChar f) = f"
| "hasFlag (OpCapture f re) = (f \<or> hasFlag re)"
| "hasFlag (OpStar f re) = (f \<or> hasFlag re)"
| "hasFlag (OpPlus f re) = (f \<or> hasFlag re)"
| "hasFlag (OpQuest f re) = (f \<or> hasFlag re)"
| "hasFlag (OpRepeat f _ _ re) = (f \<or> hasFlag re)"
| "hasFlag (OpConcat f subs) = (f \<or> list_ex hasFlag subs)"
| "hasFlag (OpAlternate f subs) = (f \<or> list_ex hasFlag subs)"

definition longest :: "string list \<Rightarrow> string" where
  "longest ss = (case ss of [] \<Rightarrow> [] | s # rest \<Rightarrow> foldl (\<lambda>best s. if length best < length s then s else best) s rest)"

definition shortestLength :: "string list \<Rightarrow> nat" where
  "shortestLength values = (case values of [] \<Rightarrow> 0 | v # vs \<Rightarrow> foldl (\<lambda>m v. if length v < m then length v else m) (length v) vs)"

definition anyTooShort :: "string list \<Rightarrow> nat \<Rightarrow> bool" where
  "anyTooShort ss n = list_ex (\<lambda>s. length s < n) ss"

definition filterShort :: "string list \<Rightarrow> nat \<Rightarrow> string list" where
  "filterShort ss n = filter (\<lambda>s. n \<le> length s) ss"

text \<open>The empty list stands for the nil group.\<close>

fun best_loop :: "string list list \<Rightarrow> string list \<Rightarrow> nat \<Rightarrow> string list" where
  "best_loop [] best bestMinLen = best"
| "best_loop (g # gs) best bestMinLen =
     (if g = [] then best_loop gs best bestMinLen
      else
        let m = shortestLength g
        in if bestMinLen < m \<or> m = bestMinLen \<and> (best = [] \<or> length g < length best) then best_loop gs g m
           else best_loop gs best bestMinLen)"

definition bestAnyRequired :: "string list list \<Rightarrow> string list" where
  "bestAnyRequired groups = best_loop groups [] 0"

definition maxClassLiterals :: int where "maxClassLiterals = 64"

fun class_literals :: "case_table \<Rightarrow> bool \<Rightarrow> (nat \<times> nat) list \<Rightarrow> string list \<Rightarrow> string list option" where
  "class_literals ct ci [] acc = Some acc"
| "class_literals ct ci ((low, high) # rs) acc =
     (if 127 < high \<or> maxClassLiterals - int (length acc) < int high - int low + 1 then None
      else class_literals ct ci rs
        (acc @ map (\<lambda>v. if ci then to_lower ct (encode_rune v) else encode_rune v) [low..<Suc high]))"

definition required_of_all :: "literals option list \<Rightarrow> string list" where
  "required_of_all ls = concat (map (\<lambda>l. case l of Some (AllRequired v) \<Rightarrow> v | _ \<Rightarrow> []) ls)"

definition required_groups :: "literals option list \<Rightarrow> string list list" where
  "required_groups ls = concat (map (\<lambda>l. case l of Some (AnyRequired v) \<Rightarrow> [v] | _ \<Rightarrow> []) ls)"

definition concat_literals :: "literals option list \<Rightarrow> literals option" where
  "concat_literals ls =
     (let every = required_of_all ls; best = bestAnyRequired (required_groups ls)
      in if every \<noteq> [] then
           (if best \<noteq> [] \<and> length (longest every) < shortestLength best then Some (AnyRequired best) else Some (AllRequired every))
         else if best = [] then None else Some (AnyRequired best))"

definition branch_literals :: "literals option list \<Rightarrow> literals option" where
  "branch_literals ls =
     (if list_ex (\<lambda>l. l = None) ls then None
      else
        let bs = concat (map (\<lambda>l. case l of Some (AllRequired v) \<Rightarrow> [longest v] | Some (AnyRequired v) \<Rightarrow> v | None \<Rightarrow> []) ls)
        in if bs = [] then None else Some (AnyRequired bs))"

fun extractLiterals :: "case_table \<Rightarrow> bool \<Rightarrow> regexp \<Rightarrow> literals option" where
  "extractLiterals ct ci (OpLiteral _ rs) =
     (if RuneError \<in> set rs then None
      else let s = concat (map encode_rune rs) in Some (AllRequired [if ci then to_lower ct s else s]))"
| "extractLiterals ct ci (OpCharClass _ rs) =
     (case class_literals ct ci rs [] of
        None \<Rightarrow> None
      | Some ls \<Rightarrow> if ls = [] then None else Some (AnyRequired ls))"
| "extractLiterals ct ci (OpCapture _ re) = extractLiterals ct ci re"
| "extractLiterals ct ci (OpConcat _ subs) = concat_literals (map (extractLiterals ct ci) subs)"
| "extractLiterals ct ci (OpAlternate _ subs) = branch_literals (map (extractLiterals ct ci) subs)"
| "extractLiterals ct ci (OpPlus _ re) = extractLiterals ct ci re"
| "extractLiterals ct ci (OpRepeat _ lo _ re) = (if 1 \<le> lo then extractLiterals ct ci re else None)"
| "extractLiterals ct ci (OpQuest _ _) = None"
| "extractLiterals ct ci (OpStar _ _) = None"
| "extractLiterals ct ci (OpNoMatch _) = None"
| "extractLiterals ct ci (OpAssert _ _) = None"
| "extractLiterals ct ci (OpAnyCharNotNL _) = None"
| "extractLiterals ct ci (OpAnyChar _) = None"

section \<open>ASCII\<close>

text \<open>Eight bytes at a time; the words are little-endian on a 64-bit platform.\<close>

definition asciiWordSize :: nat where "asciiWordSize = 8"

definition asciiHighBits :: "64 word" where "asciiHighBits = 0x8080808080808080"

fun asciiWord :: "string \<Rightarrow> 64 word" where
  "asciiWord [] = 0"
| "asciiWord (b # s) = word_of_nat (byte b) OR push_bit 8 (asciiWord s)"

function isASCII :: "string \<Rightarrow> bool" where
  "isASCII s =
     (if 4 * asciiWordSize \<le> length s then
        (if (asciiWord (take 8 s) OR asciiWord (take 8 (drop 8 s)) OR
             asciiWord (take 8 (drop 16 s)) OR asciiWord (take 8 (drop 24 s))) AND asciiHighBits \<noteq> 0 then False
         else isASCII (drop (4 * asciiWordSize) s))
      else if asciiWordSize \<le> length s then
        (if asciiWord (take 8 s) AND asciiHighBits \<noteq> 0 then False else isASCII (drop asciiWordSize s))
      else list_all (\<lambda>b. byte b \<le> 127) s)"
  by pat_completeness auto
termination by (relation "measure length") (auto simp: asciiWordSize_def)

declare isASCII.simps [simp del]

definition allASCIIStrings :: "string list \<Rightarrow> bool" where
  "allASCIIStrings ss = list_all isASCII ss"

fun extractedLiteralsAreASCII :: "literals \<Rightarrow> bool" where
  "extractedLiteralsAreASCII (AllRequired v) = allASCIIStrings v"
| "extractedLiteralsAreASCII (AnyRequired v) = allASCIIStrings v"

section \<open>Required bytes\<close>

definition byteRarity :: "char \<Rightarrow> nat" where
  "byteRarity c =
     (if c \<in> set ''etaoinshr'' then 0
      else if c \<in> set ''dlucmfywgpbv'' then 1
      else if c \<in> set ''kjqxz'' then 2
      else 3)"

text \<open>The set of bytes, also as a bitmap of four words.\<close>

record requiredByteMatcher =
  rb_bytes :: "char \<Rightarrow> bool"
  rb_bits :: "64 word list"
  rb_characters :: string
  rb_ascii :: bool

definition no_bits :: "64 word list" where "no_bits = replicate 4 0"

definition mark_byte :: "char \<Rightarrow> 64 word list \<Rightarrow> 64 word list" where
  "mark_byte c bits = bits[byte c div 64 := bits ! (byte c div 64) OR push_bit (byte c mod 64) 1]"

definition byte_presence :: "string \<Rightarrow> 64 word list" where
  "byte_presence value = fold mark_byte value no_bits"

definition common_bits :: "64 word list \<Rightarrow> 64 word list \<Rightarrow> bool" where
  "common_bits present bits = list_ex (\<lambda>i. present ! i AND bits ! i \<noteq> 0) [0..<4]"

definition rb_add :: "requiredByteMatcher \<Rightarrow> char \<Rightarrow> bool \<Rightarrow> requiredByteMatcher" where
  "rb_add m c caseFold =
     (let m1 = m\<lparr>rb_bytes := (rb_bytes m)(c := True), rb_bits := mark_byte c (rb_bits m)\<rparr>
      in if caseFold \<and> is_lower c then
           m1\<lparr>rb_bytes := (rb_bytes m1)(upper_byte c := True), rb_bits := mark_byte (upper_byte c) (rb_bits m1)\<rparr>
         else m1)"

text \<open>The byte that most of the groups have, the rarer one first.\<close>

definition best_byte :: "string list \<Rightarrow> char" where
  "best_byte groups =
     (let counts = (\<lambda>c. length (filter (\<lambda>g. c \<in> set g) groups))
      in foldl (\<lambda>best c. if counts best < counts c \<or> counts c = counts best \<and> byteRarity best < byteRarity c then c else best)
           (to_byte 0) (map to_byte [1..<256]))"

text \<open>Every round covers the groups with the chosen byte. \<open>None\<close>: the loop does not end.\<close>

primrec cover_loop :: "nat \<Rightarrow> bool \<Rightarrow> string list \<Rightarrow> requiredByteMatcher \<Rightarrow> requiredByteMatcher option" where
  "cover_loop 0 caseFold groups m = (if groups = [] then Some m else None)"
| "cover_loop (Suc n) caseFold groups m =
     (if groups = [] then Some m
      else let best = best_byte groups
           in cover_loop n caseFold (filter (\<lambda>g. best \<notin> set g) groups) (rb_add m best caseFold))"

definition newRequiredByteMatcher :: "string list \<Rightarrow> bool \<Rightarrow> requiredByteMatcher option" where
  "newRequiredByteMatcher needles caseFold =
     map_option (\<lambda>m.
       let selected = filter (rb_bytes m) (map to_byte [0..<256]); ascii = list_all is_ascii selected
       in m\<lparr>rb_ascii := ascii, rb_characters := (if ascii then selected else [])\<rparr>)
     (cover_loop (length needles) caseFold (map remdups needles)
        \<lparr>rb_bytes = (\<lambda>_. False), rb_bits = no_bits, rb_characters = [], rb_ascii = False\<rparr>)"

definition rb_match :: "requiredByteMatcher \<Rightarrow> string \<Rightarrow> bool" where
  "rb_match m value =
     (if rb_ascii m then list_ex (\<lambda>b. b \<in> set (rb_characters m)) value else list_ex (rb_bytes m) value)"

subsection \<open>The cache of bitmaps\<close>

text \<open>
  A string of the cache has an address; it is found again by address and length. The cache is a
  ring of four entries.
\<close>

definition cachedBytePresenceMinInputBytes :: nat where "cachedBytePresenceMinInputBytes = 512"

record byte_cache =
  bc_entries :: "(nat \<times> string \<times> 64 word list) list"
  bc_next :: nat

definition empty_byte_cache :: byte_cache where
  "empty_byte_cache = \<lparr>bc_entries = replicate 4 (0, [], no_bits), bc_next = 0\<rparr>"

definition LoadBytePresence :: "byte_cache \<Rightarrow> nat \<Rightarrow> string \<Rightarrow> 64 word list option" where
  "LoadBytePresence c a value =
     map_option (\<lambda>(_, _, present). present)
       (find (\<lambda>(b, v, _). length v = length value \<and> value \<noteq> [] \<and> b = a) (bc_entries c))"

definition StoreBytePresence :: "nat \<Rightarrow> string \<Rightarrow> 64 word list \<Rightarrow> byte_cache \<Rightarrow> byte_cache" where
  "StoreBytePresence a value present c =
     c\<lparr>bc_entries := (bc_entries c)[bc_next c := (a, value, present)], bc_next := (bc_next c + 1) mod 4\<rparr>"

definition rb_matchWithState :: "requiredByteMatcher \<Rightarrow> byte_cache \<Rightarrow> nat \<Rightarrow> string \<Rightarrow> bool \<times> byte_cache" where
  "rb_matchWithState m c a value =
     (if length value < cachedBytePresenceMinInputBytes then (rb_match m value, c)
      else case LoadBytePresence c a value of
        Some present \<Rightarrow> (common_bits present (rb_bits m), c)
      | None \<Rightarrow> if rb_match m value then (True, c) else (False, StoreBytePresence a value (byte_presence value) c))"

definition possibleFromCache :: "requiredByteMatcher \<Rightarrow> byte_cache \<Rightarrow> nat \<Rightarrow> string \<Rightarrow> bool" where
  "possibleFromCache m c a value =
     (if length value < cachedBytePresenceMinInputBytes then True
      else case LoadBytePresence c a value of
        None \<Rightarrow> True
      | Some present \<Rightarrow> common_bits present (rb_bits m))"

section \<open>Search for one literal\<close>

fun equalFoldASCIIBytes :: "string \<Rightarrow> string \<Rightarrow> bool" where
  "equalFoldASCIIBytes [] lower = True"
| "equalFoldASCIIBytes (c # v) [] = False"
| "equalFoldASCIIBytes (c # v) (l # lower) = (lower_byte c = l \<and> equalFoldASCIIBytes v lower)"

definition lowerASCII :: "string \<Rightarrow> string" where
  "lowerASCII s = map lower_byte s"

text \<open>The first of the rarest bytes of the literal.\<close>

definition anchor_index :: "string \<Rightarrow> nat" where
  "anchor_index needle =
     foldl (\<lambda>a i. if byteRarity (needle ! a) < byteRarity (needle ! i) then i else a) 0 [1..<length needle]"

definition first_of :: "string \<Rightarrow> char \<Rightarrow> char \<Rightarrow> nat option" where
  "first_of s lower upper =
     (let next = index_byte s lower
      in if upper \<noteq> lower then
           (case index_byte s upper of
              None \<Rightarrow> next
            | Some u \<Rightarrow> (case next of None \<Rightarrow> Some u | Some n \<Rightarrow> Some (if u < n then u else n)))
         else next)"

function contains_scan :: "string \<Rightarrow> string \<Rightarrow> nat \<Rightarrow> nat \<Rightarrow> bool" where
  "contains_scan s needle offset start =
     (let lastAnchor = length s - length needle + offset; lower = needle ! offset
      in if lastAnchor < start then False
         else case first_of (take (Suc lastAnchor - start) (drop start s)) lower (upper_byte lower) of
           None \<Rightarrow> False
         | Some i \<Rightarrow>
             if equalFoldASCIIBytes (take (length needle) (drop (start + i - offset) s)) needle then True
             else contains_scan s needle offset (Suc (start + i)))"
  by pat_completeness auto
termination
  by (relation "measure (\<lambda>(s, needle, offset, start). Suc (length s - length needle + offset) - start)") auto

declare contains_scan.simps [simp del]

definition containsFoldASCIIOnly :: "string \<Rightarrow> string \<Rightarrow> bool" where
  "containsFoldASCIIOnly s needle =
     (if needle = [] then True
      else if length s < length needle then False
      else contains_scan s needle (anchor_index needle) (anchor_index needle))"

definition containsFoldASCII :: "string \<Rightarrow> string \<Rightarrow> bool" where
  "containsFoldASCII s needle =
     (if needle = [] then True
      else if length s < length needle then False
      else if isASCII needle then containsFoldASCIIOnly s needle
      else True)"

text \<open>Shifts are 16-bit numbers.\<close>

record foldedLiteralMatcher =
  fl_needle :: string
  fl_shift :: "char \<Rightarrow> nat"
  fl_anchorLower :: char
  fl_anchorUpper :: char
  fl_indexed :: bool

definition shift_step :: "string \<Rightarrow> (char \<Rightarrow> nat) \<Rightarrow> nat \<Rightarrow> char \<Rightarrow> nat" where
  "shift_step needle shift i =
     (let sh = min (length needle - 1 - i) 65535; lower = lower_byte (needle ! i);
          shift1 = (if sh < shift lower then shift(lower := sh) else shift)
      in if is_lower lower then shift1(upper_byte lower := shift1 lower) else shift1)"

definition newFoldedLiteralMatcher :: "string \<Rightarrow> foldedLiteralMatcher" where
  "newFoldedLiteralMatcher needle =
     (if length needle < 2 \<or> \<not> isASCII needle then
        \<lparr>fl_needle = needle, fl_shift = (\<lambda>_. 0), fl_anchorLower = to_byte 0, fl_anchorUpper = to_byte 0, fl_indexed = False\<rparr>
      else
        let a = needle ! anchor_index needle
        in \<lparr>fl_needle = needle,
            fl_shift = foldl (shift_step needle) (\<lambda>_. min (length needle) 65535) [0..<length needle - 1],
            fl_anchorLower = a, fl_anchorUpper = upper_byte a, fl_indexed = True\<rparr>)"

text \<open>The loop over the windows; \<open>None\<close> when it is still running after the given number of windows.\<close>

primrec window_loop :: "nat \<Rightarrow> foldedLiteralMatcher \<Rightarrow> string \<Rightarrow> nat \<Rightarrow> bool option" where
  "window_loop 0 m value stop = None"
| "window_loop (Suc n) m value stop =
     (let k = length (fl_needle m)
      in if length value \<le> stop then Some False
         else if equalFoldASCIIBytes (take k (drop (Suc stop - k) value)) (fl_needle m) then Some True
         else window_loop n m value (stop + fl_shift m (lower_byte (value ! stop))))"

text \<open>Shifts are positive, so there are at most as many windows as bytes.\<close>

definition fl_match :: "foldedLiteralMatcher \<Rightarrow> string \<Rightarrow> bool" where
  "fl_match m value =
     (if \<not> fl_indexed m then containsFoldASCII value (fl_needle m)
      else if fl_anchorLower m \<notin> set value \<and> fl_anchorUpper m \<notin> set value then False
      else case window_loop (Suc (length value)) m value (length (fl_needle m) - 1) of
        Some b \<Rightarrow> b
      | None \<Rightarrow> True)"

section \<open>Search for several literals\<close>

definition bytePair :: "char \<Rightarrow> char \<Rightarrow> nat" where
  "bytePair first second = 256 * byte first + byte second"

definition foldedBytePair :: "char \<Rightarrow> char \<Rightarrow> nat" where
  "foldedBytePair first second = bytePair (lower_byte first) (lower_byte second)"

text \<open>The table of pairs is present when all literals have two bytes. Shifts are 8-bit numbers.\<close>

record indexedMatcher =
  im_shift :: "char \<Rightarrow> nat"
  im_endBuckets :: "char \<Rightarrow> string list"
  im_pairShift :: "(nat \<Rightarrow> nat) option"
  im_pairBuckets :: "nat \<Rightarrow> string list"
  im_minLen :: nat
  im_caseFold :: bool
  im_required :: "requiredByteMatcher option"

definition pair_step :: "nat \<Rightarrow> string \<Rightarrow> (nat \<Rightarrow> nat) \<Rightarrow> nat \<Rightarrow> nat \<Rightarrow> nat" where
  "pair_step n needle shift i =
     (let sh = (n - 2 - i) mod 256; p = bytePair (needle ! i) (needle ! Suc i)
      in if sh < shift p then shift(p := sh) else shift)"

definition pair_shifts :: "string list \<Rightarrow> nat \<Rightarrow> nat \<Rightarrow> nat" where
  "pair_shifts needles n =
     foldl (\<lambda>shift needle. foldl (pair_step n needle) shift [0..<n - 1]) (\<lambda>_. min (n - 1) 255) needles"

definition pair_buckets :: "string list \<Rightarrow> nat \<Rightarrow> nat \<Rightarrow> string list" where
  "pair_buckets needles n =
     foldl (\<lambda>b needle. let p = bytePair (needle ! (n - 2)) (needle ! (n - 1)) in b(p := b p @ [needle])) (\<lambda>_. []) needles"

definition byte_step :: "nat \<Rightarrow> bool \<Rightarrow> string \<Rightarrow> (char \<Rightarrow> nat) \<Rightarrow> nat \<Rightarrow> char \<Rightarrow> nat" where
  "byte_step n caseFold needle shift i =
     (let sh = (n - 1 - i) mod 256; c = needle ! i;
          shift1 = (if sh < shift c then shift(c := sh) else shift)
      in if caseFold \<and> is_lower c \<and> sh < shift1 (upper_byte c) then shift1(upper_byte c := sh) else shift1)"

definition byte_shifts :: "string list \<Rightarrow> nat \<Rightarrow> bool \<Rightarrow> char \<Rightarrow> nat" where
  "byte_shifts needles n caseFold =
     foldl (\<lambda>shift needle. foldl (byte_step n caseFold needle) shift [0..<n]) (\<lambda>_. min n 255) needles"

definition end_buckets :: "string list \<Rightarrow> nat \<Rightarrow> char \<Rightarrow> string list" where
  "end_buckets needles n =
     foldl (\<lambda>b needle. let c = needle ! (n - 1) in b(c := b c @ [needle])) (\<lambda>_. []) needles"

definition newIndexedMatcher :: "string list \<Rightarrow> bool \<Rightarrow> indexedMatcher option" where
  "newIndexedMatcher needles caseFold =
     (let m0 = \<lparr>im_shift = (\<lambda>_. 0), im_endBuckets = (\<lambda>_. []), im_pairShift = None, im_pairBuckets = (\<lambda>_. []), im_minLen = 0,
            im_caseFold = caseFold, im_required = None\<rparr>
      in if needles = [] then Some m0
         else
           let normalized = (if caseFold then map lowerASCII needles else needles); n = shortestLength normalized
           in map_option (\<lambda>req.
                let m1 = m0\<lparr>im_minLen := n, im_required := Some req\<rparr>
                in if 2 \<le> n then m1\<lparr>im_pairShift := Some (pair_shifts normalized n), im_pairBuckets := pair_buckets normalized n\<rparr>
                   else m1\<lparr>im_shift := byte_shifts normalized n caseFold, im_endBuckets := end_buckets normalized n\<rparr>)
              (newRequiredByteMatcher normalized caseFold))"

definition needle_at :: "bool \<Rightarrow> string \<Rightarrow> nat \<Rightarrow> string \<Rightarrow> bool" where
  "needle_at caseFold value start needle =
     (start + length needle \<le> length value \<and>
      (let w = take (length needle) (drop start value) in if caseFold then equalFoldASCIIBytes w needle else w = needle))"

text \<open>The loops of \<open>matchCaseSensitive\<close> and \<open>matchFold\<close>, over pairs of bytes and over single bytes.\<close>

function pair_scan :: "indexedMatcher \<Rightarrow> (nat \<Rightarrow> nat) \<Rightarrow> string \<Rightarrow> nat \<Rightarrow> bool" where
  "pair_scan m shift value stop =
     (if length value \<le> stop then False
      else
        let p = (if im_caseFold m then foldedBytePair else bytePair) (value ! (stop - 1)) (value ! stop)
        in if shift p \<noteq> 0 then pair_scan m shift value (stop + shift p)
           else list_ex (needle_at (im_caseFold m) value (Suc stop - im_minLen m)) (im_pairBuckets m p) \<or>
             pair_scan m shift value (Suc stop))"
  by pat_completeness auto
termination by (relation "measure (\<lambda>(m, shift, value, stop). length value - stop)") auto

function byte_scan :: "indexedMatcher \<Rightarrow> string \<Rightarrow> nat \<Rightarrow> bool" where
  "byte_scan m value i =
     (if length value \<le> i then False
      else
        let c = value ! i
        in if im_shift m c \<noteq> 0 then byte_scan m value (i + im_shift m c)
           else list_ex (needle_at (im_caseFold m) value (Suc i - im_minLen m))
                  (im_endBuckets m (if im_caseFold m then lower_byte c else c)) \<or>
             byte_scan m value (Suc i))"
  by pat_completeness auto
termination by (relation "measure (\<lambda>(m, value, i). length value - i)") auto

declare pair_scan.simps [simp del] byte_scan.simps [simp del]

definition im_match :: "indexedMatcher \<Rightarrow> string \<Rightarrow> bool" where
  "im_match m value =
     (if im_minLen m = 0 \<or> length value < im_minLen m then False
      else case im_pairShift m of
        Some shift \<Rightarrow> pair_scan m shift value (im_minLen m - 1)
      | None \<Rightarrow> byte_scan m value (im_minLen m - 1))"

definition im_matchWithState :: "indexedMatcher \<Rightarrow> byte_cache \<Rightarrow> nat \<Rightarrow> string \<Rightarrow> bool" where
  "im_matchWithState m c a value =
     (case im_required m of
        Some req \<Rightarrow> if \<not> possibleFromCache req c a value then False else im_match m value
      | None \<Rightarrow> im_match m value)"

section \<open>The filter of an expression\<close>

text \<open>
  The filter, and the filter that first consults the cache of the transaction. \<open>None\<close> as a result
  of the construction means that it does not end; an absent filter lets everything pass.
\<close>

type_synonym state_filter = "byte_cache \<Rightarrow> nat \<Rightarrow> string \<Rightarrow> bool \<times> byte_cache"

record compiledPrefilter =
  pf_match :: "(string \<Rightarrow> bool) option"
  pf_matchWithState :: "state_filter option"

definition no_prefilter :: compiledPrefilter where
  "no_prefilter = \<lparr>pf_match = None, pf_matchWithState = None\<rparr>"

definition anyRequiredMaxNeedles :: nat where "anyRequiredMaxNeedles = 256"

definition linearAnyRequiredMaxNeedles :: nat where "linearAnyRequiredMaxNeedles = 32"

text \<open>The long s and the Kelvin sign, which fold to \<open>s\<close> and \<open>k\<close>.\<close>

definition long_s :: string where "long_s = [CHR 0xC5, CHR 0xBF]"

definition kelvin :: string where "kelvin = [CHR 0xE2, CHR 0x84, CHR 0xAA]"

definition fold_exception :: "string \<Rightarrow> bool" where
  "fold_exception s = (contains_str s long_s \<or> contains_str s kelvin)"

definition literal_filter :: "bool \<Rightarrow> string \<Rightarrow> string \<Rightarrow> bool" where
  "literal_filter ci needle = (if ci then fl_match (newFoldedLiteralMatcher needle) else (\<lambda>s. contains_str s needle))"

text \<open>A filter, the bytes it requires, and whether the filter is these bytes only.\<close>

definition all_filter :: "bool \<Rightarrow> string list \<Rightarrow> ((string \<Rightarrow> bool) \<times> requiredByteMatcher \<times> bool) option" where
  "all_filter ci v =
     (let long = filterShort v 2; filtered = (if long = [] then [longest v] else long)
      in map_option (\<lambda>req. (\<lambda>s. list_all (\<lambda>needle. literal_filter ci needle s) filtered, req, False))
           (newRequiredByteMatcher [longest filtered] ci))"

definition any_filter :: "bool \<Rightarrow> string list \<Rightarrow> ((string \<Rightarrow> bool) \<times> requiredByteMatcher \<times> bool) option" where
  "any_filter ci v =
     (if length v = 1 then
        map_option (\<lambda>req. (literal_filter ci (hd v), req, False)) (newRequiredByteMatcher v ci)
      else if anyTooShort v 2 then map_option (\<lambda>req. (rb_match req, req, True)) (newRequiredByteMatcher v ci)
      else if length v \<le> linearAnyRequiredMaxNeedles then
        map_option (\<lambda>req. (\<lambda>s. list_ex (\<lambda>needle. literal_filter ci needle s) v, req, False)) (newRequiredByteMatcher v ci)
      else if length v \<le> anyRequiredMaxNeedles then
        Option.bind (newIndexedMatcher v ci) (\<lambda>im. map_option (\<lambda>req. (im_match im, req, False)) (newRequiredByteMatcher v ci))
      else map_option (\<lambda>req. (rb_match req, req, True)) (newRequiredByteMatcher v ci))"

definition with_state :: "(string \<Rightarrow> bool) \<Rightarrow> requiredByteMatcher \<Rightarrow> bool \<Rightarrow> state_filter" where
  "with_state pf req populate =
     (if populate then rb_matchWithState req
      else (\<lambda>c a value. if \<not> possibleFromCache req c a value then (False, c) else (pf value, c)))"

definition compile_tree :: "case_table \<Rightarrow> regexp \<Rightarrow> compiledPrefilter option" where
  "compile_tree ct re =
     (let ci = hasFlag re
      in case extractLiterals ct ci re of
           None \<Rightarrow> Some no_prefilter
         | Some lits \<Rightarrow>
             if ci \<and> \<not> extractedLiteralsAreASCII lits then Some no_prefilter
             else if (case lits of AnyRequired v \<Rightarrow> anyTooShort v 1 | AllRequired v \<Rightarrow> False) then Some no_prefilter
             else
               map_option (\<lambda>(pf, req, populate).
                 let st = with_state pf req populate
                 in if ci then
                      \<lparr>pf_match = Some (\<lambda>s. pf s \<or> fold_exception s),
                       pf_matchWithState = Some (\<lambda>c a s. case st c a s of (b, c') \<Rightarrow> (b \<or> fold_exception s, c'))\<rparr>
                    else \<lparr>pf_match = Some pf, pf_matchWithState = Some st\<rparr>)
               (case lits of AllRequired v \<Rightarrow> all_filter ci v | AnyRequired v \<Rightarrow> any_filter ci v))"

definition compilePrefilter :: "case_table \<Rightarrow> (string \<Rightarrow> regexp option) \<Rightarrow> string \<Rightarrow> compiledPrefilter option" where
  "compilePrefilter ct parse pattern = (case parse pattern of None \<Rightarrow> Some no_prefilter | Some re \<Rightarrow> compile_tree ct re)"

definition prefilterFunc :: "case_table \<Rightarrow> (string \<Rightarrow> regexp option) \<Rightarrow> string \<Rightarrow> (string \<Rightarrow> bool) option option" where
  "prefilterFunc ct parse pattern = map_option pf_match (compilePrefilter ct parse pattern)"

text \<open>An anchored literal, the expression without the default flags; the empty literal stands for none.\<close>

fun extractExactMatch :: "regexp \<Rightarrow> string \<times> bool" where
  "extractExactMatch (OpCapture _ re) = extractExactMatch re"
| "extractExactMatch (OpConcat _ [OpAssert _ OpBeginText, OpLiteral f rs, OpAssert _ OpEndText]) =
     (if RuneError \<in> set rs then ([], False) else (concat (map encode_rune rs), f))"
| "extractExactMatch _ = ([], False)"

end
