(* ===== verification/Rx_Matchers.thy ===== *)
theory Rx_Matchers
  imports Rx_Prefilter
begin

text \<open>
  The searchers of \<open>rxprefilter.go\<close> against their specification: the literal occurs in the value,
  where case is ignored for ASCII letters when the searcher folds.
\<close>

section \<open>Bytes\<close>

lemma lower_byte_cases: "lower_byte x = l \<Longrightarrow> x = l \<or> x = upper_byte l"
proof -
  assume l: "lower_byte x = l"
  show ?thesis
  proof (cases "is_upper x")
    case True
    then have "65 \<le> byte x" "byte x \<le> 90" by (auto simp: byte_class_defs)
    then have "byte l = byte x + 32" using l True byte_to_byte [of "byte x + 32"] by (auto simp: lower_byte_def)
    then have "is_lower l" "byte l - 32 = byte x" using \<open>65 \<le> byte x\<close> \<open>byte x \<le> 90\<close> by (auto simp: byte_class_defs)
    then show ?thesis by (simp add: upper_byte_def)
  qed (use l in \<open>simp add: lower_byte_def\<close>)
qed

lemma lower_byte_not_upper [simp]: "\<not> is_upper (lower_byte x)"
proof (cases "is_upper x")
  case True
  then have "65 \<le> byte x" "byte x \<le> 90" by (auto simp: byte_class_defs)
  then show ?thesis using True by (simp add: lower_byte_def byte_class_defs byte_to_byte)
qed (simp add: lower_byte_def)

lemma upper_byte_is_upper: "is_lower x \<Longrightarrow> is_upper (upper_byte x)"
proof -
  assume l: "is_lower x"
  then have "97 \<le> byte x" "byte x \<le> 122" by (auto simp: byte_class_defs)
  then have "byte (upper_byte x) = byte x - 32" using l byte_to_byte [of "byte x - 32"] by (simp add: upper_byte_def)
  moreover have "65 \<le> byte x - 32" "byte x - 32 \<le> 90" using \<open>97 \<le> byte x\<close> \<open>byte x \<le> 122\<close> by linarith+
  ultimately show ?thesis by (simp add: byte_class_defs)
qed

lemma lower_upper_byte: "\<not> is_upper l \<Longrightarrow> lower_byte (upper_byte l) = l"
proof (cases "is_lower l")
  case True
  then have "97 \<le> byte l" "byte l \<le> 122" by (auto simp: byte_class_defs)
  then have "byte (upper_byte l) = byte l - 32" using True byte_to_byte [of "byte l - 32"] by (simp add: upper_byte_def)
  then show ?thesis
    using upper_byte_is_upper [OF True] \<open>97 \<le> byte l\<close> by (simp add: lower_byte_def)
qed (simp add: upper_byte_def lower_byte_def)

section \<open>ASCII\<close>

lemma asciiHighBits_bit: "n < 64 \<Longrightarrow> bit asciiHighBits n \<longleftrightarrow> n mod 8 = 7"
proof -
  assume "n < 64"
  then have "n \<in> set [0..<64]" by simp
  moreover have "list_all (\<lambda>n. bit asciiHighBits n \<longleftrightarrow> n mod 8 = 7) [0..<64]" by code_simp
  ultimately show ?thesis unfolding list_all_iff by blast
qed

lemma asciiWord_bit:
  "length s \<le> 8 \<Longrightarrow> i < 8 \<Longrightarrow> bit (asciiWord s) (8 * i + 7) \<longleftrightarrow> i < length s \<and> 128 \<le> byte (s ! i)"
proof (induction s arbitrary: i)
  case (Cons b s)
  have b: "byte b < 256" by simp
  have low: "bit (byte b) (8 * j + 7) \<longleftrightarrow> j = 0 \<and> 128 \<le> byte b" for j
  proof (cases j)
    case 0
    moreover have "byte b div 128 = (if 128 \<le> byte b then 1 else 0)" using b by (auto intro: div_nat_eqI)
    ultimately show ?thesis by (simp add: bit_iff_odd)
  next
    case (Suc k)
    have "(2 :: nat) ^ 8 \<le> 2 ^ (8 * j + 7)" by (rule power_increasing) (use Suc in simp_all)
    moreover have "byte b < 2 ^ 8" using b by simp
    ultimately have "byte b < 2 ^ (8 * j + 7)" by (rule less_le_trans [rotated])
    then show ?thesis using Suc by (simp add: bit_iff_odd)
  qed
  show ?case
  proof (cases i)
    case 0
    then show ?thesis using low [of 0] by (simp add: bit_simps)
  next
    case (Suc k)
    then have "\<not> bit (byte b) (15 + 8 * k)" "bit (asciiWord s) (7 + 8 * k) \<longleftrightarrow> k < length s \<and> 128 \<le> byte (s ! k)"
      using low [of "Suc k"] Cons.IH [of k] Cons.prems by (simp_all add: add.commute)
    then show ?thesis using Suc Cons.prems by (auto simp: bit_simps)
  qed
qed simp

lemma asciiWord_high:
  assumes "length s \<le> 8"
  shows "asciiWord s AND asciiHighBits = 0 \<longleftrightarrow> list_all is_ascii s"
proof -
  have "asciiWord s AND asciiHighBits = 0 \<longleftrightarrow> (\<forall>n<64. \<not> (bit (asciiWord s) n \<and> bit asciiHighBits n))"
    by (auto simp: bit_eq_iff bit_simps)
  also have "\<dots> \<longleftrightarrow> (\<forall>i<8. \<not> bit (asciiWord s) (8 * i + 7))"
  proof (intro iffI allI impI)
    fix n :: nat
    assume a: "\<forall>i<8. \<not> bit (asciiWord s) (8 * i + 7)" and n: "n < 64"
    have "n mod 8 = 7 \<Longrightarrow> n = 8 * (n div 8) + 7" by presburger
    moreover have "n div 8 < 8" using n by simp
    ultimately show "\<not> (bit (asciiWord s) n \<and> bit asciiHighBits n)" using a asciiHighBits_bit [OF n] by metis
  next
    fix i :: nat
    assume a: "\<forall>n<64. \<not> (bit (asciiWord s) n \<and> bit asciiHighBits n)" and i: "i < 8"
    have "8 * i + 7 < 64" "(8 * i + 7) mod 8 = 7" using i by (simp, presburger)
    then show "\<not> bit (asciiWord s) (8 * i + 7)" using a asciiHighBits_bit [of "8 * i + 7"] by blast
  qed
  also have "\<dots> \<longleftrightarrow> (\<forall>i<length s. byte (s ! i) < 128)" using asciiWord_bit [OF assms] assms by (auto simp: not_le)
  finally show ?thesis by (simp add: list_all_length is_ascii_def)
qed

lemma ascii_blocks:
  "list_all is_ascii s \<longleftrightarrow> list_all is_ascii (take 8 s) \<and> list_all is_ascii (take 8 (drop 8 s)) \<and>
     list_all is_ascii (take 8 (drop 16 s)) \<and> list_all is_ascii (take 8 (drop 24 s)) \<and> list_all is_ascii (drop 32 s)"
proof -
  have "s = take 8 s @ take 8 (drop 8 s) @ take 8 (drop 16 s) @ take 8 (drop 24 s) @ drop 32 s"
    using append_take_drop_id [of 8 s] append_take_drop_id [of 8 "drop 8 s"] append_take_drop_id [of 8 "drop 16 s"]
      append_take_drop_id [of 8 "drop 24 s"] by simp
  then show ?thesis by (metis list_all_append)
qed

lemma ascii_high_or:
  "(a OR b OR c OR d) AND h = 0 \<longleftrightarrow> a AND h = 0 \<and> b AND h = 0 \<and> c AND h = 0 \<and> d AND h = 0" for a b c d h :: "64 word"
  by (auto simp: bit_eq_iff bit_simps)

lemma isASCII_iff: "isASCII s = list_all is_ascii s"
proof (induction "length s" arbitrary: s rule: less_induct)
  case less
  consider "32 \<le> length s" | "8 \<le> length s" "length s < 32" | "length s < 8" by linarith
  then show ?case
  proof cases
    case 1
    then have "isASCII (drop 32 s) = list_all is_ascii (drop 32 s)" by (intro less) simp
    then show ?thesis
      using 1 unfolding isASCII.simps [of s] ascii_blocks [of s] by (auto simp: ascii_high_or asciiWord_high asciiWordSize_def)
  next
    case 2
    then have "isASCII (drop 8 s) = list_all is_ascii (drop 8 s)" by (intro less) simp
    moreover have "list_all is_ascii s \<longleftrightarrow> list_all is_ascii (take 8 s) \<and> list_all is_ascii (drop 8 s)"
      by (metis append_take_drop_id list_all_append)
    ultimately show ?thesis
      using 2 unfolding isASCII.simps [of s] by (simp add: asciiWord_high asciiWordSize_def)
  next
    case 3
    have "(\<lambda>b. byte b \<le> 127) = is_ascii" by (auto simp: is_ascii_def fun_eq_iff)
    then show ?thesis using 3 unfolding isASCII.simps [of s] by (simp add: asciiWordSize_def)
  qed
qed

section \<open>Occurrences\<close>

definition fold_byte :: "bool \<Rightarrow> char \<Rightarrow> char" where
  "fold_byte ci c = (if ci then lower_byte c else c)"

lemma fold_byte_simps [simp]: "fold_byte True = lower_byte" "map (fold_byte False) s = s"
  by (simp_all add: fold_byte_def fun_eq_iff map_idI)

definition occurs_at :: "bool \<Rightarrow> string \<Rightarrow> string \<Rightarrow> nat \<Rightarrow> bool" where
  "occurs_at ci needle v p =
     (p + length needle \<le> length v \<and> (\<forall>j<length needle. fold_byte ci (v ! (p + j)) = needle ! j))"

definition occurs :: "bool \<Rightarrow> string \<Rightarrow> string \<Rightarrow> bool" where
  "occurs ci needle v = (\<exists>p. occurs_at ci needle v p)"

lemma occurs_at_nth: "occurs_at ci needle v p \<Longrightarrow> j < length needle \<Longrightarrow> needle ! j = fold_byte ci (v ! (p + j))"
  by (simp add: occurs_at_def)

lemma equalFold_iff: "length v = length l \<Longrightarrow> equalFoldASCIIBytes v l \<longleftrightarrow> map lower_byte v = l"
  by (induction v l rule: list_induct2) auto

lemma window_iff:
  assumes "p + length needle \<le> length v"
  shows "map (fold_byte ci) (take (length needle) (drop p v)) = needle \<longleftrightarrow> occurs_at ci needle v p"
  using assms by (auto simp: occurs_at_def list_eq_iff_nth_eq)

lemma fold_window:
  assumes "p + length needle \<le> length v"
  shows "equalFoldASCIIBytes (take (length needle) (drop p v)) needle \<longleftrightarrow> occurs_at True needle v p"
  using assms window_iff [OF assms, of True] by (subst equalFold_iff) (simp_all add: fold_byte_def)

lemma needle_at_iff: "needle_at ci v p needle \<longleftrightarrow> occurs_at ci needle v p"
proof (cases "p + length needle \<le> length v")
  case True
  then show ?thesis
    using fold_window [OF True] window_iff [OF True, of False] by (cases ci) (simp_all add: needle_at_def fold_byte_def Let_def)
qed (simp add: needle_at_def occurs_at_def)

lemma contains_str_occurs: "contains_str s needle \<longleftrightarrow> occurs False needle s"
proof
  assume "contains_str s needle"
  then obtain a b where "s = a @ needle @ b" by (auto simp: contains_str_iff)
  then have "occurs_at False needle s (length a)" by (simp add: occurs_at_def fold_byte_def nth_append)
  then show "occurs False needle s" by (auto simp: occurs_def)
next
  assume "occurs False needle s"
  then obtain p where p: "occurs_at False needle s p" by (auto simp: occurs_def)
  then have "p + length needle \<le> length s" by (simp add: occurs_at_def)
  from window_iff [OF this, of False] p have "take (length needle) (drop p s) = needle"
    by (simp add: fold_byte_def)
  then have "s = take p s @ needle @ drop (p + length needle) s"
    by (metis append_take_drop_id drop_drop add.commute)
  then show "contains_str s needle" unfolding contains_str_iff by blast
qed

section \<open>Windows that move by a table of shifts\<close>

text \<open>
  What the table promises: shifts are positive and at most the length of the literal, and a byte of
  the literal before its last one bounds the shift by its distance from the end.
\<close>

definition shifts_ok :: "string \<Rightarrow> nat \<Rightarrow> (char \<Rightarrow> nat) \<Rightarrow> bool" where
  "shifts_ok needle n shift =
     ((\<forall>c. 1 \<le> shift c \<and> shift c \<le> length needle) \<and>
      (\<forall>i<n. shift (lower_byte (needle ! i)) \<le> length needle - 1 - i))"

lemma shifts_ok_step:
  assumes "shifts_ok needle n shift" "Suc n < length needle"
  shows "shifts_ok needle (Suc n) (shift_step needle shift n)"
proof -
  let ?l = "lower_byte (needle ! n)" and ?sh = "min (length needle - 1 - n) 65535"
  let ?s1 = "if ?sh < shift ?l then shift(?l := ?sh) else shift"
  have b: "1 \<le> ?s1 c \<and> ?s1 c \<le> shift c \<and> ?s1 c \<le> length needle" for c
    using assms by (auto simp: shifts_ok_def)
  have n: "?s1 ?l \<le> length needle - 1 - n" by auto
  have s: "shift_step needle shift n = (if is_lower ?l then ?s1(upper_byte ?l := ?s1 ?l) else ?s1)"
    by (simp add: shift_step_def Let_def)
  have same: "shift_step needle shift n (lower_byte c) = ?s1 (lower_byte c)" for c
  proof -
    have "upper_byte ?l \<noteq> lower_byte c" if "is_lower ?l" using upper_byte_is_upper [OF that] lower_byte_not_upper [of c] by metis
    then show ?thesis unfolding s by (cases "is_lower ?l") (simp_all add: fun_upd_def)
  qed
  show ?thesis
    unfolding shifts_ok_def
  proof (intro conjI allI impI)
    fix c
    show "1 \<le> shift_step needle shift n c" "shift_step needle shift n c \<le> length needle" using b unfolding s by auto
  next
    fix i
    assume "i < Suc n"
    then show "shift_step needle shift n (lower_byte (needle ! i)) \<le> length needle - 1 - i"
      using assms(1) b [of "lower_byte (needle ! i)"] n unfolding same shifts_ok_def by (cases "i = n") force+
  qed
qed

lemma shifts_ok_table:
  assumes "2 \<le> length needle"
  shows "shifts_ok needle (length needle - 1) (foldl (shift_step needle) (\<lambda>_. min (length needle) 65535) [0..<length needle - 1])"
proof -
  have "n < length needle \<Longrightarrow> shifts_ok needle n (foldl (shift_step needle) (\<lambda>_. min (length needle) 65535) [0..<n])" for n
  proof (induction n)
    case 0
    show ?case using assms by (simp add: shifts_ok_def)
  qed (simp add: shifts_ok_step)
  then show ?thesis using assms by simp
qed

text \<open>A shift never passes over an occurrence: the byte at the end of the window would be in it.\<close>

lemma shift_passes_nothing:
  assumes "shifts_ok needle (length needle - 1) shift" "occurs_at True needle v p" "Suc stop - length needle < p"
    "length needle \<le> Suc stop" "needle \<noteq> []"
  shows "stop + shift (lower_byte (v ! stop)) \<le> p + length needle - 1"
proof (rule ccontr)
  assume "\<not> ?thesis"
  then have far: "p + length needle - 1 < stop + shift (lower_byte (v ! stop))" by simp
  moreover have "shift (lower_byte (v ! stop)) \<le> length needle" using assms(1) by (simp add: shifts_ok_def)
  ultimately have i: "p \<le> stop" "stop - p < length needle - 1" using assms(3-5) by (auto simp: Suc_le_eq)
  then have "needle ! (stop - p) = lower_byte (v ! stop)"
    using occurs_at_nth [OF assms(2), of "stop - p"] by simp
  then have "shift (lower_byte (v ! stop)) \<le> length needle - 1 - (stop - p)"
    using assms(1) i(2) unfolding shifts_ok_def by (metis lower_byte_idem)
  then show False using far i by linarith
qed

lemma window_loop_iff:
  assumes ok: "shifts_ok needle (length needle - 1) (fl_shift m)" and m: "fl_needle m = needle" "needle \<noteq> []"
  shows "length needle \<le> Suc stop \<Longrightarrow> 0 < n \<Longrightarrow> length v < n + stop \<Longrightarrow>
    window_loop n m v stop = Some (\<exists>p. Suc stop - length needle \<le> p \<and> occurs_at True needle v p)"
proof (induction n arbitrary: stop)
  case (Suc n)
  let ?k = "length needle"
  let ?next = "stop + fl_shift m (lower_byte (v ! stop))"
  show ?case
  proof (cases "length v \<le> stop \<or> occurs_at True needle v (Suc stop - ?k)")
    case True
    then show ?thesis
      using Suc.prems m fold_window [of "Suc stop - ?k" needle v] by (auto simp: Let_def occurs_at_def)
  next
    case False
    have one: "1 \<le> fl_shift m c" for c using ok by (simp add: shifts_ok_def)
    have "window_loop (Suc n) m v stop = window_loop n m v ?next"
      using False Suc.prems m fold_window [of "Suc stop - ?k" needle v] by (simp add: Let_def)
    also have "\<dots> = Some (\<exists>p. Suc ?next - ?k \<le> p \<and> occurs_at True needle v p)"
    proof (rule Suc.IH)
      show "length needle \<le> Suc ?next" "0 < n" "length v < n + ?next"
        using Suc.prems False one [of "lower_byte (v ! stop)"] by auto
    qed
    also have "(\<exists>p. Suc ?next - ?k \<le> p \<and> occurs_at True needle v p) \<longleftrightarrow>
        (\<exists>p. Suc stop - ?k \<le> p \<and> occurs_at True needle v p)"
    proof (intro iffI; elim exE conjE)
      fix p
      assume p: "Suc stop - ?k \<le> p" "occurs_at True needle v p"
      then have "Suc stop - ?k < p" using False by (cases "p = Suc stop - ?k") auto
      from shift_passes_nothing [OF ok p(2) this Suc.prems(1) m(2)] m(2) have "Suc ?next - ?k \<le> p" by (cases needle) auto
      then show "\<exists>p. Suc ?next - ?k \<le> p \<and> occurs_at True needle v p" using p(2) by blast
    next
      fix p
      assume "Suc ?next - ?k \<le> p" "occurs_at True needle v p"
      then show "\<exists>p. Suc stop - ?k \<le> p \<and> occurs_at True needle v p" by (intro exI [of _ p]) auto
    qed
    finally show ?thesis .
  qed
qed simp

end
