(* ===== verification/Spec2Isabelle.thy ===== *)
theory Spec2Isabelle
  imports Body_Buffer Transform_Escape Engine_Properties Audit_Properties Seclang_Properties Rx_Matchers
begin

text \<open>
  Verification of the web application firewall coraza.
\<close>

end
